theory Spec2Isabelle
  imports Complex_Main "HOL-Library.Word"
begin

section \<open>Strings\<close>

text \<open>
  A JavaScript string is a sequence of UTF-16 code units; \<open>length\<close>, \<open>substring\<close> and a
  regular expression without the \<open>u\<close> flag all count code units. A literal of the source
  is written \<open>js ''...''\<close>.
\<close>

type_synonym code_unit = "16 word"
type_synonym jsstring = "code_unit list"

definition js :: "string \<Rightarrow> jsstring" where
  "js s = map of_char s"

text \<open>
  \<open>String.prototype.substring(start, end)\<close>: both indices are clamped to the length of the
  string and swapped when they are out of order.
\<close>

definition substring :: "'a list \<Rightarrow> nat \<Rightarrow> nat \<Rightarrow> 'a list" where
  "substring s start endIndex =
     (let finalStart = min start (length s);
          finalEnd = min endIndex (length s);
          from = min finalStart finalEnd;
          to = max finalStart finalEnd
      in take (to - from) (drop from s))"

section \<open>Chunking the input text\<close>

text \<open>
  App.tsx, the presentation flavor:
  \<^verbatim>\<open>const CHUNK_SIZE = 3000;
  for (let i = 0; i < data.length; i += CHUNK_SIZE) {
      chunks.push(data.substring(i, i + CHUNK_SIZE));
  }\<close>
\<close>

definition CHUNK_SIZE :: nat where
  "CHUNK_SIZE = 3000"

function presentationChunkLoop :: "jsstring \<Rightarrow> nat \<Rightarrow> jsstring list \<Rightarrow> jsstring list" where
  "presentationChunkLoop data i chunks =
     (if i < length data
      then presentationChunkLoop data (i + CHUNK_SIZE) (chunks @ [substring data i (i + CHUNK_SIZE)])
      else chunks)"
  by pat_completeness auto
termination
  by (relation "measure (\<lambda>(data, i, chunks). length data - i)") (auto simp: CHUNK_SIZE_def)

declare presentationChunkLoop.simps [simp del]

definition presentationChunks :: "jsstring \<Rightarrow> jsstring list" where
  "presentationChunks data = presentationChunkLoop data 0 []"

text \<open>
  The story flavor (the second App component, in components/ChatPanel.tsx):
  \<^verbatim>\<open>const PAGE_CHUNK_SIZE = 3200;
  for (let i = 0; i < data.length; i += PAGE_CHUNK_SIZE) {
      chunks.push(data.substring(i, i + PAGE_CHUNK_SIZE));
  }\<close>
\<close>

definition PAGE_CHUNK_SIZE :: nat where
  "PAGE_CHUNK_SIZE = 3200"

function storyChunkLoop :: "jsstring \<Rightarrow> nat \<Rightarrow> jsstring list \<Rightarrow> jsstring list" where
  "storyChunkLoop data i chunks =
     (if i < length data
      then storyChunkLoop data (i + PAGE_CHUNK_SIZE) (chunks @ [substring data i (i + PAGE_CHUNK_SIZE)])
      else chunks)"
  by pat_completeness auto
termination
  by (relation "measure (\<lambda>(data, i, chunks). length data - i)") (auto simp: PAGE_CHUNK_SIZE_def)

declare storyChunkLoop.simps [simp del]

definition storyChunks :: "jsstring \<Rightarrow> jsstring list" where
  "storyChunks data = storyChunkLoop data 0 []"

section \<open>The document model (types.ts)\<close>

text \<open>
  The interfaces of types.ts as records. Field names that several interfaces share
  (\<open>id\<close>, \<open>title\<close>) carry the name of their interface as a prefix. \<open>imageUrl\<close> has
  the type \<open>string | null\<close>.
\<close>

record SlideScaffold =
  slide_id :: jsstring
  slide_title :: jsstring
  content :: "jsstring list"
  imageUrl :: "jsstring option"

record PresentationDocument =
  presentation_id :: jsstring
  presentation_title :: jsstring
  slides :: "SlideScaffold list"

record PageScaffold =
  page_id :: jsstring
  page_number :: nat
  page_text :: jsstring
  ai_suggestions :: "jsstring list"
  images :: "jsstring list"

record ChapterScaffold =
  chapter_id :: jsstring
  chapter_title :: jsstring
  summary :: jsstring
  pages :: "PageScaffold list"

text \<open>
  \<open>StoryDocument\<close>, over the type of the elements of its array. A JavaScript array can
  have holes, which the chapter loop can leave in the document it holds in the state
  (\<open>newChapters[i] = chapter\<close> past the end of the array): a \<open>StoryDocument\<close> is a
  document without holes, a \<open>HeldStoryDocument\<close> has \<open>None\<close> where the array has a hole.
\<close>

record 'c StoryDocumentOf =
  story_id :: jsstring
  story_title :: jsstring
  chapters :: "'c list"

type_synonym StoryDocument = "ChapterScaffold StoryDocumentOf"

type_synonym HeldStoryDocument = "ChapterScaffold option StoryDocumentOf"

definition held :: "StoryDocument \<Rightarrow> HeldStoryDocument" where
  "held d = \<lparr> story_id = story_id d, story_title = story_title d, chapters = map Some (chapters d) \<rparr>"

text \<open>
  \<open>Partial<SlideScaffold>\<close> and \<open>Partial<PageScaffold>\<close>: every key may be absent
  (\<open>None\<close>). The spread \<open>{ ...s, ...updates }\<close> overrides exactly the keys that are
  present in \<open>updates\<close>.
\<close>

record SlideUpdates =
  upd_slide_id :: "jsstring option"
  upd_slide_title :: "jsstring option"
  upd_content :: "jsstring list option"
  upd_imageUrl :: "jsstring option option"

record PageUpdates =
  upd_page_id :: "jsstring option"
  upd_page_number :: "nat option"
  upd_page_text :: "jsstring option"
  upd_ai_suggestions :: "jsstring list option"
  upd_images :: "jsstring list option"

definition override :: "'a \<Rightarrow> 'a option \<Rightarrow> 'a" where
  "override old new = (case new of None \<Rightarrow> old | Some v \<Rightarrow> v)"

definition spreadSlide :: "SlideScaffold \<Rightarrow> SlideUpdates \<Rightarrow> SlideScaffold" where
  "spreadSlide s updates =
     \<lparr> slide_id = override (slide_id s) (upd_slide_id updates),
       slide_title = override (slide_title s) (upd_slide_title updates),
       content = override (content s) (upd_content updates),
       imageUrl = override (imageUrl s) (upd_imageUrl updates) \<rparr>"

definition spreadPage :: "PageScaffold \<Rightarrow> PageUpdates \<Rightarrow> PageScaffold" where
  "spreadPage p updates =
     \<lparr> page_id = override (page_id p) (upd_page_id updates),
       page_number = override (page_number p) (upd_page_number updates),
       page_text = override (page_text p) (upd_page_text updates),
       ai_suggestions = override (ai_suggestions p) (upd_ai_suggestions updates),
       images = override (images p) (upd_images updates) \<rparr>"

section \<open>Editing handlers\<close>

text \<open>
  App.tsx, \<open>slideHandlers.onUpdateSlide\<close>. The handler passes a function to
  \<open>setPresentationDocument\<close>; the model is that function, from the current document
  (\<open>None\<close> is \<open>null\<close>) to the next one:
  \<^verbatim>\<open>doc => {
      if (!doc) return null;
      return { ...doc,
          slides: doc.slides.map(s => s.id === slideId ? { ...s, ...updates } : s) };
  }\<close>
\<close>

definition onUpdateSlide ::
  "jsstring \<Rightarrow> SlideUpdates \<Rightarrow> PresentationDocument option \<Rightarrow> PresentationDocument option" where
  "onUpdateSlide slideId updates doc =
     (case doc of
        None \<Rightarrow> None
      | Some d \<Rightarrow>
          Some (d\<lparr>slides :=
            map (\<lambda>s. if slide_id s = slideId then spreadSlide s updates else s) (slides d)\<rparr>))"

text \<open>
  components/ChatPanel.tsx (the story flavor), \<open>pageHandlers.onUpdatePage\<close>:
  \<^verbatim>\<open>doc => {
      if (!doc) return null;
      return { ...doc,
          chapters: doc.chapters.map(c => c.id === chapterId ? {
              ...c,
              pages: c.pages.map(p => p.id === pageId ? { ...p, ...updates } : p)
          } : c) };
  }\<close>
\<close>

definition onUpdatePage ::
  "jsstring \<Rightarrow> jsstring \<Rightarrow> PageUpdates \<Rightarrow> StoryDocument option \<Rightarrow> StoryDocument option" where
  "onUpdatePage chapterId pageId updates doc =
     (case doc of
        None \<Rightarrow> None
      | Some d \<Rightarrow>
          Some (d\<lparr>chapters :=
            map (\<lambda>c. if chapter_id c = chapterId
                      then c\<lparr>pages :=
                             map (\<lambda>p. if page_id p = pageId then spreadPage p updates else p)
                               (pages c)\<rparr>
                      else c)
              (chapters d)\<rparr>))"

section \<open>Export file names\<close>

text \<open>
  pptxService.ts and pdfService.ts build the file name alike:
  \<^verbatim>\<open>`${doc.title.replace(/[^a-z0-9]/gi, '_').toLowerCase()}.pptx`\<close>
  The class \<open>[a-z0-9]\<close> under the flag \<open>i\<close> (and without the flag \<open>u\<close>) holds the
  ASCII letters of both cases and the ASCII digits: the case folding of a regular expression
  without \<open>u\<close> never maps a code unit above 127 to one below 128. With the flag \<open>g\<close>,
  \<open>replace\<close> substitutes every code unit outside the class.
\<close>

definition inClass_az09_i :: "code_unit \<Rightarrow> bool" where
  "inClass_az09_i c \<longleftrightarrow>
     (0x61 \<le> c \<and> c \<le> 0x7A) \<or> (0x41 \<le> c \<and> c \<le> 0x5A) \<or> (0x30 \<le> c \<and> c \<le> 0x39)"

definition replaceNonAlnum :: "jsstring \<Rightarrow> jsstring" where
  "replaceNonAlnum s = map (\<lambda>c. if inClass_az09_i c then c else 0x5F) s"

text \<open>
  \<open>String.prototype.toLowerCase\<close> is a builtin that follows the Unicode case tables; the
  export functions take it as the parameter \<open>toLowerCase\<close>. On a string of ASCII code
  units the builtin is \<open>map asciiLower\<close>, which is all that \<open>lowersAscii\<close> asks of it.
\<close>

definition asciiLower :: "code_unit \<Rightarrow> code_unit" where
  "asciiLower c = (if 0x41 \<le> c \<and> c \<le> 0x5A then c + 0x20 else c)"

definition lowersAscii :: "(jsstring \<Rightarrow> jsstring) \<Rightarrow> bool" where
  "lowersAscii toLowerCase \<longleftrightarrow>
     (\<forall>s. (\<forall>c \<in> set s. c < 0x80) \<longrightarrow> toLowerCase s = map asciiLower s)"

definition createPresentation_fileName ::
  "(jsstring \<Rightarrow> jsstring) \<Rightarrow> PresentationDocument \<Rightarrow> jsstring" where
  "createPresentation_fileName toLowerCase doc =
     toLowerCase (replaceNonAlnum (presentation_title doc)) @ js ''.pptx''"

definition createPdf_fileName :: "(jsstring \<Rightarrow> jsstring) \<Rightarrow> StoryDocument \<Rightarrow> jsstring" where
  "createPdf_fileName toLowerCase doc =
     toLowerCase (replaceNonAlnum (story_title doc)) @ js ''.pdf''"

section \<open>Builtins used by the services and handlers\<close>

text \<open>
  A thrown value: an \<open>Error\<close> object with its \<open>name\<close> and \<open>message\<close>, or any other
  value. The story flavor tests \<open>err instanceof Error && err.name === 'AbortError'\<close>.
\<close>

datatype thrown = ErrorObject jsstring jsstring | NonError jsstring

fun isAbortError :: "thrown \<Rightarrow> bool" where
  "isAbortError (ErrorObject name message) = (name = js ''AbortError'')"
| "isAbortError (NonError v) = False"

definition newError :: "string \<Rightarrow> thrown" where
  "newError message = ErrorObject (js ''Error'') (js message)"

definition typeError :: thrown where
  "typeError = ErrorObject (js ''TypeError'') (js ''Cannot read properties of undefined'')"

text \<open>The decimal digits of a number, as a template literal \<open>${n}\<close> prints them.\<close>

function decimal :: "nat \<Rightarrow> jsstring" where
  "decimal n = (if n < 10 then [0x30 + of_nat n] else decimal (n div 10) @ [0x30 + of_nat (n mod 10)])"
  by pat_completeness auto
termination
  by (relation "measure id") auto

declare decimal.simps [simp del]

text \<open>
  \<open>String.prototype.trim\<close> removes the white space and line terminator code units of
  ECMAScript from both ends; \<open>replace(/"/g, '')\<close> removes every double quote.
\<close>

definition isWhiteSpace :: "code_unit \<Rightarrow> bool" where
  "isWhiteSpace c \<longleftrightarrow>
     c \<in> {0x09, 0x0A, 0x0B, 0x0C, 0x0D, 0x20, 0xA0, 0x1680, 0x2028, 0x2029, 0x202F, 0x205F,
          0x3000, 0xFEFF} \<or> (0x2000 \<le> c \<and> c \<le> 0x200A)"

definition trim :: "jsstring \<Rightarrow> jsstring" where
  "trim s = rev (dropWhile isWhiteSpace (rev (dropWhile isWhiteSpace s)))"

definition removeQuotes :: "jsstring \<Rightarrow> jsstring" where
  "removeQuotes s = filter (\<lambda>c. c \<noteq> 0x22) s"

section \<open>The generative-AI backend and the trace of a run\<close>

text \<open>
  The prompts are template literals over the arguments of the service functions; a
  request keeps those arguments. \<open>TitleRequest\<close> and \<open>StoryTitleRequest\<close> carry the
  excerpt \<open>firstChunk.slice(0, 2000)\<close> (story: \<open>slice(0, 1000)\<close>), \<open>PageImageRequest\<close> the
  excerpt \<open>pageText.slice(0, 500)\<close> and the mood (\<open>None\<close> when the caller passes none).
\<close>

datatype request =
    TitleRequest jsstring
  | SlideRequest jsstring nat nat jsstring
  | ImageRequest jsstring
  | StoryTitleRequest jsstring
  | ChapterRequest jsstring nat nat jsstring
  | PageImageRequest jsstring "jsstring option"

text \<open>
  The response of \<open>ai.models.generateImages\<close>, with the optional fields of the SDK:
  the code reads \<open>response.generatedImages[0].image.imageBytes\<close>.
\<close>

datatype Image = Image (imageBytes: "jsstring option")
datatype GeneratedImage = GeneratedImage (generatedImage_image: "Image option")
datatype GenerateImagesResponse =
  GenerateImagesResponse (generatedImages: "GeneratedImage list option")

text \<open>
  What \<open>JSON.parse(response.text.trim())\<close> yields under the response schemas of the two
  services, which require \<open>title\<close>, \<open>image_prompt\<close> and \<open>pages\<close>; \<open>content\<close> and the
  \<open>ai_suggestions\<close> of a page may be missing, as the code allows for with
  \<open>parsed.content || []\<close> and \<open>p.ai_suggestions || [...]\<close>.
\<close>

record ParsedSlide =
  parsed_title :: jsstring
  parsed_content :: "jsstring list option"
  parsed_image_prompt :: jsstring

record ParsedChapter =
  parsed_chapter_title :: jsstring
  parsed_pages :: "jsstring list option list"

text \<open>
  The environment of a run. Each backend call either throws (\<open>Inl\<close>) or answers
  (\<open>Inr\<close>): \<open>generateText\<close> is \<open>generateContent\<close> read through \<open>response.text\<close> (a
  response without text makes \<open>.trim()\<close> throw, which is an \<open>Inl\<close> as well),
  \<open>generateSlideJson\<close> and \<open>generateChapterJson\<close> are \<open>generateContent\<close> with a response
  schema followed by \<open>JSON.parse\<close>, \<open>generateImages\<close> is the image API, and
  \<open>randomUUID k\<close> is the value of the \<open>k\<close>-th call of \<open>crypto.randomUUID()\<close>. The answer
  to a request is a function of the request.
\<close>

record env =
  generateText :: "request \<Rightarrow> thrown + jsstring"
  generateSlideJson :: "request \<Rightarrow> thrown + ParsedSlide"
  generateChapterJson :: "request \<Rightarrow> thrown + ParsedChapter"
  generateImages :: "request \<Rightarrow> thrown + GenerateImagesResponse"
  randomUUID :: "nat \<Rightarrow> jsstring"

text \<open>
  What a run leaves behind: the backend calls in the order in which they start and
  settle (\<open>Settled r True\<close> is a fulfilled promise, \<open>Settled r False\<close> a rejected one), the
  console output, and the exceptions that no handler of the application catches
  (\<open>Uncaught\<close>).
\<close>

datatype console_arg = Text jsstring | Exception thrown

datatype event =
    Started request
  | Settled request bool
  | ConsoleError "console_arg list"
  | ConsoleLog jsstring
  | Uncaught thrown

record world =
  uuids :: nat
  trace :: "event list"

definition emit :: "event list \<Rightarrow> world \<Rightarrow> world" where
  "emit es w = w\<lparr>trace := trace w @ es\<rparr>"

definition crypto_randomUUID :: "env \<Rightarrow> world \<Rightarrow> jsstring \<times> world" where
  "crypto_randomUUID e w = (randomUUID e (uuids w), w\<lparr>uuids := Suc (uuids w)\<rparr>)"

text \<open>An awaited backend call: it starts, then settles with the answer of the environment.\<close>

definition await :: "(request \<Rightarrow> thrown + 'a) \<Rightarrow> request \<Rightarrow> world \<Rightarrow> (thrown + 'a) \<times> world" where
  "await api r w =
     (case api r of
        Inl err \<Rightarrow> (Inl err, emit [Started r, Settled r False] w)
      | Inr v \<Rightarrow> (Inr v, emit [Started r, Settled r True] w))"

section \<open>The services of the presentation flavor\<close>

text \<open>
  \<^verbatim>\<open>export const generatePresentationTitle = async (firstChunk: string) => {
      const prompt = `... ${firstChunk.slice(0, 2000)} ...`;
      const response = await ai.models.generateContent({ model, contents: prompt });
      return response.text.trim().replace(/"/g, '');
  };\<close>
\<close>

definition generatePresentationTitle ::
  "env \<Rightarrow> jsstring \<Rightarrow> world \<Rightarrow> (thrown + jsstring) \<times> world" where
  "generatePresentationTitle e firstChunk w =
     (case await (generateText e) (TitleRequest (take 2000 firstChunk)) w of
        (Inl err, w') \<Rightarrow> (Inl err, w')
      | (Inr text, w') \<Rightarrow> (Inr (removeQuotes (trim text)), w'))"

text \<open>
  \<open>response.generatedImages[0].image.imageBytes\<close>: reading a property of \<open>undefined\<close>
  throws a \<open>TypeError\<close>; the template literal prints a missing \<open>imageBytes\<close> as
  \<open>undefined\<close>.
\<close>

definition firstImageBytes :: "GenerateImagesResponse \<Rightarrow> thrown + jsstring" where
  "firstImageBytes response =
     (case generatedImages response of
        None \<Rightarrow> Inl typeError
      | Some [] \<Rightarrow> Inl typeError
      | Some (g # _) \<Rightarrow>
          (case generatedImage_image g of
             None \<Rightarrow> Inl typeError
           | Some img \<Rightarrow>
               (case imageBytes img of
                  None \<Rightarrow> Inr (js ''undefined'')
                | Some bytes \<Rightarrow> Inr bytes)))"

text \<open>
  \<^verbatim>\<open>export const generateSlideImage = async (prompt: string): Promise<string> => {
      try {
          const response = await ai.models.generateImages({ ..., prompt: prompt, ... });
          const base64ImageBytes: string = response.generatedImages[0].image.imageBytes;
          return `data:image/jpeg;base64,${base64ImageBytes}`;
      } catch (e) {
          console.error("Image generation failed, returning null", e);
          return ""; // Return empty string on failure
      }
  };\<close>
\<close>

definition generateSlideImage :: "env \<Rightarrow> jsstring \<Rightarrow> world \<Rightarrow> (thrown + jsstring) \<times> world" where
  "generateSlideImage e prompt w =
     (let (tried, w') =
        (case await (generateImages e) (ImageRequest prompt) w of
           (Inl err, w') \<Rightarrow> (Inl err, w')
         | (Inr response, w') \<Rightarrow>
             (case firstImageBytes response of
                Inl err \<Rightarrow> (Inl err, w')
              | Inr base64ImageBytes \<Rightarrow> (Inr (js ''data:image/jpeg;base64,'' @ base64ImageBytes), w')))
      in case tried of
           Inl err \<Rightarrow>
             (Inr [],
              emit [ConsoleError [Text (js ''Image generation failed, returning null''), Exception err]] w')
         | Inr url \<Rightarrow> (Inr url, w'))"

text \<open>
  \<^verbatim>\<open>export const generateSlideFromChunk = async (chunk, slideNumber, totalSlides, presentationTitle) => {
      const response = await ai.models.generateContent({ ..., responseSchema: slideScaffoldSchema });
      const jsonText = response.text.trim();
      const parsed = JSON.parse(jsonText);
      const imageUrl = await generateSlideImage(parsed.image_prompt);
      const slideScaffold: SlideScaffold = {
          id: crypto.randomUUID(),
          title: parsed.title,
          content: parsed.content || [],
          imageUrl: imageUrl || null,
      };
      return slideScaffold;
  };\<close>
  The empty string is falsy, so \<open>imageUrl || null\<close> is \<open>null\<close> for it.
\<close>

definition orNull :: "jsstring \<Rightarrow> jsstring option" where
  "orNull s = (if s = [] then None else Some s)"

definition generateSlideFromChunk ::
  "env \<Rightarrow> jsstring \<Rightarrow> nat \<Rightarrow> nat \<Rightarrow> jsstring \<Rightarrow> world \<Rightarrow> (thrown + SlideScaffold) \<times> world" where
  "generateSlideFromChunk e chunk slideNumber totalSlides presentationTitle w =
     (case await (generateSlideJson e) (SlideRequest chunk slideNumber totalSlides presentationTitle) w of
        (Inl err, w1) \<Rightarrow> (Inl err, w1)
      | (Inr parsed, w1) \<Rightarrow>
          (case generateSlideImage e (parsed_image_prompt parsed) w1 of
             (Inl err, w2) \<Rightarrow> (Inl err, w2)
           | (Inr url, w2) \<Rightarrow>
               (let (uuid, w3) = crypto_randomUUID e w2
                in (Inr \<lparr> slide_id = uuid,
                          slide_title = parsed_title parsed,
                          content = (case parsed_content parsed of None \<Rightarrow> [] | Some c \<Rightarrow> c),
                          imageUrl = orNull url \<rparr>, w3))))"

section \<open>The presentation flavor: handlePresentationGeneration (App.tsx)\<close>

text \<open>
  The state of the App component that the handler reads and writes; the chat messages and
  the markers of the buttons in progress, which it does not touch, are left out.
\<close>

datatype AppState = INPUT | EDITING

record PresentationApp =
  appState :: AppState
  presentationDocument :: "PresentationDocument option"
  isLoading :: bool
  loadingMessage :: jsstring
  error :: "jsstring option"

text \<open>
  The loop over \<open>chunks.entries()\<close>; an exception of \<open>generateSlideFromChunk\<close> leaves the
  loop:
  \<^verbatim>\<open>for (const [index, chunk] of chunks.entries()) {
      setLoadingMessage(`Generating slide ${index + 1} of ${chunks.length}...`);
      const slide = await generateSlideFromChunk(chunk, index + 1, chunks.length, title);
      generatedSlides.push(slide);
  }\<close>
\<close>

definition entries :: "'a list \<Rightarrow> (nat \<times> 'a) list" where
  "entries xs = zip [0..<length xs] xs"

fun slideLoop ::
  "env \<Rightarrow> jsstring \<Rightarrow> nat \<Rightarrow> (nat \<times> jsstring) list \<Rightarrow> SlideScaffold list \<Rightarrow>
   PresentationApp \<Rightarrow> world \<Rightarrow> (thrown + SlideScaffold list) \<times> PresentationApp \<times> world" where
  "slideLoop e title totalSlides [] generatedSlides st w = (Inr generatedSlides, st, w)"
| "slideLoop e title totalSlides ((index, chunk) # rest) generatedSlides st w =
     (let st1 = st\<lparr>loadingMessage :=
                  js ''Generating slide '' @ decimal (index + 1) @ js '' of '' @ decimal totalSlides @ js ''...''\<rparr>
      in case generateSlideFromChunk e chunk (index + 1) totalSlides title w of
           (Inl err, w1) \<Rightarrow> (Inl err, st1, w1)
         | (Inr slide, w1) \<Rightarrow> slideLoop e title totalSlides rest (generatedSlides @ [slide]) st1 w1)"

text \<open>The body of the \<open>try\<close> block of \<open>handlePresentationGeneration\<close>.\<close>

definition tryPresentationGeneration ::
  "env \<Rightarrow> jsstring \<Rightarrow> PresentationApp \<Rightarrow> world \<Rightarrow> (thrown + unit) \<times> PresentationApp \<times> world" where
  "tryPresentationGeneration e data st w =
     (let chunks = presentationChunks data in
      if length chunks = 0 then (Inl (newError ''No text data to process.''), st, w)
      else
        let st1 = st\<lparr>loadingMessage := js ''Generating presentation title...''\<rparr> in
        case generatePresentationTitle e (chunks ! 0) w of
          (Inl err, w1) \<Rightarrow> (Inl err, st1, w1)
        | (Inr title, w1) \<Rightarrow>
            (let (uuid, w2) = crypto_randomUUID e w1 in
             case slideLoop e title (length chunks) (entries chunks) [] st1 w2 of
               (Inl err, st2, w3) \<Rightarrow> (Inl err, st2, w3)
             | (Inr generatedSlides, st2, w3) \<Rightarrow>
                 (Inr (),
                  st2\<lparr>presentationDocument :=
                        Some \<lparr>presentation_id = uuid, presentation_title = title,
                              slides = generatedSlides\<rparr>,
                      appState := EDITING\<rparr>,
                  w3)))"

text \<open>
  \<^verbatim>\<open>const handlePresentationGeneration = async (data: string) => {
      setIsLoading(true);
      setLoadingMessage('Preparing presentation...');
      setError(null);
      try { ... } catch (err) {
          console.error(err);
          setError('Failed to generate a presentation. Please check your file and try again.');
          setAppState('INPUT');
      } finally {
          setIsLoading(false);
          setLoadingMessage('');
      }
  };\<close>
\<close>

definition handlePresentationGeneration ::
  "env \<Rightarrow> jsstring \<Rightarrow> PresentationApp \<Rightarrow> world \<Rightarrow> PresentationApp \<times> world" where
  "handlePresentationGeneration e data st w =
     (let st0 = st\<lparr>isLoading := True, loadingMessage := js ''Preparing presentation...'',
                   error := None\<rparr>;
          (caught, w2) =
            (case tryPresentationGeneration e data st0 w of
               (Inl err, st1, w1) \<Rightarrow>
                 (st1\<lparr>error := Some (js ''Failed to generate a presentation. Please check your file and try again.''),
                      appState := INPUT\<rparr>,
                  emit [ConsoleError [Exception err]] w1)
             | (Inr u, st1, w1) \<Rightarrow> (st1, w1))
      in (caught\<lparr>isLoading := False, loadingMessage := []\<rparr>, w2))"

section \<open>The services of the story flavor (services/geminiService.ts)\<close>

text \<open>\<open>Array.prototype.join\<close> with a separator.\<close>

fun join :: "jsstring \<Rightarrow> jsstring list \<Rightarrow> jsstring" where
  "join sep [] = []"
| "join sep [x] = x"
| "join sep (x # y # ys) = x @ sep @ join sep (y # ys)"

definition generateStoryTitle :: "env \<Rightarrow> jsstring \<Rightarrow> world \<Rightarrow> (thrown + jsstring) \<times> world" where
  "generateStoryTitle e firstChunk w =
     (case await (generateText e) (StoryTitleRequest (take 1000 firstChunk)) w of
        (Inl err, w') \<Rightarrow> (Inl err, w')
      | (Inr text, w') \<Rightarrow> (Inr (removeQuotes (trim text)), w'))"

text \<open>
  \<^verbatim>\<open>pages: parsed.pages.map((p: any, i: number) => ({
      id: crypto.randomUUID(),
      page_number: i + 1,
      page_text: '',
      ai_suggestions: p.ai_suggestions || ['AI suggestion failed to generate.'],
      images: [],
  }))\<close>
\<close>

fun scaffoldPages ::
  "env \<Rightarrow> jsstring list option list \<Rightarrow> nat \<Rightarrow> world \<Rightarrow> PageScaffold list \<times> world" where
  "scaffoldPages e [] i w = ([], w)"
| "scaffoldPages e (p # ps) i w =
     (let (uuid, w1) = crypto_randomUUID e w;
          page = \<lparr> page_id = uuid, page_number = i + 1, page_text = [],
                   ai_suggestions =
                     (case p of None \<Rightarrow> [js ''AI suggestion failed to generate.''] | Some s \<Rightarrow> s),
                   images = [] \<rparr>;
          (rest, w2) = scaffoldPages e ps (i + 1) w1
      in (page # rest, w2))"

text \<open>
  \<^verbatim>\<open>export const generateChapterFromChunk = async (pageChunks, chapterNumber, totalChapters, storyTitle) => {
      const fullText = pageChunks.join(' ');
      const response = await ai.models.generateContent({ ..., responseSchema: chapterScaffoldSchema });
      const parsed = JSON.parse(response.text.trim());
      return { id: crypto.randomUUID(), title: parsed.title,
               summary: 'AI summary will appear here.', pages: parsed.pages.map(...) };
  };\<close>
\<close>

definition generateChapterFromChunk ::
  "env \<Rightarrow> jsstring list \<Rightarrow> nat \<Rightarrow> nat \<Rightarrow> jsstring \<Rightarrow> world \<Rightarrow> (thrown + ChapterScaffold) \<times> world" where
  "generateChapterFromChunk e pageChunks chapterNumber totalChapters storyTitle w =
     (let fullText = join (js '' '') pageChunks in
      case await (generateChapterJson e) (ChapterRequest fullText chapterNumber totalChapters storyTitle) w of
        (Inl err, w1) \<Rightarrow> (Inl err, w1)
      | (Inr parsed, w1) \<Rightarrow>
          (let (uuid, w2) = crypto_randomUUID e w1;
               (ps, w3) = scaffoldPages e (parsed_pages parsed) 0 w2
           in (Inr \<lparr> chapter_id = uuid, chapter_title = parsed_chapter_title parsed,
                     summary = js ''AI summary will appear here.'', pages = ps \<rparr>, w3)))"

text \<open>
  \<^verbatim>\<open>export const generatePageImage = async (pageText: string, mood: string): Promise<string> => {
      const prompt = `... Style: ${mood}. ... "${pageText.slice(0, 500)}" ...`;
      try {
          const response = await ai.models.generateImages({ ..., prompt: prompt, ... });
          return `data:image/jpeg;base64,${response.generatedImages[0].image.imageBytes}`;
      } catch (e) {
          console.error("Image generation failed", e);
          return ""; // Return empty string on failure
      }
  };\<close>
\<close>

definition generatePageImage ::
  "env \<Rightarrow> jsstring \<Rightarrow> jsstring option \<Rightarrow> world \<Rightarrow> (thrown + jsstring) \<times> world" where
  "generatePageImage e pageText mood w =
     (let prompt = PageImageRequest (take 500 pageText) mood;
          (tried, w') =
            (case await (generateImages e) prompt w of
               (Inl err, w') \<Rightarrow> (Inl err, w')
             | (Inr response, w') \<Rightarrow>
                 (case firstImageBytes response of
                    Inl err \<Rightarrow> (Inl err, w')
                  | Inr bytes \<Rightarrow> (Inr (js ''data:image/jpeg;base64,'' @ bytes), w')))
      in case tried of
           Inl err \<Rightarrow>
             (Inr [], emit [ConsoleError [Text (js ''Image generation failed''), Exception err]] w')
         | Inr url \<Rightarrow> (Inr url, w'))"

section \<open>The story flavor: scaffold and chapter generation (components/ChatPanel.tsx)\<close>

datatype RobotState = idle | thinking | writing

record GenerationStatus =
  active :: bool
  completed :: nat
  totalChapters :: nat

text \<open>
  The state of the story App component (without the mouse position, which only the robot
  reads). \<open>generationController\<close> is the ref
  \<open>generationController.current\<close>: \<open>None\<close> for \<open>null\<close>, otherwise the \<open>aborted\<close> flag of
  the controller's signal.
\<close>

record StoryApp =
  story_appState :: AppState
  storyDocument :: "HeldStoryDocument option"
  story_isLoading :: bool
  story_loadingMessage :: jsstring
  story_error :: "jsstring option"
  generationStatus :: GenerationStatus
  generationController :: "bool option"
  robotState :: RobotState

definition abort :: "bool option \<Rightarrow> bool option" where
  "abort controller = map_option (\<lambda>aborted. True) controller"

text \<open>
  \<^verbatim>\<open>const handleReset = () => {
      if (generationController.current) generationController.current.abort();
      setAppState('INPUT'); setStoryDocument(null); setError(null); setIsLoading(false);
      setGenerationStatus({ active: false, completed: 0, total: 0 });
      setRobotState('idle');
  };
  const handleStopGeneration = () => generationController.current?.abort();\<close>
\<close>

definition handleReset :: "StoryApp \<Rightarrow> StoryApp" where
  "handleReset st =
     st\<lparr> generationController := abort (generationController st),
         story_appState := INPUT,
         storyDocument := None,
         story_error := None,
         story_isLoading := False,
         generationStatus := \<lparr>active = False, completed = 0, totalChapters = 0\<rparr>,
         robotState := idle \<rparr>"

definition handleStopGeneration :: "StoryApp \<Rightarrow> StoryApp" where
  "handleStopGeneration st = st\<lparr>generationController := abort (generationController st)\<rparr>"

text \<open>
  While a backend call is pending the event loop runs the handlers of the buttons the
  user presses; of these, Stop and Start Over touch the cancellation token.
\<close>

datatype userAction = PressStop | PressStartOver

fun perform :: "userAction \<Rightarrow> StoryApp \<Rightarrow> StoryApp" where
  "perform PressStop st = handleStopGeneration st"
| "perform PressStartOver st = handleReset st"

definition performAll :: "userAction list \<Rightarrow> StoryApp \<Rightarrow> StoryApp" where
  "performAll actions st = fold perform actions st"

text \<open>
  JavaScript arrays can have holes: an element of the accumulator of \<open>reduce\<close> is \<open>None\<close>
  where the array has none. Reading past the end yields \<open>undefined\<close>, writing past the end
  extends the array.
  \<^verbatim>\<open>const chapterChunks = chunks.reduce((acc, chunk, i) => {
      const chapterIndex = Math.floor(i / 5); // Group chunks into chapters of ~5 pages
      if (!acc[chapterIndex]) acc[chapterIndex] = [];
      acc[chapterIndex].push(chunk);
      return acc;
  }, [] as string[][]);\<close>
\<close>

definition arrayGet :: "'a option list \<Rightarrow> nat \<Rightarrow> 'a option" where
  "arrayGet xs k = (if k < length xs then xs ! k else None)"

definition arraySet :: "'a option list \<Rightarrow> nat \<Rightarrow> 'a \<Rightarrow> 'a option list" where
  "arraySet xs k v =
     (if k < length xs then xs[k := Some v]
      else xs @ replicate (k - length xs) None @ [Some v])"

definition groupStep :: "'a list option list \<Rightarrow> nat \<times> 'a \<Rightarrow> 'a list option list" where
  "groupStep acc ic =
     (let (i, chunk) = ic;
          chapterIndex = i div 5;
          group = (case arrayGet acc chapterIndex of None \<Rightarrow> [] | Some g \<Rightarrow> g)
      in arraySet acc chapterIndex (group @ [chunk]))"

definition chapterChunksOf :: "'a list \<Rightarrow> 'a list option list" where
  "chapterChunksOf chunks = foldl groupStep [] (entries chunks)"

text \<open>
  \<^verbatim>\<open>doc.chapters = chapterChunks.map((_, i) => ({
      id: crypto.randomUUID(),
      title: `Chapter ${i + 1} (pending...)`,
      summary: 'AI summary will appear here.',
      pages: [],
  }));\<close>
  \<open>map\<close> calls the function for the elements that exist and keeps the holes.
\<close>

fun pendingChapters ::
  "env \<Rightarrow> 'a option list \<Rightarrow> nat \<Rightarrow> world \<Rightarrow> ChapterScaffold option list \<times> world" where
  "pendingChapters e [] i w = ([], w)"
| "pendingChapters e (None # gs) i w =
     (let (rest, w1) = pendingChapters e gs (i + 1) w in (None # rest, w1))"
| "pendingChapters e (Some g # gs) i w =
     (let (uuid, w1) = crypto_randomUUID e w;
          chapter = \<lparr> chapter_id = uuid,
                      chapter_title = js ''Chapter '' @ decimal (i + 1) @ js '' (pending...)'',
                      summary = js ''AI summary will appear here.'',
                      pages = [] \<rparr>;
          (rest, w2) = pendingChapters e gs (i + 1) w1
      in (Some chapter # rest, w2))"

text \<open>
  The updater of the success branch; writing past the end of the copied array extends it
  and leaves holes:
  \<^verbatim>\<open>doc => {
      if (!doc || doc.id !== docId) return doc;
      const newChapters = [...doc.chapters];
      newChapters[i] = chapter;
      return { ...doc, chapters: newChapters };
  }\<close>
\<close>

definition storeChapter ::
  "jsstring \<Rightarrow> nat \<Rightarrow> ChapterScaffold \<Rightarrow> HeldStoryDocument option \<Rightarrow> HeldStoryDocument option" where
  "storeChapter docId i chapter doc =
     (case doc of
        None \<Rightarrow> None
      | Some d \<Rightarrow>
          if story_id d \<noteq> docId then Some d
          else Some (d\<lparr>chapters := arraySet (chapters d) i chapter\<rparr>))"

text \<open>
  The updater of the failure branch, which does not compare the ids; \<open>doc.chapters[i]\<close>
  is \<open>undefined\<close> at a hole and past the end of the array, and writing its \<open>title\<close> throws
  a \<open>TypeError\<close> (the model has one \<open>TypeError\<close> for reading and for writing a property of
  \<open>undefined\<close>):
  \<^verbatim>\<open>doc => {
      if (!doc) return null;
      doc.chapters[i].title = `Chapter ${i+1} (Failed)`;
      return { ...doc };
  }\<close>
\<close>

definition failedTitle :: "nat \<Rightarrow> jsstring" where
  "failedTitle i = js ''Chapter '' @ decimal (i + 1) @ js '' (Failed)''"

definition markFailed :: "nat \<Rightarrow> HeldStoryDocument option \<Rightarrow> thrown + HeldStoryDocument option" where
  "markFailed i doc =
     (case doc of
        None \<Rightarrow> Inr None
      | Some d \<Rightarrow>
          (case arrayGet (chapters d) i of
             None \<Rightarrow> Inl typeError
           | Some c \<Rightarrow>
               Inr (Some (d\<lparr>chapters := arraySet (chapters d) i (c\<lparr>chapter_title := failedTitle i\<rparr>)\<rparr>))))"

text \<open>
  \<open>setStoryDocument(updater)\<close> hands the updater to React, which applies it to the
  current document when it processes the update. An exception of the updater is thrown
  there, inside React, and not in the code that called \<open>setStoryDocument\<close>: the caller goes
  on, the update is lost and the exception is caught by no handler of the application.
\<close>

definition setStoryDocument ::
  "(HeldStoryDocument option \<Rightarrow> thrown + HeldStoryDocument option) \<Rightarrow> StoryApp \<Rightarrow> world \<Rightarrow>
   StoryApp \<times> world" where
  "setStoryDocument updater st w =
     (case updater (storyDocument st) of
        Inr doc \<Rightarrow> (st\<lparr>storyDocument := doc\<rparr>, w)
      | Inl err \<Rightarrow> (st, emit [Uncaught err] w))"

text \<open>
  The loop of \<open>startChapterGeneration\<close>, from iteration \<open>i\<close> on. \<open>pressed i\<close> are the
  buttons the user presses while the call for chapter \<open>i\<close> is pending.
  \<^verbatim>\<open>for (let i = 0; i < chapterChunks.length; i++) {
      if (signal.aborted) {
          console.log('Generation stopped by user.');
          setGenerationStatus(s => ({ ...s, active: false }));
          setRobotState('idle');
          return;
      }
      try {
          const chapter = await gemini.generateChapterFromChunk(chapterChunks[i], i + 1,
              chapterChunks.length, storyDocument?.title || 'Untitled');
          setStoryDocument(doc => ...);
          setGenerationStatus(s => ({ ...s, completed: i + 1 }));
      } catch (err) {
          if (err instanceof Error && err.name === 'AbortError') return;
          console.error(`Failed to generate chapter ${i + 1}`, err);
          // Mark chapter as failed but continue
          setStoryDocument(doc => ...);
      }
  }
  setGenerationStatus({ active: false, completed: chapterChunks.length, total: chapterChunks.length });
  setRobotState('idle');\<close>
\<close>

definition signalAborted :: "StoryApp \<Rightarrow> bool" where
  "signalAborted st \<longleftrightarrow> generationController st = Some True"

function chapterLoop ::
  "env \<Rightarrow> (nat \<Rightarrow> userAction list) \<Rightarrow> jsstring \<Rightarrow> jsstring list list \<Rightarrow> jsstring \<Rightarrow> nat \<Rightarrow>
   StoryApp \<Rightarrow> world \<Rightarrow> StoryApp \<times> world" where
  "chapterLoop e pressed docId chapterChunks title i st w =
     (if i < length chapterChunks then
        if signalAborted st then
          (st\<lparr>generationStatus := (generationStatus st)\<lparr>active := False\<rparr>, robotState := idle\<rparr>,
           emit [ConsoleLog (js ''Generation stopped by user.'')] w)
        else
          (case generateChapterFromChunk e (chapterChunks ! i) (i + 1) (length chapterChunks) title w of
             (Inr chapter, w1) \<Rightarrow>
               (let st1 = performAll (pressed i) st;
                    (st2, w2) = setStoryDocument (\<lambda>doc. Inr (storeChapter docId i chapter doc)) st1 w1
                in chapterLoop e pressed docId chapterChunks title (i + 1)
                     (st2\<lparr>generationStatus := (generationStatus st2)\<lparr>completed := i + 1\<rparr>\<rparr>) w2)
           | (Inl err, w1) \<Rightarrow>
               (let st1 = performAll (pressed i) st in
                if isAbortError err then (st1, w1)
                else
                  (let (st2, w2) =
                         setStoryDocument (markFailed i) st1
                           (emit [ConsoleError [Text (js ''Failed to generate chapter '' @ decimal (i + 1)),
                                                Exception err]] w1)
                   in chapterLoop e pressed docId chapterChunks title (i + 1) st2 w2)))
      else
        (st\<lparr>generationStatus :=
              \<lparr>active = False, completed = length chapterChunks,
               totalChapters = length chapterChunks\<rparr>,
            robotState := idle\<rparr>, w))"
  by pat_completeness auto
termination
  by (relation "measure (\<lambda>(e, pressed, docId, chapterChunks, title, i, st, w). length chapterChunks - i)")
     auto

declare chapterLoop.simps [simp del]

text \<open>
  \<^verbatim>\<open>const startChapterGeneration = async (docId: string, chapterChunks: string[][]) => {
      generationController.current = new AbortController();
      const { signal } = generationController.current;
      setRobotState('writing');
      for (...) { ... }
      ...
  };\<close>
  \<open>closure\<close> is the \<open>storyDocument\<close> of the render that created the handler, from which
  the loop takes the title \<open>storyDocument?.title || 'Untitled'\<close>.
\<close>

definition closureTitle :: "HeldStoryDocument option \<Rightarrow> jsstring" where
  "closureTitle closure =
     (case closure of
        None \<Rightarrow> js ''Untitled''
      | Some d \<Rightarrow> if story_title d = [] then js ''Untitled'' else story_title d)"

definition startChapterGeneration ::
  "env \<Rightarrow> (nat \<Rightarrow> userAction list) \<Rightarrow> HeldStoryDocument option \<Rightarrow> jsstring \<Rightarrow> jsstring list list \<Rightarrow>
   StoryApp \<Rightarrow> world \<Rightarrow> StoryApp \<times> world" where
  "startChapterGeneration e pressed closure docId chapterChunks st w =
     chapterLoop e pressed docId chapterChunks (closureTitle closure) 0
       (st\<lparr>generationController := Some False, robotState := writing\<rparr>) w"

section \<open>The PDF exporter: createPdf (services/pdfService.ts)\<close>

text \<open>
  What the exporter asks of jsPDF and of the browser: the height and width of the page
  (\<open>pdf.internal.pageSize\<close>), \<open>pdf.splitTextToSize\<close>, whose result depends on the font
  that is set when it is called, and the map of the images that could be preloaded.
  All coordinates are sums of integers, which a JavaScript number holds exactly.
\<close>

datatype fontStyle = normal | bold

record jsPDF =
  getWidth :: real
  getHeight :: real
  splitTextToSize :: "nat \<times> fontStyle \<Rightarrow> jsstring \<Rightarrow> real \<Rightarrow> jsstring list"

definition margin :: real where
  "margin = 50"

definition contentWidth :: "jsPDF \<Rightarrow> real" where
  "contentWidth pdf = getWidth pdf - (margin * 2)"

text \<open>
  \<open>page.images[0] && imageMap.get(page.images[0])\<close>: an empty array has no first
  element, and an empty string is falsy.
\<close>

definition hasImage :: "(jsstring \<Rightarrow> jsstring option) \<Rightarrow> PageScaffold \<Rightarrow> bool" where
  "hasImage imageMap page =
     (case images page of
        [] \<Rightarrow> False
      | url # _ \<Rightarrow> url \<noteq> [] \<and> (case imageMap url of None \<Rightarrow> False | Some data \<Rightarrow> data \<noteq> []))"

text \<open>
  The dry run. It runs right after the heading of the table of contents is drawn, with
  the font still set to 24 pt bold.
  \<^verbatim>\<open>let pageCounter = 3; // Cover=1, TOC=2
  for (const chapter of doc.chapters) {
      tocEntries.push({ title: chapter.title, page: pageCounter });
      yPos = margin; // Reset for each chapter's page calculation
      yPos += 30; // Space for title
      for (const page of chapter.pages) {
          if (page.images[0] && imageMap.get(page.images[0])) yPos += 160; // Approximate image height
          const textLines = pdf.splitTextToSize(page.page_text, contentWidth);
          yPos += textLines.length * 14;
          if (yPos > pageH - margin) {
              pageCounter++;
              yPos = margin;
          }
      }
      pageCounter++; // New chapter always starts on a new page
  }\<close>
\<close>

fun dryRunPages ::
  "jsPDF \<Rightarrow> (jsstring \<Rightarrow> jsstring option) \<Rightarrow> PageScaffold list \<Rightarrow> nat \<Rightarrow> real \<Rightarrow> nat \<times> real" where
  "dryRunPages pdf imageMap [] pageCounter yPos = (pageCounter, yPos)"
| "dryRunPages pdf imageMap (page # rest) pageCounter yPos =
     (let y1 = (if hasImage imageMap page then yPos + 160 else yPos);
          textLines = splitTextToSize pdf (24, bold) (page_text page) (contentWidth pdf);
          y2 = y1 + real (length textLines) * 14
      in if y2 > getHeight pdf - margin
         then dryRunPages pdf imageMap rest (pageCounter + 1) margin
         else dryRunPages pdf imageMap rest pageCounter y2)"

fun dryRun ::
  "jsPDF \<Rightarrow> (jsstring \<Rightarrow> jsstring option) \<Rightarrow> ChapterScaffold list \<Rightarrow> nat \<Rightarrow> (jsstring \<times> nat) list" where
  "dryRun pdf imageMap [] pageCounter = []"
| "dryRun pdf imageMap (chapter # rest) pageCounter =
     (chapter_title chapter, pageCounter) #
       (let (pageCounter1, yPos) = dryRunPages pdf imageMap (pages chapter) pageCounter (margin + 30)
        in dryRun pdf imageMap rest (pageCounter1 + 1))"

definition tocEntries ::
  "jsPDF \<Rightarrow> (jsstring \<Rightarrow> jsstring option) \<Rightarrow> StoryDocument \<Rightarrow> (jsstring \<times> nat) list" where
  "tocEntries pdf imageMap doc = dryRun pdf imageMap (chapters doc) 3"

text \<open>
  The drawing pass. \<open>numberOfPages\<close> counts the pages of the PDF (the cover and the table
  of contents are pages 1 and 2); \<open>pdf.addPage()\<close> appends a page, on which everything
  is drawn until the next one is appended.
  \<^verbatim>\<open>textLines.forEach((line: string) => {
       if (yPos > pageH - margin) {
          pdf.addPage();
          yPos = margin;
       }
      pdf.text(line, margin, yPos);
      yPos += 14; // Line height
  });\<close>
\<close>

fun drawLines :: "jsPDF \<Rightarrow> jsstring list \<Rightarrow> nat \<Rightarrow> real \<Rightarrow> nat \<times> real" where
  "drawLines pdf [] numberOfPages yPos = (numberOfPages, yPos)"
| "drawLines pdf (line # rest) numberOfPages yPos =
     (if yPos > getHeight pdf - margin
      then drawLines pdf rest (numberOfPages + 1) (margin + 14)
      else drawLines pdf rest numberOfPages (yPos + 14))"

text \<open>
  \<^verbatim>\<open>for (const page of chapter.pages) {
      pdf.setFontSize(12);
      pdf.setFont('helvetica', 'normal');
      const base64Image = page.images[0] ? imageMap.get(page.images[0]) : null;
      if (base64Image) {
           const imgH = 150;
           if (yPos + imgH > pageH - margin) {
              pdf.addPage();
              yPos = margin;
           }
          pdf.addImage(base64Image, 'JPEG', margin, yPos, contentWidth, imgH);
          yPos += imgH + 15;
      }
      const textLines = pdf.splitTextToSize(page.page_text, contentWidth);
      textLines.forEach(...);
      yPos += 28; // Paragraph spacing
  }\<close>
\<close>

fun drawPages ::
  "jsPDF \<Rightarrow> (jsstring \<Rightarrow> jsstring option) \<Rightarrow> PageScaffold list \<Rightarrow> nat \<Rightarrow> real \<Rightarrow> nat \<times> real" where
  "drawPages pdf imageMap [] numberOfPages yPos = (numberOfPages, yPos)"
| "drawPages pdf imageMap (page # rest) numberOfPages yPos =
     (let (n1, y1) =
            (if hasImage imageMap page
             then if yPos + 150 > getHeight pdf - margin
                  then (numberOfPages + 1, margin + (150 + 15))
                  else (numberOfPages, yPos + (150 + 15))
             else (numberOfPages, yPos));
          textLines = splitTextToSize pdf (12, normal) (page_text page) (contentWidth pdf);
          (n2, y2) = drawLines pdf textLines n1 y1
      in drawPages pdf imageMap rest n2 (y2 + 28))"

text \<open>
  The chapters; the result lists, for each chapter, the number of the page on which its
  title is drawn.
  \<^verbatim>\<open>for (const chapter of doc.chapters) {
      pdf.addPage();
      yPos = margin;
      pdf.setFontSize(20);
      pdf.setFont('helvetica', 'bold');
      const chapterTitleLines = pdf.splitTextToSize(chapter.title, contentWidth);
      pdf.text(chapterTitleLines, pageW / 2, yPos, { align: 'center' });
      yPos += (chapterTitleLines.length * 20) + 20;
      for (const page of chapter.pages) { ... }
  }\<close>
\<close>

fun drawChapters ::
  "jsPDF \<Rightarrow> (jsstring \<Rightarrow> jsstring option) \<Rightarrow> ChapterScaffold list \<Rightarrow> nat \<Rightarrow> (jsstring \<times> nat) list" where
  "drawChapters pdf imageMap [] numberOfPages = []"
| "drawChapters pdf imageMap (chapter # rest) numberOfPages =
     (let titlePage = numberOfPages + 1;
          chapterTitleLines = splitTextToSize pdf (20, bold) (chapter_title chapter) (contentWidth pdf);
          yPos = margin + (real (length chapterTitleLines) * 20 + 20);
          (n1, y1) = drawPages pdf imageMap (pages chapter) titlePage yPos
      in (chapter_title chapter, titlePage) # drawChapters pdf imageMap rest n1)"

definition drawnTitles ::
  "jsPDF \<Rightarrow> (jsstring \<Rightarrow> jsstring option) \<Rightarrow> StoryDocument \<Rightarrow> (jsstring \<times> nat) list" where
  "drawnTitles pdf imageMap doc = drawChapters pdf imageMap (chapters doc) 2"

text \<open>
  An A4 page in points, as jsPDF has it, and \<open>splitTextToSize\<close> for texts whose
  paragraphs all fit the width in every font: one line for each paragraph, the paragraphs
  being separated by line feeds.
\<close>

fun splitParagraphs :: "jsstring \<Rightarrow> jsstring \<Rightarrow> jsstring list" where
  "splitParagraphs [] line = [line]"
| "splitParagraphs (c # cs) line =
     (if c = 0x0A then line # splitParagraphs cs [] else splitParagraphs cs (line @ [c]))"

definition a4 :: jsPDF where
  "a4 = \<lparr> getWidth = 595.28, getHeight = 841.89,
          splitTextToSize = (\<lambda>font text width. splitParagraphs text []) \<rparr>"

section \<open>Observations on a run\<close>

text \<open>
  The requests of the backend calls that a trace starts, in their order; among them the
  batch items (one slide or one chapter each).
\<close>

fun startedRequests :: "event list \<Rightarrow> request list" where
  "startedRequests [] = []"
| "startedRequests (Started r # es) = r # startedRequests es"
| "startedRequests (ev # es) = startedRequests es"

fun isItemRequest :: "request \<Rightarrow> bool" where
  "isItemRequest (SlideRequest chunk slideNumber n title) = True"
| "isItemRequest (ChapterRequest fullText chapterNumber n title) = True"
| "isItemRequest r = False"

definition itemRequests :: "event list \<Rightarrow> request list" where
  "itemRequests es = filter isItemRequest (startedRequests es)"

text \<open>
  A trace in which the calls are made one at a time: every call that starts settles
  before anything else happens.
\<close>

fun oneAtATime :: "event list \<Rightarrow> bool" where
  "oneAtATime [] = True"
| "oneAtATime (Started r # Settled r' fulfilled # es) = (r = r' \<and> oneAtATime es)"
| "oneAtATime (Started r # es) = False"
| "oneAtATime (Settled r fulfilled # es) = False"
| "oneAtATime (ev # es) = oneAtATime es"

text \<open>The request that the chapter loop sends for the chapter with index \<open>i\<close>.\<close>

definition chapterRequest :: "jsstring list list \<Rightarrow> jsstring \<Rightarrow> nat \<Rightarrow> request" where
  "chapterRequest chapterChunks title i =
     ChapterRequest (join (js '' '') (chapterChunks ! i)) (i + 1) (length chapterChunks) title"

text \<open>
  One of the calls awaited by \<open>handlePresentationGeneration\<close> throws: there is text to
  process, and either the title call throws or, with the title it returns, the text call
  for one of the slides does. (\<open>generateSlideFromChunk\<close> throws exactly when its text call
  does; the image call is made inside \<open>generateSlideImage\<close>, which catches what it throws.)
\<close>

definition aTextCallThrows :: "env \<Rightarrow> jsstring \<Rightarrow> bool" where
  "aTextCallThrows e data \<longleftrightarrow>
     (let chunks = presentationChunks data in
      chunks \<noteq> [] \<and>
      (case generateText e (TitleRequest (take 2000 (chunks ! 0))) of
         Inl err \<Rightarrow> True
       | Inr answer \<Rightarrow>
           (\<exists>i < length chunks.
              isl (generateSlideJson e
                     (SlideRequest (chunks ! i) (i + 1) (length chunks) (removeQuotes (trim answer)))))))"

section \<open>Example inputs\<close>

text \<open>
  An environment in which the backend answers every request, except that the text call
  fails for the slides and chapters whose numbers are listed, and that the image API fails
  altogether when \<open>imagesFail\<close> is set.
\<close>

definition scriptedEnv :: "nat list \<Rightarrow> nat list \<Rightarrow> bool \<Rightarrow> env" where
  "scriptedEnv failingSlides failingChapters imagesFail =
     \<lparr> generateText = (\<lambda>r. Inr (js ''Report'')),
       generateSlideJson =
         (\<lambda>r. case r of
                 SlideRequest chunk k n t \<Rightarrow>
                   if k \<in> set failingSlides then Inl (newError ''503 Service Unavailable'')
                   else Inr \<lparr> parsed_title = js ''Slide '' @ decimal k, parsed_content = None,
                              parsed_image_prompt = js ''chart'' \<rparr>
               | _ \<Rightarrow> Inl typeError),
       generateChapterJson =
         (\<lambda>r. case r of
                 ChapterRequest text k n t \<Rightarrow>
                   if k \<in> set failingChapters then Inl (newError ''503 Service Unavailable'')
                   else Inr \<lparr> parsed_chapter_title = js ''Part '' @ decimal k,
                              parsed_pages = [Some [js ''idea'']] \<rparr>
               | _ \<Rightarrow> Inl typeError),
       generateImages =
         (\<lambda>r. if imagesFail then Inl (newError ''quota exceeded'')
              else Inr (GenerateImagesResponse (Some [GeneratedImage (Some (Image (Some (js ''QUJD''))))]))),
       randomUUID = (\<lambda>k. js ''id-'' @ decimal k) \<rparr>"

definition emptyWorld :: world where
  "emptyWorld = \<lparr> uuids = 0, trace = [] \<rparr>"

definition initialPresentationApp :: PresentationApp where
  "initialPresentationApp =
     \<lparr> appState = INPUT, presentationDocument = None, isLoading = False, loadingMessage = [],
       error = None \<rparr>"

text \<open>
  The state of the story flavor when the chapter loop starts on two chapter groups:
  the document holds two pending chapters, the status is active, the token is fresh.
\<close>

definition twoChapterChunks :: "jsstring list list" where
  "twoChapterChunks = [[js ''a''], [js ''b'']]"

definition pendingStory :: StoryDocument where
  "pendingStory =
     \<lparr> story_id = js ''doc'', story_title = js ''Report'',
       chapters =
         [ \<lparr> chapter_id = js ''c1'', chapter_title = js ''Chapter 1 (pending...)'',
             summary = js ''AI summary will appear here.'', pages = [] \<rparr>,
           \<lparr> chapter_id = js ''c2'', chapter_title = js ''Chapter 2 (pending...)'',
             summary = js ''AI summary will appear here.'', pages = [] \<rparr> ] \<rparr>"

definition generatingStoryApp :: StoryApp where
  "generatingStoryApp =
     \<lparr> story_appState = EDITING, storyDocument = Some (held pendingStory), story_isLoading = False,
       story_loadingMessage = [], story_error = None,
       generationStatus = \<lparr>active = True, completed = 0, totalChapters = 2\<rparr>,
       generationController = Some False, robotState = writing \<rparr>"


definition startOverDuringFirstCall :: "nat \<Rightarrow> userAction list" where
  "startOverDuringFirstCall i = (if i = 0 then [PressStartOver] else [])"


text \<open>
  A backend whose image API fulfils every call with an answer that holds no image.
\<close>

definition noImageEnv :: env where
  "noImageEnv =
     (scriptedEnv [] [] False)\<lparr>generateImages := (\<lambda>r. Inr (GenerateImagesResponse (Some [])))\<rparr>"


text \<open>
  A story of two chapters, the first with eighteen pages of one short line each, exported
  on A4 with no image preloaded.
\<close>

definition shortPage :: PageScaffold where
  "shortPage =
     \<lparr> page_id = js ''p'', page_number = 1, page_text = js ''a'', ai_suggestions = [], images = [] \<rparr>"

definition eighteenPages :: StoryDocument where
  "eighteenPages =
     \<lparr> story_id = js ''d'', story_title = js ''T'',
       chapters =
         [ \<lparr> chapter_id = js ''c1'', chapter_title = js ''One'', summary = [],
             pages = replicate 18 shortPage \<rparr>,
           \<lparr> chapter_id = js ''c2'', chapter_title = js ''Two'', summary = [], pages = [] \<rparr> ] \<rparr>"

section \<open>Properties of the chunking loops\<close>

lemma substring_take_drop:
  "substring s i (i + c) = take c (drop i s)"
proof (cases "i \<le> length s")
  case True
  then show ?thesis
    by (cases "i + c \<le> length s") (simp_all add: substring_def Let_def min_def max_def)
next
  case False
  then show ?thesis
    by (simp add: substring_def Let_def min_def max_def)
qed

text \<open>The slices of width \<open>c\<close> numbered \<open>k\<close> up to \<open>m - 1\<close>.\<close>

definition slices :: "nat \<Rightarrow> 'a list \<Rightarrow> nat \<Rightarrow> nat \<Rightarrow> 'a list list" where
  "slices c s k m = map (\<lambda>j. take c (drop (j * c) s)) [k..<m]"

lemma slices_step:
  "k < m \<Longrightarrow> slices c s k m = take c (drop (k * c) s) # slices c s (Suc k) m"
  by (simp add: slices_def upt_conv_Cons)

lemma slices_empty:
  "m \<le> k \<Longrightarrow> slices c s k m = []"
  by (simp add: slices_def)

lemma less_ceil_div_iff:
  fixes k n c :: nat
  assumes "0 < c"
  shows "k < (n + (c - 1)) div c \<longleftrightarrow> k * c < n"
proof -
  have "k < (n + (c - 1)) div c \<longleftrightarrow> Suc k \<le> (n + (c - 1)) div c"
    by (simp add: Suc_le_eq)
  also have "\<dots> \<longleftrightarrow> Suc k * c \<le> n + (c - 1)"
    using assms by (rule less_eq_div_iff_mult_less_eq)
  also have "\<dots> \<longleftrightarrow> k * c < n"
    using assms by (cases c) (simp_all add: Suc_le_eq)
  finally show ?thesis .
qed

lemma presentationChunkLoop_slices:
  "presentationChunkLoop data (k * CHUNK_SIZE) chunks =
     chunks @ slices CHUNK_SIZE data k ((length data + (CHUNK_SIZE - 1)) div CHUNK_SIZE)"
proof (induction "length data - k * CHUNK_SIZE" arbitrary: k chunks rule: less_induct)
  case less
  let ?m = "(length data + (CHUNK_SIZE - 1)) div CHUNK_SIZE"
  let ?chunk = "substring data (k * CHUNK_SIZE) (k * CHUNK_SIZE + CHUNK_SIZE)"
  have pos: "0 < CHUNK_SIZE" by (simp add: CHUNK_SIZE_def)
  show ?case
  proof (cases "k * CHUNK_SIZE < length data")
    case True
    then have km: "k < ?m"
      using less_ceil_div_iff [OF pos, of k "length data"] by blast
    have next_index: "k * CHUNK_SIZE + CHUNK_SIZE = Suc k * CHUNK_SIZE"
      by simp
    have "length data - Suc k * CHUNK_SIZE < length data - k * CHUNK_SIZE"
      using True pos by simp
    then have ih: "presentationChunkLoop data (Suc k * CHUNK_SIZE) (chunks @ [?chunk])
          = (chunks @ [?chunk]) @ slices CHUNK_SIZE data (Suc k) ?m"
      by (rule less)
    have "presentationChunkLoop data (k * CHUNK_SIZE) chunks
          = presentationChunkLoop data (k * CHUNK_SIZE + CHUNK_SIZE) (chunks @ [?chunk])"
      using True by (subst presentationChunkLoop.simps) simp
    also have "\<dots> = (chunks @ [?chunk]) @ slices CHUNK_SIZE data (Suc k) ?m"
      using ih by (simp only: next_index)
    also have "\<dots> = chunks @ slices CHUNK_SIZE data k ?m"
      using km by (simp add: slices_step substring_take_drop)
    finally show ?thesis .
  next
    case False
    then have "?m \<le> k"
      using less_ceil_div_iff [OF pos, of k "length data"] by (metis leI)
    then have "slices CHUNK_SIZE data k ?m = []"
      by (rule slices_empty)
    moreover have "presentationChunkLoop data (k * CHUNK_SIZE) chunks = chunks"
      using False by (subst presentationChunkLoop.simps) simp
    ultimately show ?thesis by simp
  qed
qed

lemma storyChunkLoop_slices:
  "storyChunkLoop data (k * PAGE_CHUNK_SIZE) chunks =
     chunks @ slices PAGE_CHUNK_SIZE data k ((length data + (PAGE_CHUNK_SIZE - 1)) div PAGE_CHUNK_SIZE)"
proof (induction "length data - k * PAGE_CHUNK_SIZE" arbitrary: k chunks rule: less_induct)
  case less
  let ?m = "(length data + (PAGE_CHUNK_SIZE - 1)) div PAGE_CHUNK_SIZE"
  let ?chunk = "substring data (k * PAGE_CHUNK_SIZE) (k * PAGE_CHUNK_SIZE + PAGE_CHUNK_SIZE)"
  have pos: "0 < PAGE_CHUNK_SIZE" by (simp add: PAGE_CHUNK_SIZE_def)
  show ?case
  proof (cases "k * PAGE_CHUNK_SIZE < length data")
    case True
    then have km: "k < ?m"
      using less_ceil_div_iff [OF pos, of k "length data"] by blast
    have next_index: "k * PAGE_CHUNK_SIZE + PAGE_CHUNK_SIZE = Suc k * PAGE_CHUNK_SIZE"
      by simp
    have "length data - Suc k * PAGE_CHUNK_SIZE < length data - k * PAGE_CHUNK_SIZE"
      using True pos by simp
    then have ih: "storyChunkLoop data (Suc k * PAGE_CHUNK_SIZE) (chunks @ [?chunk])
          = (chunks @ [?chunk]) @ slices PAGE_CHUNK_SIZE data (Suc k) ?m"
      by (rule less)
    have "storyChunkLoop data (k * PAGE_CHUNK_SIZE) chunks
          = storyChunkLoop data (k * PAGE_CHUNK_SIZE + PAGE_CHUNK_SIZE) (chunks @ [?chunk])"
      using True by (subst storyChunkLoop.simps) simp
    also have "\<dots> = (chunks @ [?chunk]) @ slices PAGE_CHUNK_SIZE data (Suc k) ?m"
      using ih by (simp only: next_index)
    also have "\<dots> = chunks @ slices PAGE_CHUNK_SIZE data k ?m"
      using km by (simp add: slices_step substring_take_drop)
    finally show ?thesis .
  next
    case False
    then have "?m \<le> k"
      using less_ceil_div_iff [OF pos, of k "length data"] by (metis leI)
    then have "slices PAGE_CHUNK_SIZE data k ?m = []"
      by (rule slices_empty)
    moreover have "storyChunkLoop data (k * PAGE_CHUNK_SIZE) chunks = chunks"
      using False by (subst storyChunkLoop.simps) simp
    ultimately show ?thesis by simp
  qed
qed

lemma presentationChunks_slices:
  "presentationChunks data =
     slices CHUNK_SIZE data 0 ((length data + (CHUNK_SIZE - 1)) div CHUNK_SIZE)"
  using presentationChunkLoop_slices [of data 0 "[]"]
  by (simp only: presentationChunks_def mult_0 append_Nil)

lemma storyChunks_slices:
  "storyChunks data =
     slices PAGE_CHUNK_SIZE data 0 ((length data + (PAGE_CHUNK_SIZE - 1)) div PAGE_CHUNK_SIZE)"
  using storyChunkLoop_slices [of data 0 "[]"]
  by (simp only: storyChunks_def mult_0 append_Nil)

lemma length_slices:
  "length (slices c s 0 m) = m"
  by (simp add: slices_def)

lemma nth_slices:
  "k < m \<Longrightarrow> slices c s 0 m ! k = take c (drop (k * c) s)"
  by (simp add: slices_def)

lemma ceiling_div_nat:
  assumes "0 < c"
  shows "int ((n + (c - 1)) div c) = \<lceil>real n / real c\<rceil>"
proof -
  let ?q = "(n + (c - 1)) div c"
  have up: "n \<le> ?q * c"
  proof -
    have "(n + (c - 1)) mod c \<le> c - 1"
      using assms by (simp add: less_Suc_eq_le [symmetric])
    moreover have "?q * c + (n + (c - 1)) mod c = n + (c - 1)"
      by simp
    ultimately show ?thesis by linarith
  qed
  have low: "?q * c < n + c"
  proof -
    have "?q * c \<le> n + (c - 1)"
      by simp
    with assms show ?thesis by linarith
  qed
  have cpos: "0 < real c" using assms by simp
  have "real n \<le> real (?q * c)" using up by (simp only: of_nat_le_iff)
  then have "real n \<le> real ?q * real c" by simp
  then have a: "real n / real c \<le> real ?q"
    using cpos by (simp add: pos_divide_le_eq)
  have "real (?q * c) < real (n + c)" using low by (simp only: of_nat_less_iff)
  then have "real ?q * real c < real n + real c" by simp
  then have "(real ?q - 1) * real c < real n" by (simp add: algebra_simps)
  then have b: "real ?q - 1 < real n / real c" using cpos by (simp add: pos_less_divide_eq)
  have "\<lceil>real n / real c\<rceil> = int ?q"
    by (rule ceiling_unique) (use a b in simp_all)
  then show ?thesis by simp
qed

text \<open>What the slices look like, for any positive width.\<close>

lemma slices_shape:
  fixes s :: "'a list"
  assumes "0 < c"
  defines "m \<equiv> (length s + (c - 1)) div c"
  shows "int (length (slices c s 0 m)) = \<lceil>real (length s) / real c\<rceil>"
    and "Suc k < length (slices c s 0 m) \<Longrightarrow> length (slices c s 0 m ! k) = c"
    and "k < length (slices c s 0 m) \<Longrightarrow>
           0 < length (slices c s 0 m ! k) \<and> length (slices c s 0 m ! k) \<le> c"
proof -
  have len: "length (slices c s 0 m) = m"
    by (rule length_slices)
  show "int (length (slices c s 0 m)) = \<lceil>real (length s) / real c\<rceil>"
    unfolding len unfolding m_def using assms(1) by (rule ceiling_div_nat)
  have lt: "j < m \<longleftrightarrow> j * c < length s" for j
    unfolding m_def using assms(1) by (rule less_ceil_div_iff)
  {
    assume a: "Suc k < length (slices c s 0 m)"
    then have "Suc k * c < length s"
      using lt [of "Suc k"] len by simp
    then have "c \<le> length s - k * c" by simp
    with a len show "length (slices c s 0 m ! k) = c"
      by (simp add: nth_slices)
  }
  {
    assume a: "k < length (slices c s 0 m)"
    then have "k * c < length s"
      using lt [of k] len by simp
    with a len assms(1) show "0 < length (slices c s 0 m ! k) \<and> length (slices c s 0 m ! k) \<le> c"
      by (simp add: nth_slices)
  }
qed

text \<open>
  C1. For an input of N code units the chunking loop of the presentation flavor produces
  exactly ceil(N / 3000) chunks and that of the story flavor exactly ceil(N / 3200); every
  chunk but the last has exactly the chunk size as its length, and the last one is not
  empty and not longer than the chunk size.
\<close>

theorem chunk_count_and_lengths:
  "int (length (presentationChunks data)) = \<lceil>real (length data) / 3000\<rceil> \<and>
   int (length (storyChunks data)) = \<lceil>real (length data) / 3200\<rceil> \<and>
   (\<forall>k. Suc k < length (presentationChunks data) \<longrightarrow>
        length (presentationChunks data ! k) = 3000) \<and>
   (\<forall>k. Suc k < length (storyChunks data) \<longrightarrow>
        length (storyChunks data ! k) = 3200) \<and>
   (\<forall>k < length (presentationChunks data).
      0 < length (presentationChunks data ! k) \<and> length (presentationChunks data ! k) \<le> 3000) \<and>
   (\<forall>k < length (storyChunks data).
      0 < length (storyChunks data ! k) \<and> length (storyChunks data ! k) \<le> 3200)"
proof -
  have p: "0 < CHUNK_SIZE" and s: "0 < PAGE_CHUNK_SIZE"
    by (simp_all add: CHUNK_SIZE_def PAGE_CHUNK_SIZE_def)
  have cp: "real CHUNK_SIZE = 3000" and cs: "real PAGE_CHUNK_SIZE = 3200"
    by (simp_all add: CHUNK_SIZE_def PAGE_CHUNK_SIZE_def)
  have np: "CHUNK_SIZE = 3000" and ns: "PAGE_CHUNK_SIZE = 3200"
    by (simp_all add: CHUNK_SIZE_def PAGE_CHUNK_SIZE_def)
  have 1: "int (length (presentationChunks data)) = \<lceil>real (length data) / 3000\<rceil>"
    using slices_shape(1) [OF p, of data] by (simp only: presentationChunks_slices cp)
  have 2: "int (length (storyChunks data)) = \<lceil>real (length data) / 3200\<rceil>"
    using slices_shape(1) [OF s, of data] by (simp only: storyChunks_slices cs)
  have 3: "length (presentationChunks data ! k) = 3000"
    if "Suc k < length (presentationChunks data)" for k
    using slices_shape(2) [OF p, of k data] that
    unfolding presentationChunks_slices np [symmetric] by blast
  have 4: "length (storyChunks data ! k) = 3200"
    if "Suc k < length (storyChunks data)" for k
    using slices_shape(2) [OF s, of k data] that
    unfolding storyChunks_slices ns [symmetric] by blast
  have 5: "0 < length (presentationChunks data ! k) \<and> length (presentationChunks data ! k) \<le> 3000"
    if "k < length (presentationChunks data)" for k
    using slices_shape(3) [OF p, of k data] that
    unfolding presentationChunks_slices np [symmetric] by blast
  have 6: "0 < length (storyChunks data ! k) \<and> length (storyChunks data ! k) \<le> 3200"
    if "k < length (storyChunks data)" for k
    using slices_shape(3) [OF s, of k data] that
    unfolding storyChunks_slices ns [symmetric] by blast
  from 1 2 3 4 5 6 show ?thesis by blast
qed

theorem chunk_count_and_lengths_witness:
  "length (presentationChunks (replicate 7000 0x61)) = 3 \<and>
   length (storyChunks (replicate 7000 0x61)) = 3 \<and>
   length (presentationChunks (replicate 7000 0x61) ! 0) = 3000 \<and>
   length (storyChunks (replicate 7000 0x61) ! 1) = 3200 \<and>
   0 < length (presentationChunks (replicate 7000 0x61) ! 2) \<and>
   0 < length (storyChunks (replicate 7000 0x61) ! 2)"
proof -
  let ?d = "replicate 7000 (0x61 :: code_unit)"
  note t = chunk_count_and_lengths [of ?d]
  have c1: "\<lceil>(7000::real) / 3000\<rceil> = 3" and c2: "\<lceil>(7000::real) / 3200\<rceil> = 3"
    by (simp_all add: ceiling_eq_iff)
  have lp: "length (presentationChunks ?d) = 3"
    using t c1 by simp
  have ls: "length (storyChunks ?d) = 3"
    using t c2 by simp
  from t lp ls show ?thesis by simp
qed

section \<open>Properties of the editing handlers\<close>

text \<open>
  C6. \<open>onUpdateSlide\<close> keeps the id and the title of the document and the number of
  slides, leaves every slide with another id as it is and in its place, replaces a slide
  with the given id by its spread with the updates, and returns an equal document when no
  slide has the given id. \<open>onUpdatePage\<close> likewise keeps the id and the title of the
  document, the number of chapters, every chapter's id, title, summary and number of pages,
  every chapter with another id, and every page that is not a page with the given page id
  inside a chapter with the given chapter id; it returns an equal document when no chapter
  has the chapter id or no page has the page id. Both return \<open>null\<close> for \<open>null\<close>.
\<close>

theorem update_handlers_frame:
  "onUpdateSlide slideId su None = None \<and>
   onUpdatePage chapterId pageId pu None = None \<and>
   (\<exists>d'. onUpdateSlide slideId su (Some d) = Some d' \<and>
      presentation_id d' = presentation_id d \<and>
      presentation_title d' = presentation_title d \<and>
      length (slides d') = length (slides d) \<and>
      (\<forall>k < length (slides d).
         slides d' ! k =
           (if slide_id (slides d ! k) = slideId then spreadSlide (slides d ! k) su
            else slides d ! k)) \<and>
      ((\<forall>s \<in> set (slides d). slide_id s \<noteq> slideId) \<longrightarrow> d' = d)) \<and>
   (\<exists>e'. onUpdatePage chapterId pageId pu (Some e) = Some e' \<and>
      story_id e' = story_id e \<and>
      story_title e' = story_title e \<and>
      length (chapters e') = length (chapters e) \<and>
      (\<forall>k < length (chapters e).
         chapter_id (chapters e' ! k) = chapter_id (chapters e ! k) \<and>
         chapter_title (chapters e' ! k) = chapter_title (chapters e ! k) \<and>
         summary (chapters e' ! k) = summary (chapters e ! k) \<and>
         length (pages (chapters e' ! k)) = length (pages (chapters e ! k)) \<and>
         (chapter_id (chapters e ! k) \<noteq> chapterId \<longrightarrow> chapters e' ! k = chapters e ! k) \<and>
         (\<forall>j < length (pages (chapters e ! k)).
            pages (chapters e' ! k) ! j =
              (if chapter_id (chapters e ! k) = chapterId \<and>
                  page_id (pages (chapters e ! k) ! j) = pageId
               then spreadPage (pages (chapters e ! k) ! j) pu
               else pages (chapters e ! k) ! j))) \<and>
      ((\<forall>c \<in> set (chapters e).
          chapter_id c = chapterId \<longrightarrow> (\<forall>p \<in> set (pages c). page_id p \<noteq> pageId)) \<longrightarrow> e' = e))"
proof -
  let ?fs = "\<lambda>s. if slide_id s = slideId then spreadSlide s su else s"
  let ?fp = "\<lambda>p. if page_id p = pageId then spreadPage p pu else p"
  let ?fc = "\<lambda>c. if chapter_id c = chapterId then c\<lparr>pages := map ?fp (pages c)\<rparr> else c"
  let ?d' = "d\<lparr>slides := map ?fs (slides d)\<rparr>"
  let ?e' = "e\<lparr>chapters := map ?fc (chapters e)\<rparr>"
  have n1: "onUpdateSlide slideId su None = None"
    by (simp add: onUpdateSlide_def)
  have n2: "onUpdatePage chapterId pageId pu None = None"
    by (simp add: onUpdatePage_def)
  have s0: "onUpdateSlide slideId su (Some d) = Some ?d'"
    by (simp add: onUpdateSlide_def)
  have s1: "presentation_id ?d' = presentation_id d \<and>
            presentation_title ?d' = presentation_title d \<and>
            length (slides ?d') = length (slides d)"
    by simp
  have s2: "\<forall>k < length (slides d).
              slides ?d' ! k =
                (if slide_id (slides d ! k) = slideId then spreadSlide (slides d ! k) su
                 else slides d ! k)"
    by simp
  have s3: "(\<forall>s \<in> set (slides d). slide_id s \<noteq> slideId) \<longrightarrow> ?d' = d"
  proof
    assume "\<forall>s \<in> set (slides d). slide_id s \<noteq> slideId"
    then have "map ?fs (slides d) = slides d"
      by (intro map_idI) simp
    then show "?d' = d" by simp
  qed
  have p0: "onUpdatePage chapterId pageId pu (Some e) = Some ?e'"
    by (simp add: onUpdatePage_def)
  have p1: "story_id ?e' = story_id e \<and> story_title ?e' = story_title e \<and>
            length (chapters ?e') = length (chapters e)"
    by simp
  have p2: "chapter_id (chapters ?e' ! k) = chapter_id (chapters e ! k) \<and>
         chapter_title (chapters ?e' ! k) = chapter_title (chapters e ! k) \<and>
         summary (chapters ?e' ! k) = summary (chapters e ! k) \<and>
         length (pages (chapters ?e' ! k)) = length (pages (chapters e ! k)) \<and>
         (chapter_id (chapters e ! k) \<noteq> chapterId \<longrightarrow> chapters ?e' ! k = chapters e ! k) \<and>
         (\<forall>j < length (pages (chapters e ! k)).
            pages (chapters ?e' ! k) ! j =
              (if chapter_id (chapters e ! k) = chapterId \<and>
                  page_id (pages (chapters e ! k) ! j) = pageId
               then spreadPage (pages (chapters e ! k) ! j) pu
               else pages (chapters e ! k) ! j))"
    if "k < length (chapters e)" for k
    using that by simp
  have p3: "(\<forall>c \<in> set (chapters e).
          chapter_id c = chapterId \<longrightarrow> (\<forall>p \<in> set (pages c). page_id p \<noteq> pageId)) \<longrightarrow> ?e' = e"
  proof
    assume a: "\<forall>c \<in> set (chapters e).
          chapter_id c = chapterId \<longrightarrow> (\<forall>p \<in> set (pages c). page_id p \<noteq> pageId)"
    have "?fc c = c" if "c \<in> set (chapters e)" for c
    proof (cases "chapter_id c = chapterId")
      case True
      with a that have "\<forall>p \<in> set (pages c). page_id p \<noteq> pageId" by blast
      then have "map ?fp (pages c) = pages c"
        by (intro map_idI) simp
      with True show ?thesis by simp
    next
      case False
      then show ?thesis by simp
    qed
    then have "map ?fc (chapters e) = chapters e"
      by (intro map_idI)
    then show "?e' = e" by simp
  qed
  from p2 have p2': "\<forall>k < length (chapters e).
         chapter_id (chapters ?e' ! k) = chapter_id (chapters e ! k) \<and>
         chapter_title (chapters ?e' ! k) = chapter_title (chapters e ! k) \<and>
         summary (chapters ?e' ! k) = summary (chapters e ! k) \<and>
         length (pages (chapters ?e' ! k)) = length (pages (chapters e ! k)) \<and>
         (chapter_id (chapters e ! k) \<noteq> chapterId \<longrightarrow> chapters ?e' ! k = chapters e ! k) \<and>
         (\<forall>j < length (pages (chapters e ! k)).
            pages (chapters ?e' ! k) ! j =
              (if chapter_id (chapters e ! k) = chapterId \<and>
                  page_id (pages (chapters e ! k) ! j) = pageId
               then spreadPage (pages (chapters e ! k) ! j) pu
               else pages (chapters e ! k) ! j))"
    by blast
  show ?thesis
    apply (intro conjI)
       apply (rule n1)
      apply (rule n2)
     apply (rule exI [of _ ?d'])
     apply (intro conjI s0 s2 s3)
       apply (simp_all only: s1)[3]
    apply (rule exI [of _ ?e'])
    apply (intro conjI p0 p2' p3)
      apply (simp_all only: p1)
    done
qed

theorem update_handlers_frame_witness:
  "(\<exists>d'. onUpdateSlide (js ''a'')
       \<lparr>upd_slide_id = None, upd_slide_title = Some (js ''New''), upd_content = None, upd_imageUrl = None\<rparr>
       (Some \<lparr>presentation_id = js ''p'', presentation_title = js ''T'',
          slides = [\<lparr>slide_id = js ''a'', slide_title = js ''One'', content = [], imageUrl = None\<rparr>,
                    \<lparr>slide_id = js ''b'', slide_title = js ''Two'', content = [], imageUrl = None\<rparr>]\<rparr>)
     = Some d' \<and>
     slides d' ! 0 = \<lparr>slide_id = js ''a'', slide_title = js ''New'', content = [], imageUrl = None\<rparr> \<and>
     slides d' ! 1 = \<lparr>slide_id = js ''b'', slide_title = js ''Two'', content = [], imageUrl = None\<rparr>) \<and>
   (\<exists>e'. onUpdatePage (js ''c'') (js ''q'')
       \<lparr>upd_page_id = None, upd_page_number = None, upd_page_text = Some (js ''x''),
        upd_ai_suggestions = None, upd_images = None\<rparr>
       (Some \<lparr>story_id = js ''s'', story_title = js ''T'',
          chapters = [\<lparr>chapter_id = js ''c'', chapter_title = js ''C'', summary = [],
                        pages = [\<lparr>page_id = js ''p'', page_number = 1, page_text = [],
                                  ai_suggestions = [], images = []\<rparr>]\<rparr>]\<rparr>)
     = Some e' \<and>
     e' = \<lparr>story_id = js ''s'', story_title = js ''T'',
          chapters = [\<lparr>chapter_id = js ''c'', chapter_title = js ''C'', summary = [],
                        pages = [\<lparr>page_id = js ''p'', page_number = 1, page_text = [],
                                  ai_suggestions = [], images = []\<rparr>]\<rparr>]\<rparr>)"
proof -
  let ?su = "\<lparr>upd_slide_id = None, upd_slide_title = Some (js ''New''), upd_content = None, upd_imageUrl = None\<rparr>"
  let ?d = "\<lparr>presentation_id = js ''p'', presentation_title = js ''T'',
          slides = [\<lparr>slide_id = js ''a'', slide_title = js ''One'', content = [], imageUrl = None\<rparr>,
                    \<lparr>slide_id = js ''b'', slide_title = js ''Two'', content = [], imageUrl = None\<rparr>]\<rparr>"
  let ?pu = "\<lparr>upd_page_id = None, upd_page_number = None, upd_page_text = Some (js ''x''),
        upd_ai_suggestions = None, upd_images = None\<rparr>"
  let ?e = "\<lparr>story_id = js ''s'', story_title = js ''T'',
          chapters = [\<lparr>chapter_id = js ''c'', chapter_title = js ''C'', summary = [],
                        pages = [\<lparr>page_id = js ''p'', page_number = 1::nat, page_text = [],
                                  ai_suggestions = [], images = []\<rparr>]\<rparr>]\<rparr>"
  note t = update_handlers_frame [where slideId = "js ''a''" and su = ?su and d = ?d
      and chapterId = "js ''c''" and pageId = "js ''q''" and pu = ?pu and e = ?e]
  from t obtain d' where d': "onUpdateSlide (js ''a'') ?su (Some ?d) = Some d'"
    and nth: "\<forall>k < length (slides ?d). slides d' ! k =
           (if slide_id (slides ?d ! k) = js ''a'' then spreadSlide (slides ?d ! k) ?su
            else slides ?d ! k)"
    by blast
  from nth have "slides d' ! 0 = spreadSlide (slides ?d ! 0) ?su"
    by (simp add: js_def)
  then have s0: "slides d' ! 0 = \<lparr>slide_id = js ''a'', slide_title = js ''New'', content = [], imageUrl = None\<rparr>"
    by (simp add: spreadSlide_def override_def)
  from nth have "slides d' ! 1 = (if slide_id (slides ?d ! 1) = js ''a'' then spreadSlide (slides ?d ! 1) ?su
            else slides ?d ! 1)"
    by simp
  then have s1: "slides d' ! 1 = \<lparr>slide_id = js ''b'', slide_title = js ''Two'', content = [], imageUrl = None\<rparr>"
    by (simp add: js_def)
  from t obtain e' where e': "onUpdatePage (js ''c'') (js ''q'') ?pu (Some ?e) = Some e'"
    and same: "(\<forall>c \<in> set (chapters ?e).
          chapter_id c = js ''c'' \<longrightarrow> (\<forall>p \<in> set (pages c). page_id p \<noteq> js ''q'')) \<longrightarrow> e' = ?e"
    by blast
  from same have "e' = ?e" by (simp add: js_def)
  with d' s0 s1 e' show ?thesis by blast
qed

section \<open>Properties of the export file names\<close>

lemma replaceNonAlnum_ascii: "\<forall>c \<in> set (replaceNonAlnum s). c < 0x80"
proof
  fix c assume "c \<in> set (replaceNonAlnum s)"
  then obtain x where c: "c = (if inClass_az09_i x then x else 0x5F)"
    unfolding replaceNonAlnum_def set_map by blast
  show "c < 0x80"
  proof (cases "inClass_az09_i x")
    case True
    then have "x \<le> 0x7A"
      unfolding inClass_az09_i_def by (auto elim: order_trans)
    then have "x < 0x80" by (rule order_le_less_trans) simp
    with True c show ?thesis by simp
  next
    case False
    with c show ?thesis by simp
  qed
qed

lemma asciiLower_underscore: "asciiLower 0x5F = 0x5F"
  by (simp add: asciiLower_def)

lemma lower_replace:
  assumes "lowersAscii toLowerCase"
  shows "toLowerCase (replaceNonAlnum s) = map (\<lambda>c. if inClass_az09_i c then asciiLower c else 0x5F) s"
proof -
  have "toLowerCase (replaceNonAlnum s) = map asciiLower (replaceNonAlnum s)"
    using assms replaceNonAlnum_ascii [of s] unfolding lowersAscii_def by blast
  also have "\<dots> = map (\<lambda>c. if inClass_az09_i c then asciiLower c else 0x5F) s"
    by (simp add: replaceNonAlnum_def asciiLower_underscore)
  finally show ?thesis .
qed

lemma lowersAscii_map: "lowersAscii (map asciiLower)"
  by (simp add: lowersAscii_def)

text \<open>
  C10. Both export functions derive the file name from the title alone: every code unit
  that is not an ASCII letter or digit becomes \<open>_\<close> (0x5F), every other one is
  lowercased, and \<open>.pptx\<close> (for \<open>createPdf\<close>: \<open>.pdf\<close>) is appended. The builtin
  \<open>toLowerCase\<close> is only assumed to lowercase ASCII strings as \<open>asciiLower\<close> does.
\<close>

theorem export_file_names:
  assumes "lowersAscii toLowerCase"
  shows "createPresentation_fileName toLowerCase p =
           map (\<lambda>c. if inClass_az09_i c then asciiLower c else 0x5F) (presentation_title p)
             @ js ''.pptx'' \<and>
         createPdf_fileName toLowerCase d =
           map (\<lambda>c. if inClass_az09_i c then asciiLower c else 0x5F) (story_title d)
             @ js ''.pdf''"
  using assms by (simp add: createPresentation_fileName_def createPdf_fileName_def lower_replace)

theorem export_file_names_witness:
  "lowersAscii (map asciiLower) \<and>
   createPresentation_fileName (map asciiLower)
     \<lparr>presentation_id = js ''p1'', presentation_title = js ''Q3 Sales: Up 10%'' @ [0xE9], slides = []\<rparr>
     = js ''q3_sales__up_10__.pptx'' \<and>
   createPdf_fileName (map asciiLower)
     \<lparr>story_id = js ''s1'', story_title = js ''The Long Road'', chapters = []\<rparr>
     = js ''the_long_road.pdf''"
proof -
  have l: "lowersAscii (map asciiLower)" by (rule lowersAscii_map)
  show ?thesis
    using l export_file_names [OF l, of
        "\<lparr>presentation_id = js ''p1'', presentation_title = js ''Q3 Sales: Up 10%'' @ [0xE9], slides = []\<rparr>"
        "\<lparr>story_id = js ''s1'', story_title = js ''The Long Road'', chapters = []\<rparr>"]
    by (simp add: js_def inClass_az09_i_def asciiLower_def)
qed

section \<open>Properties of the image services\<close>

lemma await_cases:
  "await api r w = (Inl err, w') \<longleftrightarrow> api r = Inl err \<and> w' = emit [Started r, Settled r False] w"
  "await api r w = (Inr v, w') \<longleftrightarrow> api r = Inr v \<and> w' = emit [Started r, Settled r True] w"
  by (auto simp: await_def split: sum.splits)

lemma generateSlideImage_cases:
  "\<exists>url w'. generateSlideImage e prompt w = (Inr url, w') \<and>
     (case generateImages e (ImageRequest prompt) of
        Inl err \<Rightarrow> url = []
      | Inr response \<Rightarrow>
          (case firstImageBytes response of
             Inl err \<Rightarrow> url = []
           | Inr bytes \<Rightarrow> url = js ''data:image/jpeg;base64,'' @ bytes))"
  by (simp add: generateSlideImage_def await_def split: sum.splits)

lemma generatePageImage_cases:
  "\<exists>url w'. generatePageImage e pageText mood w = (Inr url, w') \<and>
     (case generateImages e (PageImageRequest (take 500 pageText) mood) of
        Inl err \<Rightarrow> url = []
      | Inr response \<Rightarrow>
          (case firstImageBytes response of
             Inl err \<Rightarrow> url = []
           | Inr bytes \<Rightarrow> url = js ''data:image/jpeg;base64,'' @ bytes))"
  by (simp add: generatePageImage_def await_def Let_def split: sum.splits)

lemma orNull_not_empty: "orNull s \<noteq> Some []"
  by (simp add: orNull_def)

lemma generateSlideFromChunk_cases:
  "(case generateSlideJson e (SlideRequest chunk k n t) of
      Inl err \<Rightarrow> fst (generateSlideFromChunk e chunk k n t w) = Inl err
    | Inr parsed \<Rightarrow>
        (\<exists>url w1. generateSlideImage e (parsed_image_prompt parsed)
                     (emit [Started (SlideRequest chunk k n t), Settled (SlideRequest chunk k n t) True] w)
                   = (Inr url, w1) \<and>
           generateSlideFromChunk e chunk k n t w =
             (Inr \<lparr> slide_id = randomUUID e (uuids w1), slide_title = parsed_title parsed,
                    content = (case parsed_content parsed of None \<Rightarrow> [] | Some c \<Rightarrow> c),
                    imageUrl = orNull url \<rparr>, w1\<lparr>uuids := Suc (uuids w1)\<rparr>)))"
proof (cases "generateSlideJson e (SlideRequest chunk k n t)")
  case (Inl err)
  then show ?thesis
    by (simp add: generateSlideFromChunk_def await_def)
next
  case (Inr parsed)
  let ?w0 = "emit [Started (SlideRequest chunk k n t), Settled (SlideRequest chunk k n t) True] w"
  obtain url w1 where u: "generateSlideImage e (parsed_image_prompt parsed) ?w0 = (Inr url, w1)"
    using generateSlideImage_cases [of e "parsed_image_prompt parsed" ?w0] by blast
  with Inr show ?thesis
    by (simp add: generateSlideFromChunk_def await_def crypto_randomUUID_def)
qed


lemma generateSlideImage_result:
  "\<exists>url w'. generateSlideImage e prompt w = (Inr url, w') \<and>
      (url = [] \<or> (\<exists>bytes. url = js ''data:image/jpeg;base64,'' @ bytes)) \<and>
      (\<forall>err. generateImages e (ImageRequest prompt) = Inl err \<longrightarrow> url = []) \<and>
      (\<forall>response err.
          generateImages e (ImageRequest prompt) = Inr response \<and>
          firstImageBytes response = Inl err \<longrightarrow> url = []) \<and>
      (\<forall>response bytes.
          generateImages e (ImageRequest prompt) = Inr response \<and>
          firstImageBytes response = Inr bytes \<longrightarrow>
          url = js ''data:image/jpeg;base64,'' @ bytes)"
proof -
  obtain url w' where u: "generateSlideImage e prompt w = (Inr url, w')"
    and c: "(case generateImages e (ImageRequest prompt) of
        Inl err \<Rightarrow> url = []
      | Inr response \<Rightarrow>
          (case firstImageBytes response of
             Inl err \<Rightarrow> url = []
           | Inr bytes \<Rightarrow> url = js ''data:image/jpeg;base64,'' @ bytes))"
    using generateSlideImage_cases [of e prompt w] by blast
  from c have "url = [] \<or> (\<exists>bytes. url = js ''data:image/jpeg;base64,'' @ bytes)"
    by (auto split: sum.splits)
  moreover from c have "\<forall>err. generateImages e (ImageRequest prompt) = Inl err \<longrightarrow> url = []"
    by (auto split: sum.splits)
  moreover from c have "\<forall>response err.
          generateImages e (ImageRequest prompt) = Inr response \<and>
          firstImageBytes response = Inl err \<longrightarrow> url = []"
    by (auto split: sum.splits)
  moreover from c have "\<forall>response bytes.
          generateImages e (ImageRequest prompt) = Inr response \<and>
          firstImageBytes response = Inr bytes \<longrightarrow>
          url = js ''data:image/jpeg;base64,'' @ bytes"
    by (auto split: sum.splits)
  ultimately show ?thesis
    using u by blast
qed

lemma generatePageImage_result:
  "\<exists>url w'. generatePageImage e pageText mood w = (Inr url, w') \<and>
      (url = [] \<or> (\<exists>bytes. url = js ''data:image/jpeg;base64,'' @ bytes)) \<and>
      (\<forall>err. generateImages e (PageImageRequest (take 500 pageText) mood) = Inl err \<longrightarrow> url = []) \<and>
      (\<forall>response err.
          generateImages e (PageImageRequest (take 500 pageText) mood) = Inr response \<and>
          firstImageBytes response = Inl err \<longrightarrow> url = []) \<and>
      (\<forall>response bytes.
          generateImages e (PageImageRequest (take 500 pageText) mood) = Inr response \<and>
          firstImageBytes response = Inr bytes \<longrightarrow>
          url = js ''data:image/jpeg;base64,'' @ bytes)"
proof -
  let ?r = "PageImageRequest (take 500 pageText) mood"
  obtain url w' where u: "generatePageImage e pageText mood w = (Inr url, w')"
    and c: "(case generateImages e ?r of
        Inl err \<Rightarrow> url = []
      | Inr response \<Rightarrow>
          (case firstImageBytes response of
             Inl err \<Rightarrow> url = []
           | Inr bytes \<Rightarrow> url = js ''data:image/jpeg;base64,'' @ bytes))"
    using generatePageImage_cases [of e pageText mood w] by blast
  from c have "url = [] \<or> (\<exists>bytes. url = js ''data:image/jpeg;base64,'' @ bytes)"
    by (auto split: sum.splits)
  moreover from c have "\<forall>err. generateImages e ?r = Inl err \<longrightarrow> url = []"
    by (auto split: sum.splits)
  moreover from c have "\<forall>response err.
          generateImages e ?r = Inr response \<and> firstImageBytes response = Inl err \<longrightarrow> url = []"
    by (auto split: sum.splits)
  moreover from c have "\<forall>response bytes.
          generateImages e ?r = Inr response \<and> firstImageBytes response = Inr bytes \<longrightarrow>
          url = js ''data:image/jpeg;base64,'' @ bytes"
    by (auto split: sum.splits)
  ultimately show ?thesis
    using u by blast
qed

lemma generateSlideFromChunk_null_image:
  assumes j: "generateSlideJson e (SlideRequest chunk k n t) = Inr parsed"
    and f: "isl (generateImages e (ImageRequest (parsed_image_prompt parsed))) \<or>
            (\<exists>response. generateImages e (ImageRequest (parsed_image_prompt parsed)) = Inr response \<and>
                        isl (firstImageBytes response))"
  shows "\<exists>slide w'. generateSlideFromChunk e chunk k n t w = (Inr slide, w') \<and> imageUrl slide = None"
proof -
  let ?w0 = "emit [Started (SlideRequest chunk k n t), Settled (SlideRequest chunk k n t) True] w"
  obtain url w1 where u: "generateSlideImage e (parsed_image_prompt parsed) ?w0 = (Inr url, w1)"
    and c: "(case generateImages e (ImageRequest (parsed_image_prompt parsed)) of
        Inl err \<Rightarrow> url = []
      | Inr response \<Rightarrow>
          (case firstImageBytes response of
             Inl err \<Rightarrow> url = []
           | Inr bytes \<Rightarrow> url = js ''data:image/jpeg;base64,'' @ bytes))"
    using generateSlideImage_cases [of e "parsed_image_prompt parsed" ?w0] by blast
  from c f have "url = []"
    by (auto simp: isl_def split: sum.splits)
  with j u show ?thesis
    using generateSlideFromChunk_cases [of e chunk k n t w]
    by (simp add: orNull_def)
qed

text \<open>
  The claim C8 as stated fails: an image API call that succeeds need not give a data URL.
  With a backend that fulfils the call with an answer holding no image,
  \<open>response.generatedImages[0].image\<close> throws a \<open>TypeError\<close> inside the \<open>try\<close> block, and
  both services return the empty string.
\<close>

theorem fulfilled_image_call_without_image:
  "generateImages noImageEnv (ImageRequest (js ''chart'')) = Inr (GenerateImagesResponse (Some [])) \<and>
   generateImages noImageEnv (PageImageRequest (take 500 (js ''page'')) None)
     = Inr (GenerateImagesResponse (Some [])) \<and>
   fst (generateSlideImage noImageEnv (js ''chart'') emptyWorld) = Inr [] \<and>
   fst (generatePageImage noImageEnv (js ''page'') None emptyWorld) = Inr []"
  by (simp add: noImageEnv_def scriptedEnv_def generateSlideImage_def generatePageImage_def
      await_def firstImageBytes_def Let_def emit_def emptyWorld_def)

text \<open>
  C8, amended. \<open>generateSlideImage\<close> and \<open>generatePageImage\<close> always return a string and
  never throw. The string is empty when the image API call throws and also when the call
  fulfils with an answer that holds no first image to read (reading it throws a
  \<open>TypeError\<close>, which the same \<open>catch\<close> swallows); it is \<open>data:image/jpeg;base64,\<close> followed by
  what \<open>firstImageBytes\<close> reads when the answer holds a first image. A slide that
  \<open>generateSlideFromChunk\<close> returns never has the empty string as its \<open>imageUrl\<close>, and has
  \<open>null\<close> there when image generation fails in either way.
\<close>

theorem image_services_never_throw:
  "(\<exists>url w'. generateSlideImage e prompt w = (Inr url, w') \<and>
      (url = [] \<or> (\<exists>bytes. url = js ''data:image/jpeg;base64,'' @ bytes)) \<and>
      (\<forall>err. generateImages e (ImageRequest prompt) = Inl err \<longrightarrow> url = []) \<and>
      (\<forall>response err.
          generateImages e (ImageRequest prompt) = Inr response \<and>
          firstImageBytes response = Inl err \<longrightarrow> url = []) \<and>
      (\<forall>response bytes.
          generateImages e (ImageRequest prompt) = Inr response \<and>
          firstImageBytes response = Inr bytes \<longrightarrow>
          url = js ''data:image/jpeg;base64,'' @ bytes)) \<and>
   (\<exists>url w'. generatePageImage e pageText mood w = (Inr url, w') \<and>
      (url = [] \<or> (\<exists>bytes. url = js ''data:image/jpeg;base64,'' @ bytes)) \<and>
      (\<forall>err. generateImages e (PageImageRequest (take 500 pageText) mood) = Inl err \<longrightarrow> url = []) \<and>
      (\<forall>response err.
          generateImages e (PageImageRequest (take 500 pageText) mood) = Inr response \<and>
          firstImageBytes response = Inl err \<longrightarrow> url = []) \<and>
      (\<forall>response bytes.
          generateImages e (PageImageRequest (take 500 pageText) mood) = Inr response \<and>
          firstImageBytes response = Inr bytes \<longrightarrow>
          url = js ''data:image/jpeg;base64,'' @ bytes)) \<and>
   (\<forall>slide w'. generateSlideFromChunk e chunk k n t w = (Inr slide, w') \<longrightarrow>
      imageUrl slide \<noteq> Some []) \<and>
   (\<forall>parsed.
      generateSlideJson e (SlideRequest chunk k n t) = Inr parsed \<and>
      (isl (generateImages e (ImageRequest (parsed_image_prompt parsed))) \<or>
       (\<exists>response. generateImages e (ImageRequest (parsed_image_prompt parsed)) = Inr response \<and>
                   isl (firstImageBytes response))) \<longrightarrow>
      (\<exists>slide w'. generateSlideFromChunk e chunk k n t w = (Inr slide, w') \<and>
         imageUrl slide = None))"
proof (intro conjI)
  show "\<exists>url w'. generateSlideImage e prompt w = (Inr url, w') \<and>
      (url = [] \<or> (\<exists>bytes. url = js ''data:image/jpeg;base64,'' @ bytes)) \<and>
      (\<forall>err. generateImages e (ImageRequest prompt) = Inl err \<longrightarrow> url = []) \<and>
      (\<forall>response err.
          generateImages e (ImageRequest prompt) = Inr response \<and>
          firstImageBytes response = Inl err \<longrightarrow> url = []) \<and>
      (\<forall>response bytes.
          generateImages e (ImageRequest prompt) = Inr response \<and>
          firstImageBytes response = Inr bytes \<longrightarrow>
          url = js ''data:image/jpeg;base64,'' @ bytes)"
    by (rule generateSlideImage_result)
next
  show "\<exists>url w'. generatePageImage e pageText mood w = (Inr url, w') \<and>
      (url = [] \<or> (\<exists>bytes. url = js ''data:image/jpeg;base64,'' @ bytes)) \<and>
      (\<forall>err. generateImages e (PageImageRequest (take 500 pageText) mood) = Inl err \<longrightarrow> url = []) \<and>
      (\<forall>response err.
          generateImages e (PageImageRequest (take 500 pageText) mood) = Inr response \<and>
          firstImageBytes response = Inl err \<longrightarrow> url = []) \<and>
      (\<forall>response bytes.
          generateImages e (PageImageRequest (take 500 pageText) mood) = Inr response \<and>
          firstImageBytes response = Inr bytes \<longrightarrow>
          url = js ''data:image/jpeg;base64,'' @ bytes)"
    by (rule generatePageImage_result)
next
  show "\<forall>slide w'. generateSlideFromChunk e chunk k n t w = (Inr slide, w') \<longrightarrow>
      imageUrl slide \<noteq> Some []"
    using generateSlideFromChunk_cases [of e chunk k n t w]
    by (auto split: sum.splits simp: orNull_not_empty)
next
  show "\<forall>parsed.
      generateSlideJson e (SlideRequest chunk k n t) = Inr parsed \<and>
      (isl (generateImages e (ImageRequest (parsed_image_prompt parsed))) \<or>
       (\<exists>response. generateImages e (ImageRequest (parsed_image_prompt parsed)) = Inr response \<and>
                   isl (firstImageBytes response))) \<longrightarrow>
      (\<exists>slide w'. generateSlideFromChunk e chunk k n t w = (Inr slide, w') \<and>
         imageUrl slide = None)"
    using generateSlideFromChunk_null_image [of e chunk k n t _ w] by blast
qed


lemma decimal_digit: "n < 10 \<Longrightarrow> decimal n = [0x30 + of_nat n]"
  by (subst decimal.simps) simp

theorem image_services_never_throw_witness:
  "fst (generateSlideImage (scriptedEnv [] [] True) (js ''chart'') emptyWorld) = Inr [] \<and>
   fst (generateSlideImage noImageEnv (js ''chart'') emptyWorld) = Inr [] \<and>
   fst (generatePageImage noImageEnv (js ''page'') None emptyWorld) = Inr [] \<and>
   fst (generateSlideImage (scriptedEnv [] [] False) (js ''chart'') emptyWorld)
     = Inr (js ''data:image/jpeg;base64,QUJD'') \<and>
   fst (generatePageImage (scriptedEnv [] [] False) (js ''page'') None emptyWorld)
     = Inr (js ''data:image/jpeg;base64,QUJD'') \<and>
   fst (generatePageImage (scriptedEnv [] [] True) (js ''page'') None emptyWorld) = Inr [] \<and>
   (\<exists>slide w'.
     generateSlideFromChunk (scriptedEnv [] [] True) (js ''text'') 1 1 (js ''Report'') emptyWorld
       = (Inr slide, w') \<and> imageUrl slide = None) \<and>
   (\<exists>slide w'.
     generateSlideFromChunk noImageEnv (js ''text'') 1 1 (js ''Report'') emptyWorld
       = (Inr slide, w') \<and> imageUrl slide = None) \<and>
   (\<exists>slide w'.
     generateSlideFromChunk (scriptedEnv [] [] False) (js ''text'') 1 1 (js ''Report'') emptyWorld
       = (Inr slide, w') \<and> imageUrl slide \<noteq> Some [])"
proof -
  let ?e = "scriptedEnv [] [] True"
  let ?ok = "scriptedEnv [] [] False"
  let ?no = "noImageEnv"
  let ?parsed = "\<lparr> parsed_title = js ''Slide '' @ decimal 1, parsed_content = None,
                    parsed_image_prompt = js ''chart'' \<rparr>"
  let ?response = "GenerateImagesResponse (Some [GeneratedImage (Some (Image (Some (js ''QUJD''))))])"
  let ?empty = "GenerateImagesResponse (Some [])"
  let ?pr = "PageImageRequest (take 500 (js ''page'')) None"
  note t = image_services_never_throw [of ?e "js ''chart''" emptyWorld "js ''page''" None
      "js ''text''" 1 1 "js ''Report''"]
  note t' = image_services_never_throw [of ?ok "js ''chart''" emptyWorld "js ''page''" None
      "js ''text''" 1 1 "js ''Report''"]
  note t'' = image_services_never_throw [of ?no "js ''chart''" emptyWorld "js ''page''" None
      "js ''text''" 1 1 "js ''Report''"]
  have j: "generateSlideJson ?e (SlideRequest (js ''text'') 1 1 (js ''Report'')) = Inr ?parsed"
    "generateSlideJson ?no (SlideRequest (js ''text'') 1 1 (js ''Report'')) = Inr ?parsed"
    by (simp_all add: scriptedEnv_def noImageEnv_def)
  have i: "generateImages ?e (ImageRequest (js ''chart'')) = Inl (newError ''quota exceeded'')"
    "generateImages ?e ?pr = Inl (newError ''quota exceeded'')"
    by (simp_all add: scriptedEnv_def)
  have k: "generateImages ?ok (ImageRequest (js ''chart'')) = Inr ?response"
    "generateImages ?ok ?pr = Inr ?response"
    by (simp_all add: scriptedEnv_def)
  have n: "generateImages ?no (ImageRequest (js ''chart'')) = Inr ?empty"
    "generateImages ?no ?pr = Inr ?empty"
    by (simp_all add: scriptedEnv_def noImageEnv_def)
  have b: "firstImageBytes ?response = Inr (js ''QUJD'')"
    by (simp add: firstImageBytes_def)
  have b': "firstImageBytes ?empty = Inl typeError"
    by (simp add: firstImageBytes_def)
  have cat: "js ''data:image/jpeg;base64,'' @ js ''QUJD'' = js ''data:image/jpeg;base64,QUJD''"
    by (simp add: js_def)
  from t [THEN conjunct1] obtain url w1 where
    u: "generateSlideImage ?e (js ''chart'') emptyWorld = (Inr url, w1)"
    and f: "\<forall>err. generateImages ?e (ImageRequest (js ''chart'')) = Inl err \<longrightarrow> url = []"
    by (elim exE conjE)
  from i(1) have "url = []" by (rule f [rule_format])
  with u have 1: "fst (generateSlideImage ?e (js ''chart'') emptyWorld) = Inr []"
    by simp
  from t'' [THEN conjunct1] obtain url w1 where
    u: "generateSlideImage ?no (js ''chart'') emptyWorld = (Inr url, w1)"
    and f: "\<forall>response err. generateImages ?no (ImageRequest (js ''chart'')) = Inr response \<and>
          firstImageBytes response = Inl err \<longrightarrow> url = []"
    by (elim exE conjE)
  from n(1) b' have "url = []" by (intro f [rule_format] conjI)
  with u have 2: "fst (generateSlideImage ?no (js ''chart'') emptyWorld) = Inr []"
    by simp
  from t'' [THEN conjunct2, THEN conjunct1] obtain url w1 where
    u: "generatePageImage ?no (js ''page'') None emptyWorld = (Inr url, w1)"
    and f: "\<forall>response err. generateImages ?no ?pr = Inr response \<and>
          firstImageBytes response = Inl err \<longrightarrow> url = []"
    by (elim exE conjE)
  from n(2) b' have "url = []" by (intro f [rule_format] conjI)
  with u have 3: "fst (generatePageImage ?no (js ''page'') None emptyWorld) = Inr []"
    by simp
  from t' [THEN conjunct1] obtain url w1 where
    u: "generateSlideImage ?ok (js ''chart'') emptyWorld = (Inr url, w1)"
    and f: "\<forall>response bytes. generateImages ?ok (ImageRequest (js ''chart'')) = Inr response \<and>
          firstImageBytes response = Inr bytes \<longrightarrow> url = js ''data:image/jpeg;base64,'' @ bytes"
    by (elim exE conjE)
  from k(1) b have "url = js ''data:image/jpeg;base64,'' @ js ''QUJD''"
    by (intro f [rule_format] conjI)
  with u cat have 4: "fst (generateSlideImage ?ok (js ''chart'') emptyWorld)
      = Inr (js ''data:image/jpeg;base64,QUJD'')"
    by simp
  from t' [THEN conjunct2, THEN conjunct1] obtain url w1 where
    u: "generatePageImage ?ok (js ''page'') None emptyWorld = (Inr url, w1)"
    and f: "\<forall>response bytes. generateImages ?ok ?pr = Inr response \<and>
          firstImageBytes response = Inr bytes \<longrightarrow> url = js ''data:image/jpeg;base64,'' @ bytes"
    by (elim exE conjE)
  from k(2) b have "url = js ''data:image/jpeg;base64,'' @ js ''QUJD''"
    by (intro f [rule_format] conjI)
  with u cat have 5: "fst (generatePageImage ?ok (js ''page'') None emptyWorld)
      = Inr (js ''data:image/jpeg;base64,QUJD'')"
    by simp
  from t [THEN conjunct2, THEN conjunct1] obtain url w1 where
    u: "generatePageImage ?e (js ''page'') None emptyWorld = (Inr url, w1)"
    and f: "\<forall>err. generateImages ?e ?pr = Inl err \<longrightarrow> url = []"
    by (elim exE conjE)
  from i(2) have "url = []" by (rule f [rule_format])
  with u have 6: "fst (generatePageImage ?e (js ''page'') None emptyWorld) = Inr []"
    by simp
  have i': "isl (generateImages ?e (ImageRequest (parsed_image_prompt ?parsed))) \<or>
       (\<exists>response. generateImages ?e (ImageRequest (parsed_image_prompt ?parsed)) = Inr response \<and>
                   isl (firstImageBytes response))"
    by (simp add: scriptedEnv_def)
  from j(1) i' have 7: "\<exists>slide w'.
     generateSlideFromChunk ?e (js ''text'') 1 1 (js ''Report'') emptyWorld = (Inr slide, w') \<and>
     imageUrl slide = None"
    by (intro t [THEN conjunct2, THEN conjunct2, THEN conjunct2, rule_format] conjI)
  have n': "isl (generateImages ?no (ImageRequest (parsed_image_prompt ?parsed))) \<or>
       (\<exists>response. generateImages ?no (ImageRequest (parsed_image_prompt ?parsed)) = Inr response \<and>
                   isl (firstImageBytes response))"
    using n(1) b' by simp
  from j(2) n' have 8: "\<exists>slide w'.
     generateSlideFromChunk ?no (js ''text'') 1 1 (js ''Report'') emptyWorld = (Inr slide, w') \<and>
     imageUrl slide = None"
    by (intro t'' [THEN conjunct2, THEN conjunct2, THEN conjunct2, rule_format] conjI)
  have run: "\<exists>slide w'.
     generateSlideFromChunk ?ok (js ''text'') 1 1 (js ''Report'') emptyWorld = (Inr slide, w')"
    by (simp add: generateSlideFromChunk_def generateSlideImage_def await_def scriptedEnv_def
        firstImageBytes_def Let_def crypto_randomUUID_def)
  then obtain slide w' where
    r: "generateSlideFromChunk ?ok (js ''text'') 1 1 (js ''Report'') emptyWorld = (Inr slide, w')"
    by blast
  with t' [THEN conjunct2, THEN conjunct2, THEN conjunct1, rule_format, OF r]
  have 9: "\<exists>slide w'.
     generateSlideFromChunk ?ok (js ''text'') 1 1 (js ''Report'') emptyWorld = (Inr slide, w') \<and>
     imageUrl slide \<noteq> Some []"
    by blast
  from 1 2 3 4 5 6 7 8 9 show ?thesis by (intro conjI)
qed

section \<open>The table of contents of the PDF\<close>

text \<open>
  C3, at the story \<open>eighteenPages\<close>. The dry run adds 14 pt for each of the eighteen
  one-line pages of the first chapter, stays on the page and records page 4 for the second
  chapter; the drawing pass adds 14 pt and 28 pt of paragraph spacing for each, breaks the
  page before the last line and draws the title of the second chapter on page 5.
\<close>

theorem toc_page_differs_from_drawn_page:
  "tocEntries a4 Map.empty eighteenPages = [(js ''One'', 3), (js ''Two'', 4)] \<and>
   drawnTitles a4 Map.empty eighteenPages = [(js ''One'', 3), (js ''Two'', 5)]"
proof -
  have r18: "replicate 18 x = [x,x,x,x,x,x,x,x,x,x,x,x,x,x,x,x,x,x]" for x :: PageScaffold
    by (simp add: numeral_eq_Suc)
  have sp: "splitTextToSize a4 f (js ''a'') width = [js ''a'']"
    and sp1: "splitTextToSize a4 f (js ''One'') width = [js ''One'']"
    and sp2: "splitTextToSize a4 f (js ''Two'') width = [js ''Two'']" for f width
    by (simp_all add: a4_def js_def)
  have h: "getHeight a4 = 841.89" by (simp add: a4_def)
  have hi: "hasImage Map.empty shortPage = False" by (simp add: hasImage_def shortPage_def)
  have pt: "page_text shortPage = js ''a''" by (simp add: shortPage_def)
  have toc: "tocEntries a4 Map.empty eighteenPages = [(js ''One'', 3), (js ''Two'', 4)]"
    by (simp add: tocEntries_def eighteenPages_def r18 sp h hi pt margin_def Let_def)
  have drawn: "drawnTitles a4 Map.empty eighteenPages = [(js ''One'', 3), (js ''Two'', 5)]"
    by (simp add: drawnTitles_def eighteenPages_def r18 sp sp1 sp2 h hi pt margin_def Let_def)
  from toc drawn show ?thesis by simp
qed

section \<open>Properties of handlePresentationGeneration\<close>

lemma generateSlideFromChunk_throws:
  "generateSlideJson e (SlideRequest chunk k n t) = Inl err \<Longrightarrow>
   generateSlideFromChunk e chunk k n t w =
     (Inl err, emit [Started (SlideRequest chunk k n t), Settled (SlideRequest chunk k n t) False] w)"
  by (simp add: generateSlideFromChunk_def await_def)

lemma generateSlideFromChunk_returns:
  "generateSlideJson e (SlideRequest chunk k n t) = Inr parsed \<Longrightarrow>
   \<exists>slide w'. generateSlideFromChunk e chunk k n t w = (Inr slide, w')"
  using generateSlideFromChunk_cases [of e chunk k n t w] by auto

lemma slideLoop_frame:
  "slideLoop e t n ics generated st w = (r, st', w') \<Longrightarrow> \<exists>m. st' = st\<lparr>loadingMessage := m\<rparr>"
proof (induction ics arbitrary: generated st w)
  case Nil
  then have "st' = st\<lparr>loadingMessage := loadingMessage st\<rparr>" by simp
  then show ?case by blast
next
  case (Cons ic rest)
  obtain index chunk where ic: "ic = (index, chunk)" by (cases ic)
  let ?st1 = "st\<lparr>loadingMessage :=
                  js ''Generating slide '' @ decimal (index + 1) @ js '' of '' @ decimal n @ js ''...''\<rparr>"
  show ?case
  proof (cases "generateSlideFromChunk e chunk (index + 1) n t w")
    case (Pair res w1)
    show ?thesis
    proof (cases res)
      case (Inl err)
      with Pair Cons.prems ic have "st' = ?st1" by simp
      then show ?thesis by blast
    next
      case (Inr slide)
      with Pair Cons.prems ic
      have "slideLoop e t n rest (generated @ [slide]) ?st1 w1 = (r, st', w')" by simp
      then obtain m where "st' = ?st1\<lparr>loadingMessage := m\<rparr>"
        using Cons.IH by blast
      then have "st' = st\<lparr>loadingMessage := m\<rparr>" by simp
      then show ?thesis by blast
    qed
  qed
qed

lemma slideLoop_throws:
  assumes "\<exists>(i, c) \<in> set ics. isl (generateSlideJson e (SlideRequest c (i + 1) n t))"
  shows "\<exists>err req st' w1.
           slideLoop e t n ics generated st w = (Inl err, st', emit [Started req, Settled req False] w1) \<and>
           generateSlideJson e req = Inl err"
  using assms
proof (induction ics arbitrary: generated st w)
  case Nil
  then show ?case by simp
next
  case (Cons ic rest)
  obtain index chunk where ic: "ic = (index, chunk)" by (cases ic)
  let ?req = "SlideRequest chunk (index + 1) n t"
  let ?st1 = "st\<lparr>loadingMessage :=
                  js ''Generating slide '' @ decimal (index + 1) @ js '' of '' @ decimal n @ js ''...''\<rparr>"
  show ?case
  proof (cases "generateSlideJson e ?req")
    case (Inl err)
    then have "slideLoop e t n (ic # rest) generated st w
               = (Inl err, ?st1, emit [Started ?req, Settled ?req False] w)"
      using ic by (simp add: generateSlideFromChunk_throws)
    with Inl show ?thesis by blast
  next
    case (Inr parsed)
    then obtain slide w' where g: "generateSlideFromChunk e chunk (index + 1) n t w = (Inr slide, w')"
      using generateSlideFromChunk_returns by blast
    from Inr Cons.prems ic
    have "\<exists>(i, c) \<in> set rest. isl (generateSlideJson e (SlideRequest c (i + 1) n t))"
      by auto
    then obtain err req st' w1 where
      r: "slideLoop e t n rest (generated @ [slide]) ?st1 w' = (Inl err, st', emit [Started req, Settled req False] w1)"
      and j: "generateSlideJson e req = Inl err"
      using Cons.IH by blast
    have "slideLoop e t n (ic # rest) generated st w
          = slideLoop e t n rest (generated @ [slide]) ?st1 w'"
      using g ic by simp
    with r have "slideLoop e t n (ic # rest) generated st w
          = (Inl err, st', emit [Started req, Settled req False] w1)"
      by simp
    with j show ?thesis
      by (intro exI conjI) assumption+
  qed
qed

lemma entries_nth:
  "i < length xs \<Longrightarrow> (i, xs ! i) \<in> set (entries xs)"
  unfolding entries_def in_set_zip by (rule exI [of _ i]) simp

lemma text_call_failure_resets_to_input:
  assumes "aTextCallThrows e data"
  shows "\<exists>err req w1.
           handlePresentationGeneration e data st w =
             (st\<lparr> error := Some (js ''Failed to generate a presentation. Please check your file and try again.''),
                  appState := INPUT, isLoading := False, loadingMessage := [] \<rparr>,
              emit [ConsoleError [Exception err]] (emit [Started req, Settled req False] w1)) \<and>
           (generateText e req = Inl err \<or> generateSlideJson e req = Inl err) \<and>
           presentationDocument (fst (handlePresentationGeneration e data st w)) = presentationDocument st"
proof -
  let ?chunks = "presentationChunks data"
  let ?treq = "TitleRequest (take 2000 (?chunks ! 0))"
  let ?st0 = "st\<lparr>isLoading := True, loadingMessage := js ''Preparing presentation...'', error := None\<rparr>"
  let ?st1 = "?st0\<lparr>loadingMessage := js ''Generating presentation title...''\<rparr>"
  let ?msg = "js ''Failed to generate a presentation. Please check your file and try again.''"
  from assms have ne: "?chunks \<noteq> []"
    by (simp add: aTextCallThrows_def Let_def)
  have "\<exists>err req st2 w1.
          tryPresentationGeneration e data ?st0 w = (Inl err, st2, emit [Started req, Settled req False] w1) \<and>
          (generateText e req = Inl err \<or> generateSlideJson e req = Inl err) \<and>
          (\<exists>m. st2 = ?st0\<lparr>loadingMessage := m\<rparr>)"
  proof (cases "generateText e ?treq")
    case (Inl err)
    then have "tryPresentationGeneration e data ?st0 w
               = (Inl err, ?st1, emit [Started ?treq, Settled ?treq False] w)"
      using ne by (simp add: tryPresentationGeneration_def generatePresentationTitle_def await_def Let_def)
    moreover have "?st1 = ?st0\<lparr>loadingMessage := js ''Generating presentation title...''\<rparr>"
      by simp
    ultimately show ?thesis using Inl by blast
  next
    case (Inr answer)
    let ?title = "removeQuotes (trim answer)"
    let ?w1 = "emit [Started ?treq, Settled ?treq True] w"
    let ?w2 = "?w1\<lparr>uuids := Suc (uuids ?w1)\<rparr>"
    from assms Inr obtain i where i: "i < length ?chunks"
      and f: "isl (generateSlideJson e (SlideRequest (?chunks ! i) (i + 1) (length ?chunks) ?title))"
      by (auto simp: aTextCallThrows_def Let_def)
    from i have "(i, ?chunks ! i) \<in> set (entries ?chunks)"
      by (rule entries_nth)
    with f have "\<exists>(i, c) \<in> set (entries ?chunks).
                   isl (generateSlideJson e (SlideRequest c (i + 1) (length ?chunks) ?title))"
      by blast
    then obtain err req st2 w3 where
      l: "slideLoop e ?title (length ?chunks) (entries ?chunks) [] ?st1 ?w2
            = (Inl err, st2, emit [Started req, Settled req False] w3)"
      and j: "generateSlideJson e req = Inl err"
      using slideLoop_throws by blast
    from l obtain m where "st2 = ?st1\<lparr>loadingMessage := m\<rparr>"
      using slideLoop_frame by blast
    then have m: "st2 = ?st0\<lparr>loadingMessage := m\<rparr>" by simp
    have "tryPresentationGeneration e data ?st0 w
            = (Inl err, st2, emit [Started req, Settled req False] w3)"
      using ne Inr l
      by (simp add: tryPresentationGeneration_def generatePresentationTitle_def await_def Let_def
          crypto_randomUUID_def)
    with j m show ?thesis by blast
  qed
  then obtain err req st2 w1 m where
    t: "tryPresentationGeneration e data ?st0 w = (Inl err, st2, emit [Started req, Settled req False] w1)"
    and o: "generateText e req = Inl err \<or> generateSlideJson e req = Inl err"
    and m: "st2 = ?st0\<lparr>loadingMessage := m\<rparr>"
    by blast
  have h: "handlePresentationGeneration e data st w =
             (st\<lparr> error := Some ?msg, appState := INPUT, isLoading := False, loadingMessage := [] \<rparr>,
              emit [ConsoleError [Exception err]] (emit [Started req, Settled req False] w1))"
    using t m by (simp add: handlePresentationGeneration_def Let_def)
  then have "presentationDocument (fst (handlePresentationGeneration e data st w)) = presentationDocument st"
    by simp
  with h o show ?thesis by blast
qed


lemma slideLoop_succeeds:
  "\<forall>(i, c) \<in> set ics. \<not> isl (generateSlideJson e (SlideRequest c (i + 1) n t)) \<Longrightarrow>
   \<exists>made st' w'. slideLoop e t n ics generated st w = (Inr made, st', w')"
proof (induction ics arbitrary: generated st w)
  case Nil
  then show ?case by simp
next
  case (Cons ic rest)
  obtain index chunk where ic: "ic = (index, chunk)" by (cases ic)
  from Cons.prems ic obtain parsed where
    "generateSlideJson e (SlideRequest chunk (index + 1) n t) = Inr parsed"
    by (cases "generateSlideJson e (SlideRequest chunk (index + 1) n t)") auto
  then obtain slide w1 where g: "generateSlideFromChunk e chunk (index + 1) n t w = (Inr slide, w1)"
    using generateSlideFromChunk_returns by blast
  from Cons.prems have "\<forall>(i, c) \<in> set rest. \<not> isl (generateSlideJson e (SlideRequest c (i + 1) n t))"
    by simp
  from Cons.IH [OF this] g ic show ?case
    by simp
qed

lemma entries_set:
  "(i, c) \<in> set (entries xs) \<Longrightarrow> i < length xs \<and> c = xs ! i"
  by (auto simp: entries_def in_set_zip)

lemma no_text_call_throws_publishes:
  assumes n: "\<not> aTextCallThrows e data" and ne: "presentationChunks data \<noteq> []"
  shows "\<exists>d. presentationDocument (fst (handlePresentationGeneration e data st w)) = Some d \<and>
             appState (fst (handlePresentationGeneration e data st w)) = EDITING \<and>
             error (fst (handlePresentationGeneration e data st w)) = None"
proof -
  let ?chunks = "presentationChunks data"
  let ?treq = "TitleRequest (take 2000 (?chunks ! 0))"
  let ?st0 = "st\<lparr>isLoading := True, loadingMessage := js ''Preparing presentation...'', error := None\<rparr>"
  let ?st1 = "?st0\<lparr>loadingMessage := js ''Generating presentation title...''\<rparr>"
  from n ne obtain answer where ti: "generateText e ?treq = Inr answer"
    by (cases "generateText e ?treq") (auto simp: aTextCallThrows_def Let_def)
  let ?title = "removeQuotes (trim answer)"
  let ?w1 = "emit [Started ?treq, Settled ?treq True] w"
  let ?w2 = "?w1\<lparr>uuids := Suc (uuids ?w1)\<rparr>"
  from n ne ti have "\<forall>i < length ?chunks.
      \<not> isl (generateSlideJson e (SlideRequest (?chunks ! i) (i + 1) (length ?chunks) ?title))"
    by (simp add: aTextCallThrows_def Let_def)
  then have "\<forall>(i, c) \<in> set (entries ?chunks).
      \<not> isl (generateSlideJson e (SlideRequest c (i + 1) (length ?chunks) ?title))"
    using entries_set by fastforce
  then obtain made st2 w3 where
    l: "slideLoop e ?title (length ?chunks) (entries ?chunks) [] ?st1 ?w2 = (Inr made, st2, w3)"
    using slideLoop_succeeds by blast
  from l obtain m where m: "st2 = ?st1\<lparr>loadingMessage := m\<rparr>"
    using slideLoop_frame by blast
  show ?thesis
    using ne ti l m
    by (simp add: handlePresentationGeneration_def tryPresentationGeneration_def
        generatePresentationTitle_def await_def Let_def crypto_randomUUID_def)
qed

lemma two_chunks:
  "presentationChunks (replicate 3001 0x61) = [replicate 3000 0x61, [0x61]]"
proof -
  have m: "(length (replicate 3001 (0x61::code_unit)) + (CHUNK_SIZE - 1)) div CHUNK_SIZE = 2"
    by (simp add: CHUNK_SIZE_def)
  have u: "[0..<2] = [0, Suc 0]"
    by (simp add: upt_rec)
  show ?thesis
    unfolding presentationChunks_slices m
    by (simp add: slices_def u CHUNK_SIZE_def)
qed

lemma report_title: "removeQuotes (trim (js ''Report'')) = js ''Report''"
  by (simp add: removeQuotes_def trim_def isWhiteSpace_def js_def)

lemma entries_two: "entries [a, b] = [(0, a), (1, b)]"
  by (simp add: entries_def upt_rec)

lemma scripted_text: "generateText (scriptedEnv fs fc b) r = Inr (js ''Report'')"
  by (simp add: scriptedEnv_def)

lemma scripted_slide_fails:
  "k \<in> set fs \<Longrightarrow>
   generateSlideJson (scriptedEnv fs fc b) (SlideRequest c k n t) = Inl (newError ''503 Service Unavailable'')"
  by (simp add: scriptedEnv_def)

lemma scripted_slide_answers:
  "k \<notin> set fs \<Longrightarrow>
   generateSlideJson (scriptedEnv fs fc b) (SlideRequest c k n t) =
     Inr \<lparr> parsed_title = js ''Slide '' @ decimal k, parsed_content = None,
            parsed_image_prompt = js ''chart'' \<rparr>"
  by (simp add: scriptedEnv_def)

lemma scripted_images_fail:
  "generateImages (scriptedEnv fs fc True) r = Inl (newError ''quota exceeded'')"
  by (simp add: scriptedEnv_def)

lemma failing_images_run:
  "handlePresentationGeneration (scriptedEnv [] [] True) (replicate 3001 0x61)
          initialPresentationApp emptyWorld =
     (initialPresentationApp
        \<lparr>appState := EDITING,
         presentationDocument :=
           Some \<lparr> presentation_id = js ''id-'' @ decimal 0, presentation_title = js ''Report'',
                  slides =
                    [\<lparr> slide_id = js ''id-'' @ decimal 1, slide_title = js ''Slide '' @ decimal 1,
                       content = [], imageUrl = None \<rparr>,
                     \<lparr> slide_id = js ''id-'' @ decimal 2, slide_title = js ''Slide '' @ decimal 2,
                       content = [], imageUrl = None \<rparr>] \<rparr>\<rparr>,
      \<lparr> uuids = 3,
        trace =
          [Started (TitleRequest (replicate 2000 0x61)),
           Settled (TitleRequest (replicate 2000 0x61)) True,
           Started (SlideRequest (replicate 3000 0x61) 1 2 (js ''Report'')),
           Settled (SlideRequest (replicate 3000 0x61) 1 2 (js ''Report'')) True,
           Started (ImageRequest (js ''chart'')),
           Settled (ImageRequest (js ''chart'')) False,
           ConsoleError [Text (js ''Image generation failed, returning null''),
                         Exception (newError ''quota exceeded'')],
           Started (SlideRequest [0x61] 2 2 (js ''Report'')),
           Settled (SlideRequest [0x61] 2 2 (js ''Report'')) True,
           Started (ImageRequest (js ''chart'')),
           Settled (ImageRequest (js ''chart'')) False,
           ConsoleError [Text (js ''Image generation failed, returning null''),
                         Exception (newError ''quota exceeded'')]] \<rparr>)"
  by (simp add: handlePresentationGeneration_def tryPresentationGeneration_def two_chunks
        generatePresentationTitle_def await_def scripted_text report_title crypto_randomUUID_def
        entries_two generateSlideFromChunk_def generateSlideImage_def scripted_slide_answers
        scripted_images_fail emit_def emptyWorld_def orNull_def
        initialPresentationApp_def Let_def) (simp add: scriptedEnv_def numeral_2_eq_2)

text \<open>
  The claim C7 as stated fails for the image calls, which are AI calls made during
  \<open>handlePresentationGeneration\<close>: with a backend whose image API throws on every call, the
  handler ends in the state \<open>EDITING\<close> with the document published, every slide with
  \<open>imageUrl\<close> \<open>null\<close>, and no error set.
\<close>

theorem image_call_failure_publishes_document:
  "generateImages (scriptedEnv [] [] True) (ImageRequest (js ''chart''))
     = Inl (newError ''quota exceeded'') \<and>
   Settled (ImageRequest (js ''chart'')) False \<in>
     set (trace (snd (handlePresentationGeneration (scriptedEnv [] [] True) (replicate 3001 0x61)
                        initialPresentationApp emptyWorld))) \<and>
   appState (fst (handlePresentationGeneration (scriptedEnv [] [] True) (replicate 3001 0x61)
                    initialPresentationApp emptyWorld)) = EDITING \<and>
   error (fst (handlePresentationGeneration (scriptedEnv [] [] True) (replicate 3001 0x61)
                 initialPresentationApp emptyWorld)) = None \<and>
   presentationDocument (fst (handlePresentationGeneration (scriptedEnv [] [] True) (replicate 3001 0x61)
                                initialPresentationApp emptyWorld)) =
     Some \<lparr> presentation_id = js ''id-'' @ decimal 0, presentation_title = js ''Report'',
            slides =
              [\<lparr> slide_id = js ''id-'' @ decimal 1, slide_title = js ''Slide '' @ decimal 1,
                 content = [], imageUrl = None \<rparr>,
               \<lparr> slide_id = js ''id-'' @ decimal 2, slide_title = js ''Slide '' @ decimal 2,
                 content = [], imageUrl = None \<rparr>] \<rparr>"
  unfolding failing_images_run
  by (simp add: scripted_images_fail initialPresentationApp_def)

text \<open>
  C7, amended. If one of the calls that \<open>handlePresentationGeneration\<close> awaits throws (the
  title call, or the text call of a slide), the handler returns with the generic error
  message set, the app state \<open>INPUT\<close>, the loading flag and message cleared and every other
  part of the state, the presentation document among them, as it was before the call; the
  last events of the trace are the rejected call and the \<open>console.error\<close> of the exception
  it threw. An exception of the image API is not such a failure: when there is text to
  process and neither the title call nor a text call throws, the handler publishes the
  document, in the state \<open>EDITING\<close> and with no error, whatever the image API does.
\<close>

theorem ai_failure_resets_to_input:
  "(aTextCallThrows e data \<longrightarrow>
      (\<exists>err req w1.
           handlePresentationGeneration e data st w =
             (st\<lparr> error := Some (js ''Failed to generate a presentation. Please check your file and try again.''),
                  appState := INPUT, isLoading := False, loadingMessage := [] \<rparr>,
              emit [ConsoleError [Exception err]] (emit [Started req, Settled req False] w1)) \<and>
           (generateText e req = Inl err \<or> generateSlideJson e req = Inl err) \<and>
           presentationDocument (fst (handlePresentationGeneration e data st w)) = presentationDocument st)) \<and>
   (\<not> aTextCallThrows e data \<and> presentationChunks data \<noteq> [] \<longrightarrow>
      (\<exists>d. presentationDocument (fst (handlePresentationGeneration e data st w)) = Some d \<and>
           appState (fst (handlePresentationGeneration e data st w)) = EDITING \<and>
           error (fst (handlePresentationGeneration e data st w)) = None))"
proof (intro conjI impI)
  assume "aTextCallThrows e data"
  then show "\<exists>err req w1.
           handlePresentationGeneration e data st w =
             (st\<lparr> error := Some (js ''Failed to generate a presentation. Please check your file and try again.''),
                  appState := INPUT, isLoading := False, loadingMessage := [] \<rparr>,
              emit [ConsoleError [Exception err]] (emit [Started req, Settled req False] w1)) \<and>
           (generateText e req = Inl err \<or> generateSlideJson e req = Inl err) \<and>
           presentationDocument (fst (handlePresentationGeneration e data st w)) = presentationDocument st"
    by (rule text_call_failure_resets_to_input)
next
  assume a: "\<not> aTextCallThrows e data \<and> presentationChunks data \<noteq> []"
  show "\<exists>d. presentationDocument (fst (handlePresentationGeneration e data st w)) = Some d \<and>
           appState (fst (handlePresentationGeneration e data st w)) = EDITING \<and>
           error (fst (handlePresentationGeneration e data st w)) = None"
    using a [THEN conjunct1] a [THEN conjunct2] by (rule no_text_call_throws_publishes)
qed

theorem ai_failure_resets_to_input_witness:
  "aTextCallThrows (scriptedEnv [2] [] False) (replicate 3001 0x61) \<and>
   fst (handlePresentationGeneration (scriptedEnv [2] [] False) (replicate 3001 0x61)
          initialPresentationApp emptyWorld) =
     initialPresentationApp
       \<lparr>error := Some (js ''Failed to generate a presentation. Please check your file and try again.'')\<rparr> \<and>
   \<not> aTextCallThrows (scriptedEnv [] [] True) (replicate 3001 0x61) \<and>
   presentationChunks (replicate 3001 0x61) \<noteq> [] \<and>
   appState (fst (handlePresentationGeneration (scriptedEnv [] [] True) (replicate 3001 0x61)
                    initialPresentationApp emptyWorld)) = EDITING \<and>
   error (fst (handlePresentationGeneration (scriptedEnv [] [] True) (replicate 3001 0x61)
                 initialPresentationApp emptyWorld)) = None"
proof -
  let ?e = "scriptedEnv [2] [] False"
  let ?i = "scriptedEnv [] [] True"
  let ?data = "replicate 3001 (0x61 :: code_unit)"
  have a: "aTextCallThrows ?e ?data"
    unfolding aTextCallThrows_def two_chunks Let_def
    by (simp add: scripted_text report_title) (rule exI [of _ "Suc 0"], simp add: scripted_slide_fails)
  from ai_failure_resets_to_input [of ?e ?data initialPresentationApp emptyWorld, THEN conjunct1, THEN mp, OF a]
  have "fst (handlePresentationGeneration ?e ?data initialPresentationApp emptyWorld) =
          initialPresentationApp
            \<lparr>error := Some (js ''Failed to generate a presentation. Please check your file and try again.''),
             appState := INPUT, isLoading := False, loadingMessage := []\<rparr>"
    by auto
  then have 1: "fst (handlePresentationGeneration ?e ?data initialPresentationApp emptyWorld) =
          initialPresentationApp
            \<lparr>error := Some (js ''Failed to generate a presentation. Please check your file and try again.'')\<rparr>"
    by (simp add: initialPresentationApp_def)
  have n: "\<not> aTextCallThrows ?i ?data"
    unfolding aTextCallThrows_def two_chunks Let_def
    by (simp add: scripted_text report_title scripted_slide_answers)
  have c: "presentationChunks ?data \<noteq> []"
    by (simp add: two_chunks)
  from n c have b: "\<not> aTextCallThrows ?i ?data \<and> presentationChunks ?data \<noteq> []"
    by (rule conjI)
  from ai_failure_resets_to_input [of ?i ?data initialPresentationApp emptyWorld, THEN conjunct2, THEN mp, OF b]
  have 2: "appState (fst (handlePresentationGeneration ?i ?data initialPresentationApp emptyWorld)) = EDITING"
    and 3: "error (fst (handlePresentationGeneration ?i ?data initialPresentationApp emptyWorld)) = None"
    by auto
  from a 1 n c 2 3 show ?thesis by (intro conjI)
qed


section \<open>Properties of the chapter loop\<close>

lemma startedRequests_append:
  "startedRequests (xs @ ys) = startedRequests xs @ startedRequests ys"
  by (induction xs rule: startedRequests.induct) simp_all

lemma trace_crypto_randomUUID:
  "crypto_randomUUID e w = (u, w') \<Longrightarrow> trace w' = trace w"
  by (auto simp: crypto_randomUUID_def)

lemma trace_scaffoldPages:
  "scaffoldPages e ps i w = (pgs, w') \<Longrightarrow> trace w' = trace w"
proof (induction ps arbitrary: i w pgs w')
  case Nil
  then show ?case by simp
next
  case (Cons p ps)
  obtain rest w2 where r: "scaffoldPages e ps (i + 1) (w\<lparr>uuids := Suc (uuids w)\<rparr>) = (rest, w2)"
    by (cases "scaffoldPages e ps (i + 1) (w\<lparr>uuids := Suc (uuids w)\<rparr>)")
  with Cons.prems have "w' = w2"
    by (simp add: crypto_randomUUID_def Let_def)
  moreover from r have "trace w2 = trace (w\<lparr>uuids := Suc (uuids w)\<rparr>)"
    by (rule Cons.IH)
  ultimately show ?case by simp
qed

lemma generateChapterFromChunk_throws:
  "generateChapterJson e (chapterRequest cc title i) = Inl err \<Longrightarrow>
   generateChapterFromChunk e (cc ! i) (i + 1) (length cc) title w =
     (Inl err, emit [Started (chapterRequest cc title i), Settled (chapterRequest cc title i) False] w)"
  by (simp add: generateChapterFromChunk_def chapterRequest_def await_def Let_def)

lemma generateChapterFromChunk_returns:
  "generateChapterJson e (chapterRequest cc title i) = Inr parsed \<Longrightarrow>
   \<exists>ch w'. generateChapterFromChunk e (cc ! i) (i + 1) (length cc) title w = (Inr ch, w') \<and>
     trace w' = trace w @ [Started (chapterRequest cc title i), Settled (chapterRequest cc title i) True]"
proof -
  assume a: "generateChapterJson e (chapterRequest cc title i) = Inr parsed"
  let ?w1 = "emit [Started (chapterRequest cc title i), Settled (chapterRequest cc title i) True] w"
  let ?w2 = "?w1\<lparr>uuids := Suc (uuids ?w1)\<rparr>"
  obtain ps w3 where s: "scaffoldPages e (parsed_pages parsed) 0 ?w2 = (ps, w3)"
    by (cases "scaffoldPages e (parsed_pages parsed) 0 ?w2")
  then have "trace w3 = trace ?w2" by (rule trace_scaffoldPages)
  then have "trace w3 = trace w @ [Started (chapterRequest cc title i), Settled (chapterRequest cc title i) True]"
    by (simp add: emit_def)
  moreover have "generateChapterFromChunk e (cc ! i) (i + 1) (length cc) title w =
      (Inr \<lparr> chapter_id = randomUUID e (uuids ?w1), chapter_title = parsed_chapter_title parsed,
             summary = js ''AI summary will appear here.'', pages = ps \<rparr>, w3)"
    using a s
    by (simp add: generateChapterFromChunk_def chapterRequest_def await_def Let_def crypto_randomUUID_def)
  ultimately show ?thesis by blast
qed

lemma signalAborted_perform:
  "signalAborted st \<Longrightarrow> signalAborted (perform a st)"
  by (cases a) (simp_all add: signalAborted_def handleStopGeneration_def handleReset_def abort_def)

lemma signalAborted_performAll:
  "signalAborted st \<Longrightarrow> signalAborted (performAll actions st)"
  unfolding performAll_def
  by (induction actions arbitrary: st) (simp_all add: signalAborted_perform)

lemma perform_aborts:
  "generationController st \<noteq> None \<Longrightarrow> signalAborted (perform a st)"
  by (cases a) (auto simp: signalAborted_def handleStopGeneration_def handleReset_def abort_def)

lemma performAll_aborts:
  "generationController st \<noteq> None \<Longrightarrow> actions \<noteq> [] \<Longrightarrow> signalAborted (performAll actions st)"
proof (cases actions)
  case Nil
  assume "actions \<noteq> []"
  with Nil show ?thesis by simp
next
  case (Cons a rest)
  assume "generationController st \<noteq> None"
  then have "signalAborted (perform a st)" by (rule perform_aborts)
  then have "signalAborted (performAll rest (perform a st))" by (rule signalAborted_performAll)
  with Cons show ?thesis by (simp add: performAll_def)
qed

text \<open>The ways an iteration of the chapter loop goes.\<close>

lemma chapterLoop_end:
  "\<not> i < length cc \<Longrightarrow>
   chapterLoop e pressed docId cc title i st w =
     (st\<lparr>generationStatus := \<lparr>active = False, completed = length cc, totalChapters = length cc\<rparr>,
         robotState := idle\<rparr>, w)"
  by (subst chapterLoop.simps) simp

lemma chapterLoop_stopped:
  "i < length cc \<Longrightarrow> signalAborted st \<Longrightarrow>
   chapterLoop e pressed docId cc title i st w =
     (st\<lparr>generationStatus := (generationStatus st)\<lparr>active := False\<rparr>, robotState := idle\<rparr>,
      emit [ConsoleLog (js ''Generation stopped by user.'')] w)"
  by (subst chapterLoop.simps) simp

lemma chapterLoop_answered:
  assumes "i < length cc" "\<not> signalAborted st"
    and "generateChapterFromChunk e (cc ! i) (i + 1) (length cc) title w = (Inr ch, w1)"
  shows "chapterLoop e pressed docId cc title i st w =
         chapterLoop e pressed docId cc title (i + 1)
           ((performAll (pressed i) st)
              \<lparr>storyDocument := storeChapter docId i ch (storyDocument (performAll (pressed i) st)),
               generationStatus := (generationStatus (performAll (pressed i) st))\<lparr>completed := i + 1\<rparr>\<rparr>)
           w1"
  using assms by (subst chapterLoop.simps) (simp add: setStoryDocument_def Let_def)

lemma chapterLoop_aborting:
  assumes "i < length cc" "\<not> signalAborted st"
    and "generateChapterJson e (chapterRequest cc title i) = Inl err" "isAbortError err"
  shows "chapterLoop e pressed docId cc title i st w =
         (performAll (pressed i) st,
          emit [Started (chapterRequest cc title i), Settled (chapterRequest cc title i) False] w)"
  using assms(1,2,4) generateChapterFromChunk_throws [OF assms(3), of w]
  by (subst chapterLoop.simps) (simp add: Let_def)

lemma chapterLoop_failed:
  assumes "i < length cc" "\<not> signalAborted st"
    and "generateChapterJson e (chapterRequest cc title i) = Inl err" "\<not> isAbortError err"
    and "setStoryDocument (markFailed i) (performAll (pressed i) st)
           (emit [ConsoleError [Text (js ''Failed to generate chapter '' @ decimal (i + 1)), Exception err]]
              (emit [Started (chapterRequest cc title i), Settled (chapterRequest cc title i) False] w))
         = (st2, w2)"
  shows "chapterLoop e pressed docId cc title i st w =
         chapterLoop e pressed docId cc title (i + 1) st2 w2"
  using assms(1,2,4,5) generateChapterFromChunk_throws [OF assms(3), of w]
  by (subst chapterLoop.simps) (simp add: Let_def)

lemma oneAtATime_append:
  "oneAtATime xs \<Longrightarrow> oneAtATime ys \<Longrightarrow> oneAtATime (xs @ ys)"
  by (induction xs rule: oneAtATime.induct) simp_all

lemma itemRequests_append:
  "itemRequests (xs @ ys) = itemRequests xs @ itemRequests ys"
  by (simp add: itemRequests_def startedRequests_append)

lemma arrayGet_arraySet:
  "arrayGet (arraySet xs j v) k = (if k = j then Some v else arrayGet xs k)"
  by (auto simp: arrayGet_def arraySet_def nth_append nth_Cons')

lemma setStoryDocument_trace:
  "setStoryDocument updater st w = (st2, w2) \<Longrightarrow>
   \<exists>more. trace w2 = trace w @ more \<and> oneAtATime more \<and> itemRequests more = []"
  by (auto simp: setStoryDocument_def emit_def itemRequests_def split: sum.splits)

lemma itemRequests_chapter_call:
  "itemRequests [Started (chapterRequest cc title i), Settled (chapterRequest cc title i) b]
     = [chapterRequest cc title i]"
  by (simp add: itemRequests_def chapterRequest_def)

text \<open>
  The events of a run of the chapter loop, whatever the backend answers and whatever the
  user presses: the calls are made one at a time, and the chapter requests started are
  those of the indices from \<open>i\<close> up to some \<open>m\<close>, in this order.
\<close>

lemma chapterLoop_events:
  "\<exists>new m. trace (snd (chapterLoop e pressed docId cc title i st w)) = trace w @ new \<and>
      oneAtATime new \<and> i \<le> m \<and> m \<le> max i (length cc) \<and>
      itemRequests new = map (chapterRequest cc title) [i..<m]"
proof (induction "length cc - i" arbitrary: i st w)
  case 0
  then have "chapterLoop e pressed docId cc title i st w =
     (st\<lparr>generationStatus := \<lparr>active = False, completed = length cc, totalChapters = length cc\<rparr>,
         robotState := idle\<rparr>, w)"
    by (intro chapterLoop_end) simp
  then have "trace (snd (chapterLoop e pressed docId cc title i st w)) = trace w @ [] \<and>
      oneAtATime [] \<and> i \<le> i \<and> i \<le> max i (length cc) \<and>
      itemRequests [] = map (chapterRequest cc title) [i..<i]"
    by (simp add: itemRequests_def)
  then show ?case by blast
next
  case (Suc n)
  then have i: "i < length cc" by simp
  let ?r = "chapterRequest cc title i"
  let ?loop = "chapterLoop e pressed docId cc title"
  have up: "[i..<m] = i # [i + 1..<m]" if "i + 1 \<le> m" for m
    using that by (simp add: upt_conv_Cons)
  have n: "n = length cc - (i + 1)"
    using Suc.hyps(2) by simp
  have mx: "m \<le> max i (length cc)" if "m \<le> max (i + 1) (length cc)" for m
    using that i by simp
  show ?case
  proof (cases "signalAborted st")
    case True
    with i have "?loop i st w =
       (st\<lparr>generationStatus := (generationStatus st)\<lparr>active := False\<rparr>, robotState := idle\<rparr>,
        emit [ConsoleLog (js ''Generation stopped by user.'')] w)"
      by (rule chapterLoop_stopped)
    then have "trace (snd (?loop i st w)) = trace w @ [ConsoleLog (js ''Generation stopped by user.'')] \<and>
        oneAtATime [ConsoleLog (js ''Generation stopped by user.'')] \<and> i \<le> i \<and> i \<le> max i (length cc) \<and>
        itemRequests [ConsoleLog (js ''Generation stopped by user.'')] = map (chapterRequest cc title) [i..<i]"
      by (simp add: emit_def itemRequests_def)
    then show ?thesis by blast
  next
    case False
    show ?thesis
    proof (cases "generateChapterJson e ?r")
      case (Inr parsed)
      from generateChapterFromChunk_returns [OF Inr, of w] obtain ch w1 where
        g: "generateChapterFromChunk e (cc ! i) (i + 1) (length cc) title w = (Inr ch, w1)"
        and t1: "trace w1 = trace w @ [Started ?r, Settled ?r True]"
        by blast
      let ?st1 = "performAll (pressed i) st"
      let ?st2 = "?st1\<lparr>storyDocument := storeChapter docId i ch (storyDocument ?st1),
                      generationStatus := (generationStatus ?st1)\<lparr>completed := i + 1\<rparr>\<rparr>"
      have step: "?loop i st w = ?loop (i + 1) ?st2 w1"
        using i False g by (rule chapterLoop_answered)
      from Suc.hyps(1) [OF n, of ?st2 w1] obtain new m where
        r: "trace (snd (?loop (i + 1) ?st2 w1)) = trace w1 @ new" "oneAtATime new"
           "i + 1 \<le> m" "m \<le> max (i + 1) (length cc)"
           "itemRequests new = map (chapterRequest cc title) [i + 1..<m]"
        by blast
      have "trace (snd (?loop i st w)) = trace w @ ([Started ?r, Settled ?r True] @ new)"
        using step r(1) t1 by simp
      moreover have "oneAtATime ([Started ?r, Settled ?r True] @ new)"
        using r(2) by simp
      moreover have "itemRequests ([Started ?r, Settled ?r True] @ new) = map (chapterRequest cc title) [i..<m]"
        unfolding itemRequests_append itemRequests_chapter_call r(5) up [OF r(3)] by simp
      moreover have "i \<le> m" using r(3) by simp
      moreover have "m \<le> max i (length cc)" using r(4) by (rule mx)
      ultimately show ?thesis by blast
    next
      case (Inl err)
      show ?thesis
      proof (cases "isAbortError err")
        case True
        have "?loop i st w = (performAll (pressed i) st, emit [Started ?r, Settled ?r False] w)"
          using i False Inl True by (rule chapterLoop_aborting)
        then have "trace (snd (?loop i st w)) = trace w @ [Started ?r, Settled ?r False]"
          by (simp add: emit_def)
        moreover have "oneAtATime [Started ?r, Settled ?r False]" by simp
        moreover have "itemRequests [Started ?r, Settled ?r False] = map (chapterRequest cc title) [i..<i + 1]"
          unfolding itemRequests_chapter_call by simp
        moreover have "i \<le> i + 1" "i + 1 \<le> max i (length cc)" using i by simp_all
        ultimately show ?thesis by blast
      next
        case na: False
        let ?c = "ConsoleError [Text (js ''Failed to generate chapter '' @ decimal (i + 1)), Exception err]"
        let ?w1 = "emit [?c] (emit [Started ?r, Settled ?r False] w)"
        obtain st2 w2 where s: "setStoryDocument (markFailed i) (performAll (pressed i) st) ?w1 = (st2, w2)"
          by (cases "setStoryDocument (markFailed i) (performAll (pressed i) st) ?w1")
        then obtain more where m: "trace w2 = trace ?w1 @ more" "oneAtATime more" "itemRequests more = []"
          using setStoryDocument_trace by blast
        have step: "?loop i st w = ?loop (i + 1) st2 w2"
          using i False Inl na s by (rule chapterLoop_failed)
        from Suc.hyps(1) [OF n, of st2 w2] obtain new m where
          r: "trace (snd (?loop (i + 1) st2 w2)) = trace w2 @ new" "oneAtATime new"
             "i + 1 \<le> m" "m \<le> max (i + 1) (length cc)"
             "itemRequests new = map (chapterRequest cc title) [i + 1..<m]"
          by blast
        let ?new = "[Started ?r, Settled ?r False] @ [?c] @ more @ new"
        have "trace (snd (?loop i st w)) = trace w @ ?new"
          using step r(1) m(1) by (simp add: emit_def)
        moreover have "oneAtATime ?new"
          using r(2) m(2) by (simp add: oneAtATime_append)
        moreover have "itemRequests ?new = map (chapterRequest cc title) [i..<m]"
          unfolding itemRequests_append itemRequests_chapter_call r(5) m(3) up [OF r(3)]
          by (simp add: itemRequests_def)
        moreover have "i \<le> m" using r(3) by simp
        moreover have "m \<le> max i (length cc)" using r(4) by (rule mx)
        ultimately show ?thesis by blast
      qed
    qed
  qed
qed

lemma performAll_keeps_document:
  "PressStartOver \<notin> set actions \<Longrightarrow> storyDocument (performAll actions st) = storyDocument st"
  unfolding performAll_def
proof (induction actions arbitrary: st)
  case Nil
  then show ?case by simp
next
  case (Cons a rest)
  then have "a = PressStop" by (cases a) simp_all
  with Cons show ?case by (simp add: handleStopGeneration_def)
qed

lemma setStoryDocument_markFailed_document:
  assumes "setStoryDocument (markFailed i) st w = (st2, w2)" "storyDocument st = Some d"
  shows "\<exists>d2. storyDocument st2 = Some d2 \<and> story_id d2 = story_id d \<and>
              story_title d2 = story_title d \<and>
              (\<forall>k. k \<noteq> i \<longrightarrow> arrayGet (chapters d2) k = arrayGet (chapters d) k)"
  using assms
  by (cases "arrayGet (chapters d) i")
     (auto simp: setStoryDocument_def markFailed_def arrayGet_arraySet)

lemma chapterLoop_stores:
  assumes "storyDocument st = Some d" "story_id d = docId"
    and nr: "\<forall>k. PressStartOver \<notin> set (pressed k)"
  shows "\<exists>new m d'.
      trace (snd (chapterLoop e pressed docId cc title i st w)) = trace w @ new \<and> i \<le> m \<and>
      itemRequests new = map (chapterRequest cc title) [i..<m] \<and>
      storyDocument (fst (chapterLoop e pressed docId cc title i st w)) = Some d' \<and>
      story_id d' = docId \<and> story_title d' = story_title d \<and>
      (\<forall>k < i. arrayGet (chapters d') k = arrayGet (chapters d) k) \<and>
      (\<forall>k parsed.
          i \<le> k \<and> k < m \<and> generateChapterJson e (chapterRequest cc title k) = Inr parsed \<longrightarrow>
          (\<exists>ch wk. fst (generateChapterFromChunk e (cc ! k) (k + 1) (length cc) title wk) = Inr ch \<and>
                   arrayGet (chapters d') k = Some ch))"
  using assms(1,2)
proof (induction "length cc - i" arbitrary: i st w d)
  case 0
  then have "chapterLoop e pressed docId cc title i st w =
     (st\<lparr>generationStatus := \<lparr>active = False, completed = length cc, totalChapters = length cc\<rparr>,
         robotState := idle\<rparr>, w)"
    by (intro chapterLoop_end) simp
  with 0 have "trace (snd (chapterLoop e pressed docId cc title i st w)) = trace w @ [] \<and> i \<le> i \<and>
      itemRequests [] = map (chapterRequest cc title) [i..<i] \<and>
      storyDocument (fst (chapterLoop e pressed docId cc title i st w)) = Some d \<and>
      story_id d = docId \<and> story_title d = story_title d \<and>
      (\<forall>k < i. arrayGet (chapters d) k = arrayGet (chapters d) k) \<and>
      (\<forall>k parsed.
          i \<le> k \<and> k < i \<and> generateChapterJson e (chapterRequest cc title k) = Inr parsed \<longrightarrow>
          (\<exists>ch wk. fst (generateChapterFromChunk e (cc ! k) (k + 1) (length cc) title wk) = Inr ch \<and>
                   arrayGet (chapters d) k = Some ch))"
    by (auto simp: itemRequests_def)
  then show ?case by blast
next
  case (Suc n)
  then have i: "i < length cc" by simp
  let ?r = "chapterRequest cc title i"
  let ?loop = "chapterLoop e pressed docId cc title"
  let ?st1 = "performAll (pressed i) st"
  have up: "[i..<m] = i # [i + 1..<m]" if "i + 1 \<le> m" for m
    using that by (simp add: upt_conv_Cons)
  have n: "n = length cc - (i + 1)"
    using Suc.hyps(2) by simp
  have d1: "storyDocument ?st1 = Some d"
    using nr Suc.prems(1) by (simp add: performAll_keeps_document)
  show ?case
  proof (cases "signalAborted st")
    case True
    with i have "?loop i st w =
       (st\<lparr>generationStatus := (generationStatus st)\<lparr>active := False\<rparr>, robotState := idle\<rparr>,
        emit [ConsoleLog (js ''Generation stopped by user.'')] w)"
      by (rule chapterLoop_stopped)
    with Suc.prems
    have "trace (snd (?loop i st w)) = trace w @ [ConsoleLog (js ''Generation stopped by user.'')] \<and>
      i \<le> i \<and>
      itemRequests [ConsoleLog (js ''Generation stopped by user.'')] = map (chapterRequest cc title) [i..<i] \<and>
      storyDocument (fst (?loop i st w)) = Some d \<and>
      story_id d = docId \<and> story_title d = story_title d \<and>
      (\<forall>k < i. arrayGet (chapters d) k = arrayGet (chapters d) k) \<and>
      (\<forall>k parsed.
          i \<le> k \<and> k < i \<and> generateChapterJson e (chapterRequest cc title k) = Inr parsed \<longrightarrow>
          (\<exists>ch wk. fst (generateChapterFromChunk e (cc ! k) (k + 1) (length cc) title wk) = Inr ch \<and>
                   arrayGet (chapters d) k = Some ch))"
      by (auto simp: emit_def itemRequests_def)
    then show ?thesis by blast
  next
    case False
    show ?thesis
    proof (cases "generateChapterJson e ?r")
      case (Inr parsed)
      from generateChapterFromChunk_returns [OF Inr, of w] obtain ch w1 where
        g: "generateChapterFromChunk e (cc ! i) (i + 1) (length cc) title w = (Inr ch, w1)"
        and t1: "trace w1 = trace w @ [Started ?r, Settled ?r True]"
        by blast
      let ?d2 = "d\<lparr>chapters := arraySet (chapters d) i ch\<rparr>"
      let ?st2 = "?st1\<lparr>storyDocument := storeChapter docId i ch (storyDocument ?st1),
                      generationStatus := (generationStatus ?st1)\<lparr>completed := i + 1\<rparr>\<rparr>"
      have step: "?loop i st w = ?loop (i + 1) ?st2 w1"
        using i False g by (rule chapterLoop_answered)
      have d2: "storyDocument ?st2 = Some ?d2" "story_id ?d2 = docId"
        using d1 Suc.prems(2) by (simp_all add: storeChapter_def)
      from Suc.hyps(1) [OF n d2, of w1] obtain new m d' where
        r: "trace (snd (?loop (i + 1) ?st2 w1)) = trace w1 @ new" "i + 1 \<le> m"
           "itemRequests new = map (chapterRequest cc title) [i + 1..<m]"
           "storyDocument (fst (?loop (i + 1) ?st2 w1)) = Some d'"
           "story_id d' = docId" "story_title d' = story_title ?d2"
        and before: "\<forall>k < i + 1. arrayGet (chapters d') k = arrayGet (chapters ?d2) k"
        and after: "\<forall>k parsed.
          i + 1 \<le> k \<and> k < m \<and> generateChapterJson e (chapterRequest cc title k) = Inr parsed \<longrightarrow>
          (\<exists>ch wk. fst (generateChapterFromChunk e (cc ! k) (k + 1) (length cc) title wk) = Inr ch \<and>
                   arrayGet (chapters d') k = Some ch)"
        by blast
      have a: "trace (snd (?loop i st w)) = trace w @ ([Started ?r, Settled ?r True] @ new)"
        using step r(1) t1 by simp
      have b: "itemRequests ([Started ?r, Settled ?r True] @ new) = map (chapterRequest cc title) [i..<m]"
        unfolding itemRequests_append itemRequests_chapter_call r(3) up [OF r(2)] by simp
      have c: "storyDocument (fst (?loop i st w)) = Some d'"
        using step r(4) by simp
      have f: "\<forall>k < i. arrayGet (chapters d') k = arrayGet (chapters d) k"
        using before by (simp add: arrayGet_arraySet)
      have here: "arrayGet (chapters d') i = Some ch"
        using before by (simp add: arrayGet_arraySet)
      have h: "\<exists>ch wk. fst (generateChapterFromChunk e (cc ! k) (k + 1) (length cc) title wk) = Inr ch \<and>
                   arrayGet (chapters d') k = Some ch"
        if "i \<le> k \<and> k < m \<and> generateChapterJson e (chapterRequest cc title k) = Inr parsed'"
        for k parsed'
      proof (cases "k = i")
        case True
        have "fst (generateChapterFromChunk e (cc ! i) (i + 1) (length cc) title w) = Inr ch"
          using g by simp
        with here True show ?thesis by blast
      next
        case False
        with that have "i + 1 \<le> k \<and> k < m \<and> generateChapterJson e (chapterRequest cc title k) = Inr parsed'"
          by simp
        with after show ?thesis by blast
      qed
      have le: "i \<le> m" using r(2) by simp
      have t: "story_title d' = story_title d" using r(6) by simp
      from a le b c r(5) t f h show ?thesis by blast
    next
      case (Inl err)
      show ?thesis
      proof (cases "isAbortError err")
        case True
        have "?loop i st w = (?st1, emit [Started ?r, Settled ?r False] w)"
          using i False Inl True by (rule chapterLoop_aborting)
        then have a: "trace (snd (?loop i st w)) = trace w @ [Started ?r, Settled ?r False]"
          and c: "storyDocument (fst (?loop i st w)) = Some d"
          using d1 by (simp_all add: emit_def)
        have b: "itemRequests [Started ?r, Settled ?r False] = map (chapterRequest cc title) [i..<i + 1]"
          unfolding itemRequests_chapter_call by simp
        have h: "\<forall>k parsed.
          i \<le> k \<and> k < i + 1 \<and> generateChapterJson e (chapterRequest cc title k) = Inr parsed \<longrightarrow>
          (\<exists>ch wk. fst (generateChapterFromChunk e (cc ! k) (k + 1) (length cc) title wk) = Inr ch \<and>
                   arrayGet (chapters d) k = Some ch)"
        proof (intro allI impI)
          fix k parsed
          assume "i \<le> k \<and> k < i + 1 \<and> generateChapterJson e (chapterRequest cc title k) = Inr parsed"
          then have "k = i" "generateChapterJson e (chapterRequest cc title k) = Inr parsed" by simp_all
          with Inl show "\<exists>ch wk. fst (generateChapterFromChunk e (cc ! k) (k + 1) (length cc) title wk) = Inr ch \<and>
                   arrayGet (chapters d) k = Some ch"
            by simp
        qed
        have le: "i \<le> i + 1" by simp
        have f: "\<forall>k < i. arrayGet (chapters d) k = arrayGet (chapters d) k" by simp
        from a le b c Suc.prems(2) f h show ?thesis by blast
      next
        case na: False
        let ?c = "ConsoleError [Text (js ''Failed to generate chapter '' @ decimal (i + 1)), Exception err]"
        let ?w1 = "emit [?c] (emit [Started ?r, Settled ?r False] w)"
        obtain st2 w2 where s: "setStoryDocument (markFailed i) ?st1 ?w1 = (st2, w2)"
          by (cases "setStoryDocument (markFailed i) ?st1 ?w1")
        then obtain more where m: "trace w2 = trace ?w1 @ more" "itemRequests more = []"
          using setStoryDocument_trace by blast
        from setStoryDocument_markFailed_document [OF s d1] obtain d2 where
          d2: "storyDocument st2 = Some d2" "story_id d2 = story_id d" "story_title d2 = story_title d"
          and same: "\<forall>k. k \<noteq> i \<longrightarrow> arrayGet (chapters d2) k = arrayGet (chapters d) k"
          by blast
        have id2: "story_id d2 = docId" using d2(2) Suc.prems(2) by simp
        have step: "?loop i st w = ?loop (i + 1) st2 w2"
          using i False Inl na s by (rule chapterLoop_failed)
        from Suc.hyps(1) [OF n d2(1) id2, of w2] obtain new m d' where
          r: "trace (snd (?loop (i + 1) st2 w2)) = trace w2 @ new" "i + 1 \<le> m"
             "itemRequests new = map (chapterRequest cc title) [i + 1..<m]"
             "storyDocument (fst (?loop (i + 1) st2 w2)) = Some d'"
             "story_id d' = docId" "story_title d' = story_title d2"
          and before: "\<forall>k < i + 1. arrayGet (chapters d') k = arrayGet (chapters d2) k"
          and after: "\<forall>k parsed.
            i + 1 \<le> k \<and> k < m \<and> generateChapterJson e (chapterRequest cc title k) = Inr parsed \<longrightarrow>
            (\<exists>ch wk. fst (generateChapterFromChunk e (cc ! k) (k + 1) (length cc) title wk) = Inr ch \<and>
                     arrayGet (chapters d') k = Some ch)"
          by blast
        let ?new = "[Started ?r, Settled ?r False] @ [?c] @ more @ new"
        have a: "trace (snd (?loop i st w)) = trace w @ ?new"
          using step r(1) m(1) by (simp add: emit_def)
        have b: "itemRequests ?new = map (chapterRequest cc title) [i..<m]"
          unfolding itemRequests_append itemRequests_chapter_call r(3) m(2) up [OF r(2)]
          by (simp add: itemRequests_def)
        have c: "storyDocument (fst (?loop i st w)) = Some d'"
          using step r(4) by simp
        have f: "\<forall>k < i. arrayGet (chapters d') k = arrayGet (chapters d) k"
          using before same by simp
        have h: "\<exists>ch wk. fst (generateChapterFromChunk e (cc ! k) (k + 1) (length cc) title wk) = Inr ch \<and>
                   arrayGet (chapters d') k = Some ch"
          if "i \<le> k \<and> k < m \<and> generateChapterJson e (chapterRequest cc title k) = Inr parsed'"
          for k parsed'
        proof (cases "k = i")
          case True
          with that Inl show ?thesis by simp
        next
          case False
          with that have "i + 1 \<le> k \<and> k < m \<and> generateChapterJson e (chapterRequest cc title k) = Inr parsed'"
            by simp
          with after show ?thesis by blast
        qed
        have le: "i \<le> m" using r(2) by simp
        have t: "story_title d' = story_title d" using r(6) d2(3) by simp
        from a le b c r(5) t f h show ?thesis by blast
      qed
    qed
  qed
qed

lemma scripted_chapter_fails:
  "k \<in> set fc \<Longrightarrow>
   generateChapterJson (scriptedEnv fs fc b) (ChapterRequest c k n t) = Inl (newError ''503 Service Unavailable'')"
  by (simp add: scriptedEnv_def)

lemma scripted_chapter_answers:
  "k \<notin> set fc \<Longrightarrow>
   generateChapterJson (scriptedEnv fs fc b) (ChapterRequest c k n t) =
     Inr \<lparr> parsed_chapter_title = js ''Part '' @ decimal k, parsed_pages = [Some [js ''idea'']] \<rparr>"
  by (simp add: scriptedEnv_def)




lemma chapterLoop_aborted:
  assumes "signalAborted st"
  shows "active (generationStatus (fst (chapterLoop e pressed docId cc title i st w))) = False \<and>
         robotState (fst (chapterLoop e pressed docId cc title i st w)) = idle \<and>
         storyDocument (fst (chapterLoop e pressed docId cc title i st w)) = storyDocument st \<and>
         startedRequests (trace (snd (chapterLoop e pressed docId cc title i st w)))
           = startedRequests (trace w)"
proof (cases "i < length cc")
  case True
  then show ?thesis
    using assms by (simp add: chapterLoop_stopped emit_def startedRequests_append)
next
  case False
  then show ?thesis
    by (simp add: chapterLoop_end)
qed

lemma setStoryDocument_aborted:
  "setStoryDocument updater st w = (st2, w2) \<Longrightarrow> signalAborted st \<Longrightarrow>
   signalAborted st2 \<and> startedRequests (trace w2) = startedRequests (trace w)"
  by (auto simp: setStoryDocument_def signalAborted_def emit_def startedRequests_append
      split: sum.splits)

lemma chapterLoop_after_press:
  assumes c: "generationController st \<noteq> None"
    and i: "i < length cc"
    and n: "\<not> signalAborted st"
    and p: "pressed i \<noteq> []"
  shows "startedRequests (trace (snd (chapterLoop e pressed docId cc title i st w)))
           = startedRequests (trace w) @ [chapterRequest cc title i] \<and>
         ((\<forall>err. generateChapterJson e (chapterRequest cc title i) = Inl err \<longrightarrow> \<not> isAbortError err) \<longrightarrow>
          active (generationStatus (fst (chapterLoop e pressed docId cc title i st w))) = False)"
proof -
  let ?r = "chapterRequest cc title i"
  let ?loop = "chapterLoop e pressed docId cc title"
  let ?st1 = "performAll (pressed i) st"
  have ab: "signalAborted ?st1"
    using c p by (rule performAll_aborts)
  show ?thesis
  proof (cases "generateChapterJson e ?r")
    case (Inr parsed)
    from generateChapterFromChunk_returns [OF Inr, of w] obtain ch w1 where
      g: "generateChapterFromChunk e (cc ! i) (i + 1) (length cc) title w = (Inr ch, w1)"
      and t1: "trace w1 = trace w @ [Started ?r, Settled ?r True]"
      by blast
    let ?st2 = "?st1\<lparr>storyDocument := storeChapter docId i ch (storyDocument ?st1),
                    generationStatus := (generationStatus ?st1)\<lparr>completed := i + 1\<rparr>\<rparr>"
    have step: "?loop i st w = ?loop (i + 1) ?st2 w1"
      using i n g by (rule chapterLoop_answered)
    have "signalAborted ?st2"
      using ab by (simp add: signalAborted_def)
    from chapterLoop_aborted [OF this, of e pressed docId cc title "i + 1" w1] step t1
    show ?thesis
      by (simp add: startedRequests_append)
  next
    case (Inl err)
    show ?thesis
    proof (cases "isAbortError err")
      case True
      have "?loop i st w = (?st1, emit [Started ?r, Settled ?r False] w)"
        using i n Inl True by (rule chapterLoop_aborting)
      with Inl True show ?thesis
        by (simp add: emit_def startedRequests_append)
    next
      case False
      let ?c = "ConsoleError [Text (js ''Failed to generate chapter '' @ decimal (i + 1)), Exception err]"
      let ?w1 = "emit [?c] (emit [Started ?r, Settled ?r False] w)"
      obtain st2 w2 where s: "setStoryDocument (markFailed i) ?st1 ?w1 = (st2, w2)"
        by (cases "setStoryDocument (markFailed i) ?st1 ?w1")
      from setStoryDocument_aborted [OF s ab]
      have ab2: "signalAborted st2" and t2: "startedRequests (trace w2) = startedRequests (trace ?w1)"
        by simp_all
      have step: "?loop i st w = ?loop (i + 1) st2 w2"
        using i n Inl False s by (rule chapterLoop_failed)
      from chapterLoop_aborted [OF ab2, of e pressed docId cc title "i + 1" w2] step t2
      show ?thesis
        by (simp add: emit_def startedRequests_append)
    qed
  qed
qed



section \<open>Failure of one item of a batch\<close>







section \<open>Properties of the chapter groups\<close>

lemma entries_snoc: "entries (xs @ [x]) = entries xs @ [(length xs, x)]"
  by (simp add: entries_def)

lemma chapterChunksOf_snoc:
  "chapterChunksOf (xs @ [x]) = groupStep (chapterChunksOf xs) (length xs, x)"
  by (simp add: chapterChunksOf_def entries_snoc)

lemma slice_snoc_full:
  "j * 5 + 5 \<le> length xs \<Longrightarrow> take 5 (drop (j * 5) (xs @ [x])) = take 5 (drop (j * 5) xs)"
  by simp

lemma slice_snoc_last:
  "j * 5 \<le> length xs \<Longrightarrow> length xs < j * 5 + 5 \<Longrightarrow>
   take 5 (drop (j * 5) (xs @ [x])) = take 5 (drop (j * 5) xs) @ [x]"
  by simp

lemma groupStep_slices:
  fixes xs :: "'a list"
  defines "m \<equiv> (length xs + 4) div 5"
  shows "groupStep (map Some (slices 5 xs 0 m)) (length xs, x)
         = map Some (slices 5 (xs @ [x]) 0 ((length (xs @ [x]) + 4) div 5))"
proof (cases "length xs mod 5 = 0")
  case True
  then have m: "m = length xs div 5" and m5: "m * 5 = length xs"
    and m': "(length (xs @ [x]) + 4) div 5 = Suc m"
    unfolding m_def by simp_all presburger+
  have "groupStep (map Some (slices 5 xs 0 m)) (length xs, x)
        = map Some (slices 5 xs 0 m) @ [Some [x]]"
    by (simp add: groupStep_def arrayGet_def arraySet_def length_slices m [symmetric])
  also have "\<dots> = map Some (slices 5 (xs @ [x]) 0 (Suc m))"
  proof -
    have "slices 5 (xs @ [x]) 0 (Suc m) = slices 5 xs 0 m @ [[x]]"
    proof -
      have "map (\<lambda>j. take 5 (drop (j * 5) (xs @ [x]))) [0..<m]
            = map (\<lambda>j. take 5 (drop (j * 5) xs)) [0..<m]"
      proof (rule map_cong [OF refl])
        fix j assume "j \<in> set [0..<m]"
        then have "j * 5 + 5 \<le> length xs" using m5 by simp
        then show "take 5 (drop (j * 5) (xs @ [x])) = take 5 (drop (j * 5) xs)"
          by (rule slice_snoc_full)
      qed
      moreover have "take 5 (drop (m * 5) (xs @ [x])) = [x]"
        using m5 by simp
      ultimately show ?thesis
        by (simp add: slices_def)
    qed
    then show ?thesis by simp
  qed
  finally show ?thesis by (simp only: m')
next
  case False
  then have m: "m = Suc (length xs div 5)" and lo: "(length xs div 5) * 5 \<le> length xs"
    and hi: "length xs < (length xs div 5) * 5 + 5"
    and m': "(length (xs @ [x]) + 4) div 5 = m"
    unfolding m_def by simp_all presburger+
  let ?k = "length xs div 5"
  let ?g = "take 5 (drop (?k * 5) xs)"
  have k: "?k < m" using m by simp
  have "groupStep (map Some (slices 5 xs 0 m)) (length xs, x)
        = (map Some (slices 5 xs 0 m))[?k := Some (?g @ [x])]"
    using k by (simp add: groupStep_def arrayGet_def arraySet_def length_slices nth_slices Let_def)
  also have "\<dots> = map Some (slices 5 (xs @ [x]) 0 m)"
  proof (rule nth_equalityI)
    show "length ((map Some (slices 5 xs 0 m))[?k := Some (?g @ [x])])
          = length (map Some (slices 5 (xs @ [x]) 0 m))"
      by (simp add: length_slices)
  next
    fix j assume "j < length ((map Some (slices 5 xs 0 m))[?k := Some (?g @ [x])])"
    then have j: "j < m" by (simp add: length_slices)
    have old: "map Some (slices 5 xs 0 m) ! j = Some (take 5 (drop (j * 5) xs))"
      using j nth_slices [of j m 5 xs] by (simp add: length_slices)
    have new: "map Some (slices 5 (xs @ [x]) 0 m) ! j = Some (take 5 (drop (j * 5) (xs @ [x])))"
      using j nth_slices [of j m 5 "xs @ [x]"] by (simp add: length_slices)
    show "(map Some (slices 5 xs 0 m))[?k := Some (?g @ [x])] ! j
          = map Some (slices 5 (xs @ [x]) 0 m) ! j"
    proof (cases "j = ?k")
      case True
      have "take 5 (drop (?k * 5) (xs @ [x])) = ?g @ [x]"
        using lo hi by (rule slice_snoc_last)
      with True have "map Some (slices 5 (xs @ [x]) 0 m) ! j = Some (?g @ [x])"
        using new by simp
      moreover have "(map Some (slices 5 xs 0 m))[?k := Some (?g @ [x])] ! j = Some (?g @ [x])"
        using True k by (simp add: length_slices)
      ultimately show ?thesis by simp
    next
      case False
      with j m have "j < ?k" by simp
      then have "j * 5 + 5 \<le> length xs" by presburger
      then have "take 5 (drop (j * 5) (xs @ [x])) = take 5 (drop (j * 5) xs)"
        by (rule slice_snoc_full)
      with new have "map Some (slices 5 (xs @ [x]) 0 m) ! j = Some (take 5 (drop (j * 5) xs))"
        by simp
      moreover have "(map Some (slices 5 xs 0 m))[?k := Some (?g @ [x])] ! j
                     = map Some (slices 5 xs 0 m) ! j"
        using False by simp
      ultimately show ?thesis using old by simp
    qed
  qed
  finally show ?thesis by (simp only: m')
qed

lemma chapterChunksOf_slices:
  "chapterChunksOf chunks = map Some (slices 5 chunks 0 ((length chunks + 4) div 5))"
proof (induction chunks rule: rev_induct)
  case Nil
  show ?case by (simp add: chapterChunksOf_def entries_def slices_def)
next
  case (snoc x xs)
  show ?case
    unfolding chapterChunksOf_snoc snoc.IH by (rule groupStep_slices)
qed


lemma take_drop_nths:
  "take n (drop a xs) = map (\<lambda>k. xs ! k) [a..<min (a + n) (length xs)]"
proof (rule nth_equalityI)
  show "length (take n (drop a xs)) = length (map (\<lambda>k. xs ! k) [a..<min (a + n) (length xs)])"
    by simp
next
  fix k assume "k < length (take n (drop a xs))"
  then have k: "k < n" "a + k < length xs" by auto
  then have "k < min (a + n) (length xs) - a" by auto
  then have "map (\<lambda>k. xs ! k) [a..<min (a + n) (length xs)] ! k = xs ! (a + k)"
    by (rule nth_map_upt)
  moreover from k have "take n (drop a xs) ! k = xs ! (a + k)" by simp
  ultimately show "take n (drop a xs) ! k = map (\<lambda>k. xs ! k) [a..<min (a + n) (length xs)] ! k"
    by simp
qed

lemma pendingChapters_groups:
  "fst (pendingChapters e (map Some gs) i w) =
     map (\<lambda>j. Some \<lparr> chapter_id = randomUUID e (uuids w + j),
                      chapter_title = js ''Chapter '' @ decimal (i + j + 1) @ js '' (pending...)'',
                      summary = js ''AI summary will appear here.'',
                      pages = [] \<rparr>)
       [0..<length gs]"
proof (induction gs arbitrary: i w)
  case Nil
  show ?case by simp
next
  case (Cons g gs)
  let ?w1 = "w\<lparr>uuids := Suc (uuids w)\<rparr>"
  have "fst (pendingChapters e (map Some (g # gs)) i w) =
          Some \<lparr> chapter_id = randomUUID e (uuids w),
                 chapter_title = js ''Chapter '' @ decimal (i + 1) @ js '' (pending...)'',
                 summary = js ''AI summary will appear here.'', pages = [] \<rparr>
          # fst (pendingChapters e (map Some gs) (i + 1) ?w1)"
    by (simp add: crypto_randomUUID_def Let_def split: prod.splits)
  also have "fst (pendingChapters e (map Some gs) (i + 1) ?w1) =
     map (\<lambda>j. Some \<lparr> chapter_id = randomUUID e (uuids ?w1 + j),
                      chapter_title = js ''Chapter '' @ decimal (i + 1 + j + 1) @ js '' (pending...)'',
                      summary = js ''AI summary will appear here.'',
                      pages = [] \<rparr>)
       [0..<length gs]"
    by (rule Cons.IH)
  finally show ?case
    by (simp add: map_upt_Suc del: upt_Suc)
qed

text \<open>
  C9. The accumulator of \<open>reduce\<close> ends with exactly ceil(N / 5) groups and no hole;
  group \<open>j\<close> holds the chunks with the indices from \<open>5 j\<close> up to, and not including,
  \<open>min (5 j + 5) N\<close>, in their order; and the \<open>map\<close> over the groups creates one chapter
  scaffold for each, titled \<open>Chapter j+1 (pending...)\<close>, with an id of its own and no pages.
\<close>

theorem chapter_groups_of_five:
  "int (length (chapterChunksOf chunks)) = \<lceil>real (length chunks) / 5\<rceil> \<and>
   (\<forall>j < length (chapterChunksOf chunks).
      chapterChunksOf chunks ! j =
        Some (map (\<lambda>k. chunks ! k) [5 * j..<min (5 * j + 5) (length chunks)])) \<and>
   length (fst (pendingChapters e (chapterChunksOf chunks) 0 w)) = length (chapterChunksOf chunks) \<and>
   (\<forall>j < length (chapterChunksOf chunks).
      fst (pendingChapters e (chapterChunksOf chunks) 0 w) ! j =
        Some \<lparr> chapter_id = randomUUID e (uuids w + j),
               chapter_title = js ''Chapter '' @ decimal (j + 1) @ js '' (pending...)'',
               summary = js ''AI summary will appear here.'',
               pages = [] \<rparr>)"
proof -
  let ?m = "(length chunks + 4) div 5"
  have len: "length (chapterChunksOf chunks) = ?m"
    by (simp add: chapterChunksOf_slices length_slices)
  have "int ((length chunks + (5 - 1)) div 5) = \<lceil>real (length chunks) / real 5\<rceil>"
    by (rule ceiling_div_nat) simp
  then have 1: "int (length (chapterChunksOf chunks)) = \<lceil>real (length chunks) / 5\<rceil>"
    using len by simp
  have 2: "chapterChunksOf chunks ! j =
        Some (map (\<lambda>k. chunks ! k) [5 * j..<min (5 * j + 5) (length chunks)])"
    if "j < length (chapterChunksOf chunks)" for j
  proof -
    from that len have "j < ?m" by simp
    then have "chapterChunksOf chunks ! j = Some (take 5 (drop (j * 5) chunks))"
      by (simp add: chapterChunksOf_slices length_slices nth_slices)
    then show ?thesis
      by (simp only: take_drop_nths mult.commute [of j 5])
  qed
  have p: "fst (pendingChapters e (chapterChunksOf chunks) 0 w) =
     map (\<lambda>j. Some \<lparr> chapter_id = randomUUID e (uuids w + j),
                      chapter_title = js ''Chapter '' @ decimal (0 + j + 1) @ js '' (pending...)'',
                      summary = js ''AI summary will appear here.'',
                      pages = [] \<rparr>)
       [0..<length (slices 5 chunks 0 ?m)]"
    unfolding chapterChunksOf_slices by (rule pendingChapters_groups)
  have 3: "length (fst (pendingChapters e (chapterChunksOf chunks) 0 w)) = length (chapterChunksOf chunks)"
    unfolding p by (simp add: chapterChunksOf_slices)
  have 4: "fst (pendingChapters e (chapterChunksOf chunks) 0 w) ! j =
        Some \<lparr> chapter_id = randomUUID e (uuids w + j),
               chapter_title = js ''Chapter '' @ decimal (j + 1) @ js '' (pending...)'',
               summary = js ''AI summary will appear here.'',
               pages = [] \<rparr>"
    if "j < length (chapterChunksOf chunks)" for j
    using that unfolding p by (simp add: chapterChunksOf_slices length_slices del: upt_Suc)
  from 1 2 3 4 show ?thesis by blast
qed

theorem chapter_groups_of_five_witness:
  "length (chapterChunksOf [10, 11, 12, 13, 14, 15, 16 :: nat]) = 2 \<and>
   chapterChunksOf [10, 11, 12, 13, 14, 15, 16 :: nat] ! 0 = Some [10, 11, 12, 13, 14] \<and>
   chapterChunksOf [10, 11, 12, 13, 14, 15, 16 :: nat] ! 1 = Some [15, 16] \<and>
   length (fst (pendingChapters (scriptedEnv [] [] False)
                  (chapterChunksOf [10, 11, 12, 13, 14, 15, 16 :: nat]) 0 emptyWorld)) = 2"
proof -
  let ?chunks = "[10, 11, 12, 13, 14, 15, 16 :: nat]"
  note t = chapter_groups_of_five [of ?chunks "scriptedEnv [] [] False" emptyWorld]
  have c: "\<lceil>real (length ?chunks) / 5\<rceil> = 2"
    by (simp add: ceiling_eq_iff)
  from t c have l: "length (chapterChunksOf ?chunks) = 2"
    by simp
  from t l have "chapterChunksOf ?chunks ! 0 =
      Some (map (\<lambda>k. ?chunks ! k) [5 * 0..<min (5 * 0 + 5) (length ?chunks)])"
    by simp
  then have g0: "chapterChunksOf ?chunks ! 0 = Some [10, 11, 12, 13, 14]"
    by (simp add: upt_rec)
  from t l have "chapterChunksOf ?chunks ! 1 =
      Some (map (\<lambda>k. ?chunks ! k) [5 * 1..<min (5 * 1 + 5) (length ?chunks)])"
    by simp
  then have g1: "chapterChunksOf ?chunks ! 1 = Some [15, 16]"
    by (simp add: upt_rec)
  from t l have p: "length (fst (pendingChapters (scriptedEnv [] [] False)
                  (chapterChunksOf ?chunks) 0 emptyWorld)) = 2"
    by simp
  from l g0 g1 p show ?thesis by simp
qed

section \<open>Order of the batch\<close>

lemma generateSlideImage_events:
  "generateSlideImage e prompt w = (r, w') \<Longrightarrow>
   \<exists>new. trace w' = trace w @ new \<and> oneAtATime new \<and> itemRequests new = []"
  by (auto simp: generateSlideImage_def await_def emit_def itemRequests_def Let_def
      split: sum.splits prod.splits)

lemma generateSlideFromChunk_events:
  assumes "generateSlideFromChunk e c k n t w = (r, w')"
  shows "\<exists>new. trace w' = trace w @ new \<and> oneAtATime new \<and> itemRequests new = [SlideRequest c k n t]"
proof (cases "generateSlideJson e (SlideRequest c k n t)")
  case (Inl err)
  from generateSlideFromChunk_throws [OF Inl, of w] assms
  have "trace w' = trace w @ [Started (SlideRequest c k n t), Settled (SlideRequest c k n t) False]"
    by (auto simp: emit_def)
  then show ?thesis
    by (simp add: itemRequests_def)
next
  case (Inr parsed)
  let ?w0 = "emit [Started (SlideRequest c k n t), Settled (SlideRequest c k n t) True] w"
  from generateSlideFromChunk_cases [of e c k n t w] Inr
  obtain url w1 where i: "generateSlideImage e (parsed_image_prompt parsed) ?w0 = (Inr url, w1)"
    and g: "snd (generateSlideFromChunk e c k n t w) = w1\<lparr>uuids := Suc (uuids w1)\<rparr>"
    by auto
  from i obtain new where n: "trace w1 = trace ?w0 @ new" "oneAtATime new" "itemRequests new = []"
    using generateSlideImage_events by blast
  from g assms have "trace w' = trace w1" by simp
  with n have "trace w' = trace w @ ([Started (SlideRequest c k n t), Settled (SlideRequest c k n t) True] @ new)"
    by (simp add: emit_def)
  moreover have "oneAtATime ([Started (SlideRequest c k n t), Settled (SlideRequest c k n t) True] @ new)"
    using n by simp
  moreover have "itemRequests ([Started (SlideRequest c k n t), Settled (SlideRequest c k n t) True] @ new)
                 = [SlideRequest c k n t]"
    using n by (simp add: itemRequests_append) (simp add: itemRequests_def)
  ultimately show ?thesis by blast
qed

lemma slideLoop_returns:
  "slideLoop e t n ics generated st w = (Inr result, st', w') \<Longrightarrow>
   \<exists>new made.
     trace w' = trace w @ new \<and> oneAtATime new \<and>
     itemRequests new = map (\<lambda>(i, c). SlideRequest c (i + 1) n t) ics \<and>
     result = generated @ made \<and> length made = length ics \<and>
     (\<forall>k < length ics.
        \<exists>wk. fst (generateSlideFromChunk e (snd (ics ! k)) (fst (ics ! k) + 1) n t wk) = Inr (made ! k))"
proof (induction ics arbitrary: generated st w)
  case Nil
  then have "trace w' = trace w @ []" "result = generated @ []" by simp_all
  then show ?case by (intro exI [of _ "[]"]) (simp add: itemRequests_def)
next
  case (Cons ic rest)
  obtain index chunk where ic: "ic = (index, chunk)" by (cases ic)
  let ?st1 = "st\<lparr>loadingMessage :=
                  js ''Generating slide '' @ decimal (index + 1) @ js '' of '' @ decimal n @ js ''...''\<rparr>"
  obtain res w1 where g: "generateSlideFromChunk e chunk (index + 1) n t w = (res, w1)"
    by (cases "generateSlideFromChunk e chunk (index + 1) n t w")
  show ?case
  proof (cases res)
    case (Inl err)
    with g ic Cons.prems show ?thesis by simp
  next
    case (Inr slide)
    with g ic Cons.prems
    have l: "slideLoop e t n rest (generated @ [slide]) ?st1 w1 = (Inr result, st', w')"
      by simp
    from Cons.IH [OF l] obtain new made where
      n: "trace w' = trace w1 @ new" "oneAtATime new"
         "itemRequests new = map (\<lambda>(i, c). SlideRequest c (i + 1) n t) rest"
         "result = (generated @ [slide]) @ made" "length made = length rest"
      and m: "\<forall>k < length rest.
        \<exists>wk. fst (generateSlideFromChunk e (snd (rest ! k)) (fst (rest ! k) + 1) n t wk) = Inr (made ! k)"
      by blast
    from g obtain new1 where
      n1: "trace w1 = trace w @ new1" "oneAtATime new1"
          "itemRequests new1 = [SlideRequest chunk (index + 1) n t]"
      using generateSlideFromChunk_events by blast
    have a: "trace w' = trace w @ (new1 @ new)"
      using n n1 by simp
    have b: "oneAtATime (new1 @ new)"
      using n n1 by (simp add: oneAtATime_append)
    have c: "itemRequests (new1 @ new) = map (\<lambda>(i, c). SlideRequest c (i + 1) n t) (ic # rest)"
      using n n1 ic by (simp add: itemRequests_append)
    have d: "result = generated @ (slide # made)" "length (slide # made) = length (ic # rest)"
      using n by simp_all
    have f: "\<exists>wk. fst (generateSlideFromChunk e (snd ((ic # rest) ! k)) (fst ((ic # rest) ! k) + 1) n t wk)
                  = Inr ((slide # made) ! k)"
      if "k < length (ic # rest)" for k
    proof (cases k)
      case 0
      have "fst (generateSlideFromChunk e chunk (index + 1) n t w) = Inr slide"
        using g Inr by simp
      with 0 ic show ?thesis by auto
    next
      case (Suc k')
      with that have "k' < length rest" by simp
      with m have "\<exists>wk. fst (generateSlideFromChunk e (snd (rest ! k')) (fst (rest ! k') + 1) n t wk)
                        = Inr (made ! k')"
        by blast
      with Suc show ?thesis by simp
    qed
    from a b c d f show ?thesis by blast
  qed
qed

lemma entries_map:
  "map f (entries xs) = map (\<lambda>i. f (i, xs ! i)) [0..<length xs]"
  by (rule nth_equalityI) (simp_all add: entries_def)

lemma entries_nth_parts:
  "k < length xs \<Longrightarrow> fst (entries xs ! k) = k \<and> snd (entries xs ! k) = xs ! k"
  by (simp add: entries_def)

lemma handlePresentationGeneration_success:
  assumes h: "handlePresentationGeneration e data st w = (st', w')"
    and ok: "error st' = None"
  shows "\<exists>d new.
     presentationDocument st' = Some d \<and>
     trace w' = trace w @ new \<and> oneAtATime new \<and>
     itemRequests new =
       map (\<lambda>i. SlideRequest (presentationChunks data ! i) (i + 1) (length (presentationChunks data))
                  (presentation_title d))
         [0..<length (presentationChunks data)] \<and>
     length (slides d) = length (presentationChunks data) \<and>
     (\<forall>i < length (presentationChunks data).
        \<exists>wi. fst (generateSlideFromChunk e (presentationChunks data ! i) (i + 1)
                     (length (presentationChunks data)) (presentation_title d) wi)
              = Inr (slides d ! i))"
proof -
  let ?chunks = "presentationChunks data"
  let ?n = "length ?chunks"
  let ?st0 = "st\<lparr>isLoading := True, loadingMessage := js ''Preparing presentation...'', error := None\<rparr>"
  let ?st1 = "?st0\<lparr>loadingMessage := js ''Generating presentation title...''\<rparr>"
  let ?treq = "TitleRequest (take 2000 (?chunks ! 0))"
  obtain res st2 w3 where t: "tryPresentationGeneration e data ?st0 w = (res, st2, w3)"
    by (cases "tryPresentationGeneration e data ?st0 w")
  have res: "res = Inr ()"
  proof (cases res)
    case (Inl err)
    with t h have "error st' \<noteq> None"
      by (auto simp: handlePresentationGeneration_def Let_def)
    with ok show ?thesis by simp
  next
    case (Inr u)
    then show ?thesis by simp
  qed
  with t h have fin: "st' = st2\<lparr>isLoading := False, loadingMessage := []\<rparr>" "w' = w3"
    by (auto simp: handlePresentationGeneration_def Let_def)
  from t res have ne: "?chunks \<noteq> []"
    by (auto simp: tryPresentationGeneration_def Let_def split: if_splits)
  obtain answer where ti: "generateText e ?treq = Inr answer"
    using t res ne
    by (cases "generateText e ?treq")
       (auto simp: tryPresentationGeneration_def generatePresentationTitle_def await_def Let_def)
  let ?title = "removeQuotes (trim answer)"
  let ?w1 = "emit [Started ?treq, Settled ?treq True] w"
  let ?w2 = "?w1\<lparr>uuids := Suc (uuids ?w1)\<rparr>"
  obtain lres lst lw where l: "slideLoop e ?title ?n (entries ?chunks) [] ?st1 ?w2 = (lres, lst, lw)"
    by (cases "slideLoop e ?title ?n (entries ?chunks) [] ?st1 ?w2")
  obtain generatedSlides where lr: "lres = Inr generatedSlides"
    using t res ne ti l
    by (cases lres)
       (auto simp: tryPresentationGeneration_def generatePresentationTitle_def await_def Let_def
          crypto_randomUUID_def)
  let ?d = "\<lparr>presentation_id = randomUUID e (uuids ?w1), presentation_title = ?title,
             slides = generatedSlides\<rparr>"
  have st2: "st2 = lst\<lparr>presentationDocument := Some ?d, appState := EDITING\<rparr>" and w3: "w3 = lw"
    using t ne ti l lr
    by (auto simp: tryPresentationGeneration_def generatePresentationTitle_def await_def Let_def
          crypto_randomUUID_def)
  from l lr obtain new made where
    n: "trace lw = trace ?w2 @ new" "oneAtATime new"
       "itemRequests new = map (\<lambda>(i, c). SlideRequest c (i + 1) ?n ?title) (entries ?chunks)"
       "generatedSlides = [] @ made" "length made = length (entries ?chunks)"
    and m: "\<forall>k < length (entries ?chunks).
        \<exists>wk. fst (generateSlideFromChunk e (snd (entries ?chunks ! k)) (fst (entries ?chunks ! k) + 1)
                     ?n ?title wk) = Inr (made ! k)"
    using slideLoop_returns by blast
  have le: "length (entries ?chunks) = ?n" by (simp add: entries_def)
  have doc: "presentationDocument st' = Some ?d"
    using fin st2 by simp
  have tr: "trace w' = trace w @ ([Started ?treq, Settled ?treq True] @ new)"
    using fin w3 n by (simp add: emit_def)
  have one: "oneAtATime ([Started ?treq, Settled ?treq True] @ new)"
    using n by simp
  have items: "itemRequests ([Started ?treq, Settled ?treq True] @ new) =
       map (\<lambda>i. SlideRequest (?chunks ! i) (i + 1) ?n ?title) [0..<?n]"
    using n by (simp add: itemRequests_append entries_map) (simp add: itemRequests_def)
  have len: "length (slides ?d) = ?n"
    using n le by simp
  have each: "\<exists>wi. fst (generateSlideFromChunk e (?chunks ! i) (i + 1) ?n ?title wi) = Inr (slides ?d ! i)"
    if "i < ?n" for i
  proof -
    from that le m have "\<exists>wk. fst (generateSlideFromChunk e (snd (entries ?chunks ! i))
                     (fst (entries ?chunks ! i) + 1) ?n ?title wk) = Inr (made ! i)"
      by simp
    with that n show ?thesis
      by (simp add: entries_nth_parts)
  qed
  show ?thesis
    apply (rule exI [of _ ?d])
    apply (rule exI [of _ "[Started ?treq, Settled ?treq True] @ new"])
    using doc tr one items len each by simp
qed

lemma slideLoop_events:
  "slideLoop e t n ics generated st w = (res, st', w') \<Longrightarrow>
   \<exists>new m. trace w' = trace w @ new \<and> oneAtATime new \<and> m \<le> length ics \<and>
     itemRequests new = map (\<lambda>(i, c). SlideRequest c (i + 1) n t) (take m ics)"
proof (induction ics arbitrary: generated st w)
  case Nil
  then have "trace w' = trace w @ [] \<and> oneAtATime [] \<and> (0::nat) \<le> length [] \<and>
     itemRequests [] = map (\<lambda>(i, c). SlideRequest c (i + 1) n t) (take 0 [])"
    by (simp add: itemRequests_def)
  then show ?case by blast
next
  case (Cons ic rest)
  obtain index chunk where ic: "ic = (index, chunk)" by (cases ic)
  let ?st1 = "st\<lparr>loadingMessage :=
                  js ''Generating slide '' @ decimal (index + 1) @ js '' of '' @ decimal n @ js ''...''\<rparr>"
  obtain r w1 where g: "generateSlideFromChunk e chunk (index + 1) n t w = (r, w1)"
    by (cases "generateSlideFromChunk e chunk (index + 1) n t w")
  from g obtain new1 where
    n1: "trace w1 = trace w @ new1" "oneAtATime new1"
        "itemRequests new1 = [SlideRequest chunk (index + 1) n t]"
    using generateSlideFromChunk_events by blast
  show ?case
  proof (cases r)
    case (Inl err)
    with g ic Cons.prems have "w' = w1" by simp
    with n1 ic have "trace w' = trace w @ new1 \<and> oneAtATime new1 \<and> 1 \<le> length (ic # rest) \<and>
       itemRequests new1 = map (\<lambda>(i, c). SlideRequest c (i + 1) n t) (take 1 (ic # rest))"
      by simp
    then show ?thesis by blast
  next
    case (Inr slide)
    with g ic Cons.prems
    have l: "slideLoop e t n rest (generated @ [slide]) ?st1 w1 = (res, st', w')"
      by simp
    from Cons.IH [OF l] obtain new m where
      n: "trace w' = trace w1 @ new" "oneAtATime new" "m \<le> length rest"
         "itemRequests new = map (\<lambda>(i, c). SlideRequest c (i + 1) n t) (take m rest)"
      by blast
    have "trace w' = trace w @ (new1 @ new)"
      using n n1 by simp
    moreover have "oneAtATime (new1 @ new)"
      using n n1 by (simp add: oneAtATime_append)
    moreover have "itemRequests (new1 @ new) =
        map (\<lambda>(i, c). SlideRequest c (i + 1) n t) (take (Suc m) (ic # rest))"
      using n n1 ic by (simp add: itemRequests_append)
    moreover have "Suc m \<le> length (ic # rest)"
      using n by simp
    ultimately show ?thesis by blast
  qed
qed

lemma entries_take_map:
  "m \<le> length xs \<Longrightarrow> map f (take m (entries xs)) = map (\<lambda>i. f (i, xs ! i)) [0..<m]"
  by (rule nth_equalityI) (simp_all add: entries_def)

lemma handlePresentationGeneration_events:
  "\<exists>new m title.
     trace (snd (handlePresentationGeneration e data st w)) = trace w @ new \<and> oneAtATime new \<and>
     m \<le> length (presentationChunks data) \<and>
     itemRequests new =
       map (\<lambda>i. SlideRequest (presentationChunks data ! i) (i + 1) (length (presentationChunks data)) title)
         [0..<m]"
proof -
  let ?chunks = "presentationChunks data"
  let ?n = "length ?chunks"
  let ?st0 = "st\<lparr>isLoading := True, loadingMessage := js ''Preparing presentation...'', error := None\<rparr>"
  let ?st1 = "?st0\<lparr>loadingMessage := js ''Generating presentation title...''\<rparr>"
  let ?treq = "TitleRequest (take 2000 (?chunks ! 0))"
  let ?run = "handlePresentationGeneration e data st w"
  show ?thesis
  proof (cases "?chunks = []")
    case True
    then have "trace (snd ?run) = trace w @ [ConsoleError [Exception (newError ''No text data to process.'')]]"
      by (simp add: handlePresentationGeneration_def tryPresentationGeneration_def Let_def emit_def)
    moreover have "oneAtATime [ConsoleError [Exception (newError ''No text data to process.'')]]"
      by simp
    moreover have "itemRequests [ConsoleError [Exception (newError ''No text data to process.'')]] =
       map (\<lambda>i. SlideRequest (?chunks ! i) (i + 1) ?n []) [0..<0]"
      by (simp add: itemRequests_def)
    ultimately show ?thesis by blast
  next
    case ne: False
    show ?thesis
    proof (cases "generateText e ?treq")
      case (Inl err)
      let ?new = "[Started ?treq, Settled ?treq False, ConsoleError [Exception err]]"
      from Inl ne have "trace (snd ?run) = trace w @ ?new"
        by (simp add: handlePresentationGeneration_def tryPresentationGeneration_def
            generatePresentationTitle_def await_def Let_def emit_def)
      moreover have "oneAtATime ?new" by simp
      moreover have "itemRequests ?new = map (\<lambda>i. SlideRequest (?chunks ! i) (i + 1) ?n []) [0..<0]"
        by (simp add: itemRequests_def)
      ultimately show ?thesis by blast
    next
      case (Inr answer)
      let ?title = "removeQuotes (trim answer)"
      let ?w1 = "emit [Started ?treq, Settled ?treq True] w"
      let ?w2 = "?w1\<lparr>uuids := Suc (uuids ?w1)\<rparr>"
      obtain lres lst lw where l: "slideLoop e ?title ?n (entries ?chunks) [] ?st1 ?w2 = (lres, lst, lw)"
        by (cases "slideLoop e ?title ?n (entries ?chunks) [] ?st1 ?w2")
      from slideLoop_events [OF l] obtain new m where
        n: "trace lw = trace ?w2 @ new" "oneAtATime new" "m \<le> length (entries ?chunks)"
           "itemRequests new = map (\<lambda>(i, c). SlideRequest c (i + 1) ?n ?title) (take m (entries ?chunks))"
        by blast
      have m: "m \<le> ?n" using n(3) by (simp add: entries_def)
      have items: "itemRequests new = map (\<lambda>i. SlideRequest (?chunks ! i) (i + 1) ?n ?title) [0..<m]"
        unfolding n(4) using m by (simp add: entries_take_map)
      have "\<exists>last. trace (snd ?run) = trace lw @ last \<and> oneAtATime last \<and> itemRequests last = []"
      proof (cases lres)
        case (Inl err)
        with ne Inr l have "trace (snd ?run) = trace lw @ [ConsoleError [Exception err]]"
          by (simp add: handlePresentationGeneration_def tryPresentationGeneration_def
              generatePresentationTitle_def await_def Let_def emit_def crypto_randomUUID_def)
        moreover have "oneAtATime [ConsoleError [Exception err]]"
          "itemRequests [ConsoleError [Exception err]] = []"
          by (simp_all add: itemRequests_def)
        ultimately show ?thesis by blast
      next
        case (Inr generatedSlides)
        with ne \<open>generateText e ?treq = Inr answer\<close> l have "trace (snd ?run) = trace lw @ []"
          by (simp add: handlePresentationGeneration_def tryPresentationGeneration_def
              generatePresentationTitle_def await_def Let_def emit_def crypto_randomUUID_def)
        moreover have "oneAtATime []" "itemRequests [] = []"
          by (simp_all add: itemRequests_def)
        ultimately show ?thesis by blast
      qed
      then obtain last where
        f: "trace (snd ?run) = trace lw @ last" "oneAtATime last" "itemRequests last = []"
        by blast
      let ?new = "[Started ?treq, Settled ?treq True] @ new @ last"
      have "trace (snd ?run) = trace w @ ?new"
        using f n by (simp add: emit_def)
      moreover have "oneAtATime ?new"
        using f n by (simp add: oneAtATime_append)
      moreover have "itemRequests ?new = map (\<lambda>i. SlideRequest (?chunks ! i) (i + 1) ?n ?title) [0..<m]"
      proof -
        have "itemRequests [Started ?treq, Settled ?treq True] = []"
          by (simp add: itemRequests_def)
        with f items show ?thesis
          by (simp only: itemRequests_append append_Nil append_Nil2)
      qed
      ultimately show ?thesis using m by blast
    qed
  qed
qed

lemma startChapterGeneration_order:
  "\<exists>new m.
     trace (snd (startChapterGeneration e pressed closure docId cc st w)) = trace w @ new \<and>
     oneAtATime new \<and> m \<le> length cc \<and>
     itemRequests new = map (chapterRequest cc (closureTitle closure)) [0..<m] \<and>
     (\<forall>d. storyDocument st = Some d \<and> story_id d = docId \<and> (\<forall>k. PressStartOver \<notin> set (pressed k)) \<longrightarrow>
        (\<exists>d'. storyDocument (fst (startChapterGeneration e pressed closure docId cc st w)) = Some d' \<and>
              story_id d' = docId \<and>
              (\<forall>k parsed.
                 k < m \<and> generateChapterJson e (chapterRequest cc (closureTitle closure) k) = Inr parsed \<longrightarrow>
                 (\<exists>ch wk. fst (generateChapterFromChunk e (cc ! k) (k + 1) (length cc)
                                  (closureTitle closure) wk) = Inr ch \<and>
                          arrayGet (chapters d') k = Some ch))))"
proof -
  let ?title = "closureTitle closure"
  let ?st0 = "st\<lparr>generationController := Some False, robotState := writing\<rparr>"
  let ?run = "startChapterGeneration e pressed closure docId cc st w"
  have run: "?run = chapterLoop e pressed docId cc ?title 0 ?st0 w"
    by (simp add: startChapterGeneration_def)
  from chapterLoop_events [of e pressed docId cc ?title 0 ?st0 w] obtain new m where
    ev: "trace (snd ?run) = trace w @ new" "oneAtATime new" "m \<le> max 0 (length cc)"
        "itemRequests new = map (chapterRequest cc ?title) [0..<m]"
    unfolding run by blast
  have m: "m \<le> length cc" using ev(3) by simp
  have stores: "\<exists>d'. storyDocument (fst ?run) = Some d' \<and> story_id d' = docId \<and>
              (\<forall>k parsed.
                 k < m \<and> generateChapterJson e (chapterRequest cc ?title k) = Inr parsed \<longrightarrow>
                 (\<exists>ch wk. fst (generateChapterFromChunk e (cc ! k) (k + 1) (length cc) ?title wk) = Inr ch \<and>
                          arrayGet (chapters d') k = Some ch))"
    if h: "storyDocument st = Some d \<and> story_id d = docId \<and> (\<forall>k. PressStartOver \<notin> set (pressed k))"
    for d
  proof -
    from h have d0: "storyDocument ?st0 = Some d" and id: "story_id d = docId"
      and nr: "\<forall>k. PressStartOver \<notin> set (pressed k)"
      by simp_all
    from chapterLoop_stores [OF d0 id nr, of e cc ?title 0 w] obtain new2 m2 d' where
      s: "trace (snd ?run) = trace w @ new2"
         "itemRequests new2 = map (chapterRequest cc ?title) [0..<m2]"
         "storyDocument (fst ?run) = Some d'" "story_id d' = docId"
      and each: "\<forall>k parsed.
          0 \<le> k \<and> k < m2 \<and> generateChapterJson e (chapterRequest cc ?title k) = Inr parsed \<longrightarrow>
          (\<exists>ch wk. fst (generateChapterFromChunk e (cc ! k) (k + 1) (length cc) ?title wk) = Inr ch \<and>
                   arrayGet (chapters d') k = Some ch)"
      unfolding run by blast
    from s(1) ev(1) have "new2 = new" by simp
    with s(2) ev(4) have "map (chapterRequest cc ?title) [0..<m2] = map (chapterRequest cc ?title) [0..<m]"
      by simp
    then have "length (map (chapterRequest cc ?title) [0..<m2]) = length (map (chapterRequest cc ?title) [0..<m])"
      by (rule arg_cong)
    then have "m2 = m" by simp
    with each have "\<forall>k parsed.
                 k < m \<and> generateChapterJson e (chapterRequest cc ?title k) = Inr parsed \<longrightarrow>
                 (\<exists>ch wk. fst (generateChapterFromChunk e (cc ! k) (k + 1) (length cc) ?title wk) = Inr ch \<and>
                          arrayGet (chapters d') k = Some ch)"
      by simp
    with s(3,4) show ?thesis by blast
  qed
  show ?thesis
    apply (rule exI [of _ new], rule exI [of _ m])
    apply (intro conjI allI impI)
        apply (rule ev(1))
       apply (rule ev(2))
      apply (rule m)
     apply (rule ev(4))
    apply (erule stores)
    done
qed

lemma start_over_answering_run:
  "startChapterGeneration (scriptedEnv [] [] False) startOverDuringFirstCall None (js ''doc'')
     twoChapterChunks generatingStoryApp emptyWorld =
   (handleReset generatingStoryApp
      \<lparr>generationStatus := \<lparr>active = False, completed = 1, totalChapters = 0\<rparr>\<rparr>,
    \<lparr> uuids = 2,
      trace = [Started (ChapterRequest (js ''a'') 1 2 (js ''Untitled'')),
               Settled (ChapterRequest (js ''a'') 1 2 (js ''Untitled'')) True,
               ConsoleLog (js ''Generation stopped by user.'')] \<rparr>)"
  by (simp add: startChapterGeneration_def closureTitle_def
      chapterLoop.simps generateChapterFromChunk_def await_def scripted_chapter_answers
      crypto_randomUUID_def emit_def emptyWorld_def twoChapterChunks_def generatingStoryApp_def
      startOverDuringFirstCall_def performAll_def handleReset_def abort_def
      storeChapter_def setStoryDocument_def signalAborted_def Let_def)

lemma scripted_images_answer:
  "generateImages (scriptedEnv fs fc False) r =
     Inr (GenerateImagesResponse (Some [GeneratedImage (Some (Image (Some (js ''QUJD''))))]))"
  by (simp add: scriptedEnv_def)

lemma successful_presentation_run:
  "error (fst (handlePresentationGeneration (scriptedEnv [] [1] False) (replicate 3001 0x61)
                 initialPresentationApp emptyWorld)) = None"
  by (simp add: handlePresentationGeneration_def tryPresentationGeneration_def two_chunks
        generatePresentationTitle_def await_def scripted_text report_title crypto_randomUUID_def
        entries_two generateSlideFromChunk_def generateSlideImage_def scripted_slide_answers
        scripted_images_answer firstImageBytes_def emit_def emptyWorld_def
        initialPresentationApp_def Let_def)

text \<open>
  C5 as stated fails for the storing of a chapter. With Start Over pressed while the call
  for the first chapter is pending, the call answers and the chapter is produced, but the
  document is \<open>null\<close> by then and the updater drops the chapter: the run ends with no
  document.
\<close>

theorem start_over_drops_chapter:
  "generateChapterJson (scriptedEnv [] [] False) (chapterRequest twoChapterChunks (js ''Untitled'') 0)
     = Inr \<lparr> parsed_chapter_title = js ''Part '' @ decimal 1, parsed_pages = [Some [js ''idea'']] \<rparr> \<and>
   trace (snd (startChapterGeneration (scriptedEnv [] [] False) startOverDuringFirstCall None (js ''doc'')
                 twoChapterChunks generatingStoryApp emptyWorld))
     = [Started (ChapterRequest (js ''a'') 1 2 (js ''Untitled'')),
        Settled (ChapterRequest (js ''a'') 1 2 (js ''Untitled'')) True,
        ConsoleLog (js ''Generation stopped by user.'')] \<and>
   storyDocument
     (fst (startChapterGeneration (scriptedEnv [] [] False) startOverDuringFirstCall None (js ''doc'')
             twoChapterChunks generatingStoryApp emptyWorld)) = None"
proof -
  have "generateChapterJson (scriptedEnv [] [] False) (chapterRequest twoChapterChunks (js ''Untitled'') 0)
     = Inr \<lparr> parsed_chapter_title = js ''Part '' @ decimal 1, parsed_pages = [Some [js ''idea'']] \<rparr>"
    by (simp add: chapterRequest_def scripted_chapter_answers)
  then show ?thesis
    unfolding start_over_answering_run by (simp add: handleReset_def)
qed

text \<open>
  C5, amended. In every run of \<open>handlePresentationGeneration\<close> and of
  \<open>startChapterGeneration\<close>, whether it succeeds, fails or is interrupted, the backend calls are
  made one at a time, and the text calls for the items are started in the order of the
  chunks: those of the chunks \<open>0\<close> to \<open>m - 1\<close> for some \<open>m\<close>. When
  \<open>handlePresentationGeneration\<close> ends without an error, the published document holds one
  slide for each chunk, the slide at index \<open>i\<close> being one that \<open>generateSlideFromChunk\<close>
  returned for chunk \<open>i\<close>. In the story flavor, when the state holds the document of the
  loop and Start Over is not pressed during the run, the document at the end holds at
  index \<open>k\<close> a chapter that \<open>generateChapterFromChunk\<close> returned for group \<open>k\<close>, for every
  call \<open>k\<close> of the run that answered. A chapter that arrives when the document is \<open>null\<close> or
  has another id is dropped by the updater.
\<close>

theorem batch_generation_in_order:
  "(\<exists>new m title.
      trace (snd (handlePresentationGeneration e data ps pw)) = trace pw @ new \<and> oneAtATime new \<and>
      m \<le> length (presentationChunks data) \<and>
      itemRequests new =
        map (\<lambda>i. SlideRequest (presentationChunks data ! i) (i + 1) (length (presentationChunks data)) title)
          [0..<m]) \<and>
   (handlePresentationGeneration e data ps pw = (ps', pw') \<and> error ps' = None \<longrightarrow>
      (\<exists>d new.
         presentationDocument ps' = Some d \<and>
         trace pw' = trace pw @ new \<and> oneAtATime new \<and>
         itemRequests new =
           map (\<lambda>i. SlideRequest (presentationChunks data ! i) (i + 1)
                      (length (presentationChunks data)) (presentation_title d))
             [0..<length (presentationChunks data)] \<and>
         length (slides d) = length (presentationChunks data) \<and>
         (\<forall>i < length (presentationChunks data).
            \<exists>wi. fst (generateSlideFromChunk e (presentationChunks data ! i) (i + 1)
                         (length (presentationChunks data)) (presentation_title d) wi)
                  = Inr (slides d ! i)))) \<and>
   (\<exists>new m.
     trace (snd (startChapterGeneration e pressed closure docId cc st w)) = trace w @ new \<and>
     oneAtATime new \<and> m \<le> length cc \<and>
     itemRequests new = map (chapterRequest cc (closureTitle closure)) [0..<m] \<and>
     (\<forall>d. storyDocument st = Some d \<and> story_id d = docId \<and> (\<forall>k. PressStartOver \<notin> set (pressed k)) \<longrightarrow>
        (\<exists>d'. storyDocument (fst (startChapterGeneration e pressed closure docId cc st w)) = Some d' \<and>
              story_id d' = docId \<and>
              (\<forall>k parsed.
                 k < m \<and> generateChapterJson e (chapterRequest cc (closureTitle closure) k) = Inr parsed \<longrightarrow>
                 (\<exists>ch wk. fst (generateChapterFromChunk e (cc ! k) (k + 1) (length cc)
                                  (closureTitle closure) wk) = Inr ch \<and>
                          arrayGet (chapters d') k = Some ch))))) \<and>
   (storeChapter docId i ch None = None \<and>
    (story_id d0 \<noteq> docId \<longrightarrow> storeChapter docId i ch (Some d0) = Some d0))"
proof (intro conjI)
  show "\<exists>new m title.
      trace (snd (handlePresentationGeneration e data ps pw)) = trace pw @ new \<and> oneAtATime new \<and>
      m \<le> length (presentationChunks data) \<and>
      itemRequests new =
        map (\<lambda>i. SlideRequest (presentationChunks data ! i) (i + 1) (length (presentationChunks data)) title)
          [0..<m]"
    by (rule handlePresentationGeneration_events)
next
  show "handlePresentationGeneration e data ps pw = (ps', pw') \<and> error ps' = None \<longrightarrow>
      (\<exists>d new.
         presentationDocument ps' = Some d \<and>
         trace pw' = trace pw @ new \<and> oneAtATime new \<and>
         itemRequests new =
           map (\<lambda>i. SlideRequest (presentationChunks data ! i) (i + 1)
                      (length (presentationChunks data)) (presentation_title d))
             [0..<length (presentationChunks data)] \<and>
         length (slides d) = length (presentationChunks data) \<and>
         (\<forall>i < length (presentationChunks data).
            \<exists>wi. fst (generateSlideFromChunk e (presentationChunks data ! i) (i + 1)
                         (length (presentationChunks data)) (presentation_title d) wi)
                  = Inr (slides d ! i)))"
  proof
    assume a: "handlePresentationGeneration e data ps pw = (ps', pw') \<and> error ps' = None"
    from a have h: "handlePresentationGeneration e data ps pw = (ps', pw')"
      by (rule conjunct1)
    from a have ok: "error ps' = None"
      by (rule conjunct2)
    from handlePresentationGeneration_success [OF h ok]
    show "\<exists>d new.
         presentationDocument ps' = Some d \<and>
         trace pw' = trace pw @ new \<and> oneAtATime new \<and>
         itemRequests new =
           map (\<lambda>i. SlideRequest (presentationChunks data ! i) (i + 1)
                      (length (presentationChunks data)) (presentation_title d))
             [0..<length (presentationChunks data)] \<and>
         length (slides d) = length (presentationChunks data) \<and>
         (\<forall>i < length (presentationChunks data).
            \<exists>wi. fst (generateSlideFromChunk e (presentationChunks data ! i) (i + 1)
                         (length (presentationChunks data)) (presentation_title d) wi)
                  = Inr (slides d ! i))" .
  qed
next
  show "\<exists>new m.
     trace (snd (startChapterGeneration e pressed closure docId cc st w)) = trace w @ new \<and>
     oneAtATime new \<and> m \<le> length cc \<and>
     itemRequests new = map (chapterRequest cc (closureTitle closure)) [0..<m] \<and>
     (\<forall>d. storyDocument st = Some d \<and> story_id d = docId \<and> (\<forall>k. PressStartOver \<notin> set (pressed k)) \<longrightarrow>
        (\<exists>d'. storyDocument (fst (startChapterGeneration e pressed closure docId cc st w)) = Some d' \<and>
              story_id d' = docId \<and>
              (\<forall>k parsed.
                 k < m \<and> generateChapterJson e (chapterRequest cc (closureTitle closure) k) = Inr parsed \<longrightarrow>
                 (\<exists>ch wk. fst (generateChapterFromChunk e (cc ! k) (k + 1) (length cc)
                                  (closureTitle closure) wk) = Inr ch \<and>
                          arrayGet (chapters d') k = Some ch))))"
    by (rule startChapterGeneration_order)
next
  show "storeChapter docId i ch None = None"
    by (simp add: storeChapter_def)
next
  show "story_id d0 \<noteq> docId \<longrightarrow> storeChapter docId i ch (Some d0) = Some d0"
    by (simp add: storeChapter_def)
qed

lemma mixed_story_run_requests:
  "itemRequests
     (trace (snd (startChapterGeneration (scriptedEnv [] [1] False) (\<lambda>k. []) None (js ''doc'')
                    twoChapterChunks generatingStoryApp emptyWorld)))
   = [ChapterRequest (js ''a'') 1 2 (js ''Untitled''), ChapterRequest (js ''b'') 2 2 (js ''Untitled'')]"
  by (simp add: startChapterGeneration_def closureTitle_def
      chapterLoop.simps generateChapterFromChunk_def await_def scripted_chapter_answers
      scripted_chapter_fails crypto_randomUUID_def emit_def emptyWorld_def twoChapterChunks_def
      generatingStoryApp_def pendingStory_def held_def performAll_def
      storeChapter_def setStoryDocument_def markFailed_def arrayGet_def arraySet_def
      signalAborted_def itemRequests_def newError_def js_def Let_def)

theorem batch_generation_in_order_witness:
  "(\<exists>m title.
      m \<le> 2 \<and>
      itemRequests
        (trace (snd (handlePresentationGeneration (scriptedEnv [2] [] False) (replicate 3001 0x61)
                       initialPresentationApp emptyWorld)))
      = map (\<lambda>i. SlideRequest ([replicate 3000 0x61, [0x61]] ! i) (i + 1) 2 title) [0..<m]) \<and>
   (\<exists>d. presentationDocument
           (fst (handlePresentationGeneration (scriptedEnv [] [1] False) (replicate 3001 0x61)
                   initialPresentationApp emptyWorld)) = Some d \<and>
         length (slides d) = 2 \<and>
         itemRequests
           (trace (snd (handlePresentationGeneration (scriptedEnv [] [1] False) (replicate 3001 0x61)
                          initialPresentationApp emptyWorld)))
           = [SlideRequest (replicate 3000 0x61) 1 2 (presentation_title d),
              SlideRequest [0x61] 2 2 (presentation_title d)]) \<and>
   (\<exists>d' ch wk.
      storyDocument
        (fst (startChapterGeneration (scriptedEnv [] [1] False) (\<lambda>k. []) None (js ''doc'')
                twoChapterChunks generatingStoryApp emptyWorld)) = Some d' \<and>
      fst (generateChapterFromChunk (scriptedEnv [] [1] False) [js ''b''] 2 2 (js ''Untitled'') wk) = Inr ch \<and>
      arrayGet (chapters d') 1 = Some ch) \<and>
   storeChapter (js ''other'') 0 
     \<lparr> chapter_id = js ''c9'', chapter_title = js ''Part 1'', summary = [], pages = [] \<rparr>
      (Some (held pendingStory))
     = Some (held pendingStory)"
proof -
  let ?e = "scriptedEnv [] [1] False"
  let ?f = "scriptedEnv [2] [] False"
  let ?data = "replicate 3001 (0x61 :: code_unit)"
  let ?run = "handlePresentationGeneration ?e ?data initialPresentationApp emptyWorld"
  let ?frun = "handlePresentationGeneration ?f ?data initialPresentationApp emptyWorld"
  let ?srun = "startChapterGeneration ?e (\<lambda>k. []) None (js ''doc'') twoChapterChunks
                 generatingStoryApp emptyWorld"
  have u: "[0..<2] = [0, Suc 0]" by (simp add: upt_rec)
  note f = batch_generation_in_order [where e = ?f and data = ?data and ps = initialPresentationApp
      and pw = emptyWorld]
  from f [THEN conjunct1] obtain new m title where
    q1: "trace (snd ?frun) = trace emptyWorld @ new"
    and q2: "m \<le> length (presentationChunks ?data)"
    and q3: "itemRequests new =
        map (\<lambda>i. SlideRequest (presentationChunks ?data ! i) (i + 1) (length (presentationChunks ?data)) title)
          [0..<m]"
    by (elim exE conjE)
  from q1 have "trace (snd ?frun) = new" by (simp add: emptyWorld_def)
  with q2 q3 have "m \<le> 2 \<and> itemRequests (trace (snd ?frun))
      = map (\<lambda>i. SlideRequest ([replicate 3000 0x61, [0x61]] ! i) (i + 1) 2 title) [0..<m]"
    by (simp add: two_chunks)
  then have 0: "\<exists>m title. m \<le> 2 \<and> itemRequests (trace (snd ?frun))
      = map (\<lambda>i. SlideRequest ([replicate 3000 0x61, [0x61]] ! i) (i + 1) 2 title) [0..<m]"
    by blast
  note t = batch_generation_in_order [where e = ?e and data = ?data and ps = initialPresentationApp
      and pw = emptyWorld and ps' = "fst ?run" and pw' = "snd ?run"
      and pressed = "\<lambda>k. []" and closure = None and docId = "js ''doc''"
      and cc = twoChapterChunks and st = generatingStoryApp and w = emptyWorld
      and i = 0 and ch = "\<lparr> chapter_id = js ''c9'', chapter_title = js ''Part 1'', summary = [], pages = [] \<rparr>" and ?d0.0 = "held pendingStory"]
  have hp: "?run = (fst ?run, snd ?run) \<and> error (fst ?run) = None"
    using successful_presentation_run by simp
  from t [THEN conjunct2, THEN conjunct1, THEN mp, OF hp] obtain d new where
    p1: "presentationDocument (fst ?run) = Some d"
    and p2: "trace (snd ?run) = trace emptyWorld @ new"
    and p3: "itemRequests new =
           map (\<lambda>i. SlideRequest (presentationChunks ?data ! i) (i + 1)
                      (length (presentationChunks ?data)) (presentation_title d))
             [0..<length (presentationChunks ?data)]"
    and p4: "length (slides d) = length (presentationChunks ?data)"
    by (elim exE conjE)
  from p4 have p4': "length (slides d) = 2"
    by (simp add: two_chunks)
  from p2 have "trace (snd ?run) = new" by (simp add: emptyWorld_def)
  with p3 have p3': "itemRequests (trace (snd ?run)) =
       [SlideRequest (replicate 3000 0x61) 1 2 (presentation_title d),
        SlideRequest [0x61] 2 2 (presentation_title d)]"
    by (simp add: two_chunks u)
  from p1 p4' p3' have 1: "\<exists>d. presentationDocument (fst ?run) = Some d \<and> length (slides d) = 2 \<and>
         itemRequests (trace (snd ?run))
           = [SlideRequest (replicate 3000 0x61) 1 2 (presentation_title d),
              SlideRequest [0x61] 2 2 (presentation_title d)]"
    by blast
  from t [THEN conjunct2, THEN conjunct2, THEN conjunct1] obtain snew sm where
    s1: "trace (snd ?srun) = trace emptyWorld @ snew"
    and s2: "itemRequests snew = map (chapterRequest twoChapterChunks (closureTitle None)) [0..<sm]"
    and s3: "\<forall>d. storyDocument generatingStoryApp = Some d \<and> story_id d = js ''doc'' \<and>
                 (\<forall>k::nat. PressStartOver \<notin> set ([]::userAction list)) \<longrightarrow>
        (\<exists>d'. storyDocument (fst ?srun) = Some d' \<and> story_id d' = js ''doc'' \<and>
              (\<forall>k parsed.
                 k < sm \<and> generateChapterJson ?e (chapterRequest twoChapterChunks (closureTitle None) k)
                          = Inr parsed \<longrightarrow>
                 (\<exists>ch wk. fst (generateChapterFromChunk ?e (twoChapterChunks ! k) (k + 1)
                                  (length twoChapterChunks) (closureTitle None) wk) = Inr ch \<and>
                          arrayGet (chapters d') k = Some ch)))"
    by (elim exE conjE)
  from s1 have "trace (snd ?srun) = snew" by (simp add: emptyWorld_def)
  with s2 mixed_story_run_requests
  have "length (map (chapterRequest twoChapterChunks (closureTitle None)) [0..<sm]) = 2"
    by simp
  then have sm: "sm = 2" by simp
  have hd: "storyDocument generatingStoryApp = Some (held pendingStory) \<and>
            story_id (held pendingStory) = js ''doc'' \<and>
            (\<forall>k::nat. PressStartOver \<notin> set ([]::userAction list))"
    by (simp add: generatingStoryApp_def held_def pendingStory_def)
  from s3 [rule_format, OF hd] obtain d' where
    d': "storyDocument (fst ?srun) = Some d'"
    and each: "\<forall>k parsed.
                 k < sm \<and> generateChapterJson ?e (chapterRequest twoChapterChunks (closureTitle None) k)
                          = Inr parsed \<longrightarrow>
                 (\<exists>ch wk. fst (generateChapterFromChunk ?e (twoChapterChunks ! k) (k + 1)
                                  (length twoChapterChunks) (closureTitle None) wk) = Inr ch \<and>
                          arrayGet (chapters d') k = Some ch)"
    by (elim exE conjE)
  have k1: "1 < sm \<and> generateChapterJson ?e (chapterRequest twoChapterChunks (closureTitle None) 1)
              = Inr \<lparr> parsed_chapter_title = js ''Part '' @ decimal 2, parsed_pages = [Some [js ''idea'']] \<rparr>"
    using sm by (simp add: chapterRequest_def twoChapterChunks_def scripted_chapter_answers numeral_2_eq_2)
  from each [rule_format, OF k1] obtain ch wk where
    "fst (generateChapterFromChunk ?e (twoChapterChunks ! 1) (1 + 1)
            (length twoChapterChunks) (closureTitle None) wk) = Inr ch"
    and at1: "arrayGet (chapters d') 1 = Some ch"
    by (elim exE conjE)
  then have "fst (generateChapterFromChunk ?e [js ''b''] 2 2 (js ''Untitled'') wk) = Inr ch"
    by (simp add: twoChapterChunks_def closureTitle_def numeral_2_eq_2)
  with d' at1 have 2: "\<exists>d' ch wk. storyDocument (fst ?srun) = Some d' \<and>
      fst (generateChapterFromChunk ?e [js ''b''] 2 2 (js ''Untitled'') wk) = Inr ch \<and>
      arrayGet (chapters d') 1 = Some ch"
    by blast
  have other: "story_id (held pendingStory) \<noteq> js ''other''"
    by (simp add: held_def pendingStory_def js_def)
  note g = batch_generation_in_order [where docId = "js ''other''" and i = 0
      and ch = "\<lparr> chapter_id = js ''c9'', chapter_title = js ''Part 1'', summary = [], pages = [] \<rparr>" and ?d0.0 = "held pendingStory",
      THEN conjunct2, THEN conjunct2, THEN conjunct2, THEN conjunct2, THEN mp, OF other]
  from 0 1 2 g show ?thesis by (intro conjI)
qed

end
